(* ===== verification/Prelude.thy ===== *)
theory Prelude
  imports
    Main
    "HOL-Library.Word"
    "HOL-Library.AList"
    "HOL-Library.Char_ord"
    "HOL-Library.List_Lexorder"
begin

text \<open>
  Shared vocabulary of the development: the types that stand for Go's machine integers,
  instants and durations, the generic combinators the component models use for Go's
  early-return loops and slice suffixes, and the lemmas about them that every component
  proof relies on.

  \<^item> Go's \<open>int\<close>/\<open>int64\<close> values are \<^typ>\<open>int\<close>; where an operation can leave the 64-bit
    range the wrap-around is written with \<open>wrap64\<close>.
  \<^item> \<open>uint32\<close> and \<open>uint64\<close> are words.
  \<^item> A Go string is its list of bytes, a \<^typ>\<open>string\<close>; the order of
    \<open>HOL-Library.List_Lexorder\<close> over \<open>HOL-Library.Char_ord\<close> is Go's byte-wise order.
  \<^item> A Go \<open>error\<close> that may be nil is an \<open>option\<close>; a \<open>(value, error)\<close> pair is a sum,
    \<open>Inl\<close> the error.
\<close>

section \<open>Fact collections\<close>

named_theorems key_simps \<open>round trips of the composed string keys\<close>
named_theorems state_simps \<open>frame facts: what an operation leaves unchanged\<close>

section \<open>Machine integers\<close>

type_synonym u32 = "32 word"
type_synonym u64 = "64 word"

text \<open>The value an \<open>int64\<close> expression has after two's-complement wrap-around.\<close>

definition wrap64 :: "int \<Rightarrow> int" where
  "wrap64 x = signed_take_bit 63 x"

lemma wrap64_id [simp]: "- (2 ^ 63) \<le> x \<Longrightarrow> x < 2 ^ 63 \<Longrightarrow> wrap64 x = x"
  by (simp add: wrap64_def signed_take_bit_int_eq_self)

lemma wrap64_range: "- (2 ^ 63) \<le> wrap64 x \<and> wrap64 x < 2 ^ 63"
  unfolding wrap64_def
  using signed_take_bit_int_greater_eq_minus_exp [of 63 x] signed_take_bit_int_less_exp [of 63 x]
  by simp

section \<open>Loops with an early return\<close>

text \<open>
  \<open>for _, x := range xs \<dots> if err := f(x); err != nil return err\<close>: the first error, if any.
\<close>

fun first_some :: "('a \<Rightarrow> 'b option) \<Rightarrow> 'a list \<Rightarrow> 'b option" where
  "first_some f [] = None"
| "first_some f (x # xs) = (case f x of None \<Rightarrow> first_some f xs | Some e \<Rightarrow> Some e)"

lemma first_some_cong [fundef_cong]:
  "xs = ys \<Longrightarrow> (\<And>x. x \<in> set ys \<Longrightarrow> f x = g x) \<Longrightarrow> first_some f xs = first_some g ys"
proof (induction xs arbitrary: ys)
  case Nil
  then show ?case by auto
next
  case (Cons x xs)
  then show ?case by (auto split: option.splits)
qed

lemma first_some_None_iff: "first_some f xs = None \<longleftrightarrow> (\<forall>x \<in> set xs. f x = None)"
  by (induction xs) (auto split: option.splits)

lemma first_some_Some_in: "first_some f xs = Some e \<Longrightarrow> \<exists>x \<in> set xs. f x = Some e"
  by (induction xs) (auto split: option.splits)

section \<open>Slice suffixes\<close>

text \<open>\<open>xs[len(xs)-n:]\<close> for \<open>n\<close> at most the length, the whole slice otherwise.\<close>

definition last_n :: "nat \<Rightarrow> 'a list \<Rightarrow> 'a list" where
  "last_n n xs = drop (length xs - n) xs"

lemma length_last_n [simp]: "length (last_n n xs) = min n (length xs)"
  by (auto simp: last_n_def)

lemma set_last_n: "set (last_n n xs) \<subseteq> set xs"
  by (simp add: last_n_def set_drop_subset)

lemma map_last_n: "map f (last_n n xs) = last_n n (map f xs)"
  by (simp add: last_n_def drop_map)

lemma last_n_short: "length xs \<le> n \<Longrightarrow> last_n n xs = xs"
  by (simp add: last_n_def)

lemma last_n_last_n: "m \<le> n \<Longrightarrow> last_n m (last_n n xs) = last_n m xs"
  by (cases "n \<le> length xs") (auto simp: last_n_def)

lemma last_n_snoc: "0 < n \<Longrightarrow> last_n n (xs @ [x]) = last_n (n - 1) xs @ [x]"
  by (cases n) (simp_all add: last_n_def)

lemma last_n_snoc_last_n:
  assumes "m \<le> n" shows "last_n m (last_n n xs @ [x]) = last_n m (xs @ [x])"
proof (cases "m = 0")
  case True
  then show ?thesis by (simp add: last_n_def)
next
  case False
  with assms show ?thesis by (simp add: last_n_snoc last_n_last_n)
qed

section \<open>Maps\<close>

text \<open>\<open>for k := range m \<dots> if p(k) delete(m, k)\<close>.\<close>

definition delete_keys :: "('k \<Rightarrow> bool) \<Rightarrow> ('k \<rightharpoonup> 'v) \<Rightarrow> ('k \<rightharpoonup> 'v)" where
  "delete_keys p m = (\<lambda>k. if p k then None else m k)"

lemma delete_keys_apply [simp]: "delete_keys p m k = (if p k then None else m k)"
  by (simp add: delete_keys_def)

text \<open>\<open>m[k]\<close> on a missing key yields the zero value \<open>z\<close> of the element type.\<close>

definition get_or :: "'v \<Rightarrow> ('k \<rightharpoonup> 'v) \<Rightarrow> 'k \<Rightarrow> 'v" where
  "get_or z m k = (case m k of None \<Rightarrow> z | Some v \<Rightarrow> v)"

lemma get_or_None [simp]: "m k = None \<Longrightarrow> get_or z m k = z"
  and get_or_Some [simp]: "m k = Some v \<Longrightarrow> get_or z m k = v"
  by (simp_all add: get_or_def)

section \<open>Loops whose body may panic\<close>

text \<open>A loop over a slice whose body may panic; \<open>None\<close> is the panic.\<close>

fun fold_opt :: "('a \<Rightarrow> 's \<Rightarrow> 's option) \<Rightarrow> 'a list \<Rightarrow> 's \<Rightarrow> 's option" where
  "fold_opt f [] s = Some s"
| "fold_opt f (x # xs) s = (case f x s of None \<Rightarrow> None | Some s' \<Rightarrow> fold_opt f xs s')"

lemma fold_opt_append:
  "fold_opt f (xs @ ys) s = (case fold_opt f xs s of None \<Rightarrow> None | Some s' \<Rightarrow> fold_opt f ys s')"
  by (induction xs arbitrary: s) (auto split: option.splits)

text \<open>An invariant of the body is an invariant of the loop; the body may use that the element is in the slice.\<close>

lemma fold_opt_invariant:
  assumes "fold_opt f xs s = Some s'" and "I s"
    and "\<And>x s s'. x \<in> set xs \<Longrightarrow> I s \<Longrightarrow> f x s = Some s' \<Longrightarrow> I s'"
  shows "I s'"
  using assms
proof (induction xs arbitrary: s)
  case Nil
  then show ?case by simp
next
  case (Cons x xs)
  from Cons.prems(1) obtain t where t: "f x s = Some t" and r: "fold_opt f xs t = Some s'"
    by (auto split: option.splits)
  have "I t" using Cons.prems(2,3) t by (meson list.set_intros(1))
  then show ?case using Cons.IH [OF r] Cons.prems(3) by (meson list.set_intros(2))
qed

lemma fold_opt_total:
  assumes "\<And>x s. x \<in> set xs \<Longrightarrow> f x s \<noteq> None"
  shows "fold_opt f xs s \<noteq> None"
  using assms by (induction xs arbitrary: s) (auto split: option.splits)

end
