(* ===== verification/GoFloat.thy ===== *)
theory GoFloat
  imports Complex_Main Prelude
begin

text \<open>
  Go's \<open>float64\<close>: IEEE 754 binary64 values with their comparisons and the four
  arithmetic operations, each the exact rational result rounded once to the nearest
  representable value, ties to even. Prices, zone bounds, indicator values and the
  thresholds of rules are values of this type, so that the comparisons the evaluator makes
  are the ones the machine makes, NaN, infinities and signed zeros included.

  A finite value is a sign bit and a magnitude; \<open>F_Fin True 0\<close> is the negative zero.
\<close>

section \<open>Values and comparisons\<close>

datatype f64 =
    F_NaN
  | F_Inf bool        \<comment> \<open>True: minus infinity\<close>
  | F_Fin bool rat    \<comment> \<open>sign bit and magnitude\<close>

definition f_signed :: "bool \<Rightarrow> rat \<Rightarrow> rat" where
  "f_signed s q = (if s then - q else q)"

fun f_lt :: "f64 \<Rightarrow> f64 \<Rightarrow> bool" where
  "f_lt F_NaN b = False"
| "f_lt (F_Inf s) F_NaN = False"
| "f_lt (F_Inf s) (F_Inf t) = (s \<and> \<not> t)"
| "f_lt (F_Inf s) (F_Fin t q) = s"
| "f_lt (F_Fin s p) F_NaN = False"
| "f_lt (F_Fin s p) (F_Inf t) = (\<not> t)"
| "f_lt (F_Fin s p) (F_Fin t q) = (f_signed s p < f_signed t q)"

fun f_eq :: "f64 \<Rightarrow> f64 \<Rightarrow> bool" where
  "f_eq F_NaN b = False"
| "f_eq (F_Inf s) F_NaN = False"
| "f_eq (F_Inf s) (F_Inf t) = (s = t)"
| "f_eq (F_Inf s) (F_Fin t q) = False"
| "f_eq (F_Fin s p) F_NaN = False"
| "f_eq (F_Fin s p) (F_Inf t) = False"
| "f_eq (F_Fin s p) (F_Fin t q) = (f_signed s p = f_signed t q)"

definition f_le :: "f64 \<Rightarrow> f64 \<Rightarrow> bool" where
  "f_le a b \<longleftrightarrow> f_lt a b \<or> f_eq a b"

definition f_isNaN :: "f64 \<Rightarrow> bool" where
  "f_isNaN a \<longleftrightarrow> a = F_NaN"

definition f_isInf :: "f64 \<Rightarrow> bool" where
  "f_isInf a \<longleftrightarrow> (case a of F_Inf _ \<Rightarrow> True | _ \<Rightarrow> False)"

definition f_finite :: "f64 \<Rightarrow> bool" where
  "f_finite a \<longleftrightarrow> (case a of F_Fin _ _ \<Rightarrow> True | _ \<Rightarrow> False)"

lemma f_finite_iff: "f_finite a \<longleftrightarrow> \<not> f_isNaN a \<and> \<not> f_isInf a"
  by (cases a) (simp_all add: f_finite_def f_isNaN_def f_isInf_def)

lemma f_lt_irrefl [simp]: "\<not> f_lt a a"
  by (cases a) simp_all

lemma f_lt_asym: "f_lt a b \<Longrightarrow> \<not> f_lt b a"
  by (cases a; cases b) auto

lemma f_lt_trans: "f_lt a b \<Longrightarrow> f_lt b c \<Longrightarrow> f_lt a c"
  by (cases a; cases b; cases c) auto

lemma f_lt_not_le: "f_lt a b \<Longrightarrow> \<not> f_le b a"
  by (cases a; cases b) (auto simp: f_le_def)

lemma f_trichotomy: "f_finite a \<Longrightarrow> f_finite b \<Longrightarrow> f_lt a b \<or> f_eq a b \<or> f_lt b a"
  by (cases a; cases b) (auto simp: f_finite_def)

lemma f_le_total: "f_finite a \<Longrightarrow> f_finite b \<Longrightarrow> \<not> f_lt a b \<longleftrightarrow> f_le b a"
  by (cases a; cases b) (auto simp: f_finite_def f_le_def)

section \<open>Rounding\<close>

definition pow2 :: "int \<Rightarrow> rat" where
  "pow2 e = (if 0 \<le> e then 2 ^ nat e else 1 / 2 ^ nat (- e))"

function bit_len :: "int \<Rightarrow> int" where
  "bit_len n = (if n \<le> 0 then 0 else 1 + bit_len (n div 2))"
  by pat_completeness auto
termination
  by (relation "measure nat") auto

declare bit_len.simps [simp del]

text \<open>The exponent \<open>e\<close> with \<open>2^e \<le> q < 2^(e+1)\<close>, for positive \<open>q\<close>.\<close>

definition ilog2 :: "rat \<Rightarrow> int" where
  "ilog2 q = (let (n, d) = quotient_of q;
                  e = bit_len n - bit_len d
              in if pow2 e \<le> q then e else e - 1)"

definition round_half_even :: "rat \<Rightarrow> int" where
  "round_half_even q =
     (let f = \<lfloor>q\<rfloor>; r = q - of_int f
      in if r < 1 / 2 then f else if 1 / 2 < r then f + 1 else if even f then f else f + 1)"

text \<open>The binary64 value nearest to the magnitude \<open>q \<ge> 0\<close>, with sign bit \<open>s\<close>.\<close>

definition f_round :: "bool \<Rightarrow> rat \<Rightarrow> f64" where
  "f_round s q =
     (if q = 0 then F_Fin s 0
      else let e = max (- 1074) (ilog2 q - 52);
               v = of_int (round_half_even (q / pow2 e)) * pow2 e
           in if 2 ^ 1024 \<le> v then F_Inf s else F_Fin s v)"

definition f_of_rat :: "rat \<Rightarrow> f64" where
  "f_of_rat q = f_round (q < 0) \<bar>q\<bar>"

definition f_of_int :: "int \<Rightarrow> f64" where
  "f_of_int i = f_of_rat (of_int i)"

definition f_zero :: f64 where
  "f_zero = F_Fin False 0"

lemma round_half_even_of_int [simp]: "round_half_even (of_int i) = i"
  by (simp add: round_half_even_def)

lemma round_half_even_near: "\<bar>of_int (round_half_even q) - q\<bar> \<le> 1 / 2"
proof -
  have "of_int \<lfloor>q\<rfloor> \<le> q" and "q < of_int \<lfloor>q\<rfloor> + 1"
    by linarith+
  then show ?thesis by (auto simp: round_half_even_def Let_def)
qed

section \<open>Arithmetic\<close>

fun f_neg :: "f64 \<Rightarrow> f64" where
  "f_neg F_NaN = F_NaN"
| "f_neg (F_Inf s) = F_Inf (\<not> s)"
| "f_neg (F_Fin s q) = F_Fin (\<not> s) q"

fun f_add :: "f64 \<Rightarrow> f64 \<Rightarrow> f64" where
  "f_add F_NaN b = F_NaN"
| "f_add (F_Inf s) F_NaN = F_NaN"
| "f_add (F_Inf s) (F_Inf t) = (if s = t then F_Inf s else F_NaN)"
| "f_add (F_Inf s) (F_Fin t q) = F_Inf s"
| "f_add (F_Fin s p) F_NaN = F_NaN"
| "f_add (F_Fin s p) (F_Inf t) = F_Inf t"
| "f_add (F_Fin s p) (F_Fin t q) =
     (let v = f_signed s p + f_signed t q
      in if v = 0 then F_Fin (s \<and> t) 0 else f_of_rat v)"

definition f_sub :: "f64 \<Rightarrow> f64 \<Rightarrow> f64" where
  "f_sub a b = f_add a (f_neg b)"

fun f_mul :: "f64 \<Rightarrow> f64 \<Rightarrow> f64" where
  "f_mul F_NaN b = F_NaN"
| "f_mul (F_Inf s) F_NaN = F_NaN"
| "f_mul (F_Inf s) (F_Inf t) = F_Inf (s \<noteq> t)"
| "f_mul (F_Inf s) (F_Fin t q) = (if q = 0 then F_NaN else F_Inf (s \<noteq> t))"
| "f_mul (F_Fin s p) F_NaN = F_NaN"
| "f_mul (F_Fin s p) (F_Inf t) = (if p = 0 then F_NaN else F_Inf (s \<noteq> t))"
| "f_mul (F_Fin s p) (F_Fin t q) = f_round (s \<noteq> t) (p * q)"

fun f_div :: "f64 \<Rightarrow> f64 \<Rightarrow> f64" where
  "f_div F_NaN b = F_NaN"
| "f_div (F_Inf s) F_NaN = F_NaN"
| "f_div (F_Inf s) (F_Inf t) = F_NaN"
| "f_div (F_Inf s) (F_Fin t q) = F_Inf (s \<noteq> t)"
| "f_div (F_Fin s p) F_NaN = F_NaN"
| "f_div (F_Fin s p) (F_Inf t) = F_Fin (s \<noteq> t) 0"
| "f_div (F_Fin s p) (F_Fin t q) =
     (if q = 0 then (if p = 0 then F_NaN else F_Inf (s \<noteq> t)) else f_round (s \<noteq> t) (p / q))"

section \<open>Decimal output\<close>

text \<open>The decimal digits of a non-negative number.\<close>

function digits :: "int \<Rightarrow> string" where
  "digits n = (if n < 10 then [char_of (48 + n mod 10)]
               else digits (n div 10) @ [char_of (48 + n mod 10)])"
  by pat_completeness auto
termination
  by (relation "measure nat") auto

declare digits.simps [simp del]

text \<open>\<open>strconv.Itoa\<close> and the \<open>%d\<close> verb.\<close>

definition itoa :: "int \<Rightarrow> string" where
  "itoa i = (if i < 0 then ''-'' @ digits (- i) else digits i)"

text \<open>\<open>0\<close>-padded decimal of a given minimal width, as the \<open>%03d\<close> verb prints it.\<close>

definition digits_padded :: "nat \<Rightarrow> int \<Rightarrow> string" where
  "digits_padded w n = (let ds = digits n in replicate (w - length ds) CHR ''0'' @ ds)"

text \<open>The \<open>%.<prec>f\<close> verb of package fmt for a positive precision.\<close>

fun f_fmt :: "nat \<Rightarrow> f64 \<Rightarrow> string" where
  "f_fmt prec F_NaN = ''NaN''"
| "f_fmt prec (F_Inf s) = (if s then ''-Inf'' else ''+Inf'')"
| "f_fmt prec (F_Fin s q) =
     (let ds = digits_padded (Suc prec) (round_half_even (q * 10 ^ prec));
          k = length ds - prec
      in (if s then ''-'' else '''') @ take k ds @ ''.'' @ drop k ds)"

lemma digits_not_Nil [simp]: "digits n \<noteq> []"
  by (subst digits.simps) simp

lemma digit_char_range: "(of_char (char_of (48 + n mod 10 :: int)) :: int) = 48 + n mod 10"
proof -
  have "0 \<le> n mod 10" and "n mod 10 < 10" by simp_all
  then have "take_bit 8 (48 + n mod 10) = 48 + n mod 10"
    by (intro take_bit_int_eq_self) simp_all
  then show ?thesis by (simp add: of_char_of take_bit_eq_mod)
qed

lemma digits_range: "c \<in> set (digits n) \<Longrightarrow> 48 \<le> (of_char c :: int) \<and> (of_char c :: int) < 58"
proof (induction n rule: digits.induct)
  case (1 n)
  have "48 \<le> (of_char (char_of (48 + n mod 10 :: int)) :: int) \<and>
        (of_char (char_of (48 + n mod 10 :: int)) :: int) < 58"
    by (simp add: digit_char_range)
  with 1 show ?case by (auto simp: digits.simps [of n] split: if_splits)
qed

lemma itoa_chars: "c \<in> set (itoa i) \<Longrightarrow> c = CHR ''-'' \<or> (48 \<le> (of_char c :: int) \<and> (of_char c :: int) < 58)"
  by (auto simp: itoa_def dest: digits_range split: if_splits)

end
