(* ===== verification/GoStd.thy ===== *)
theory GoStd
  imports GoFloat "HOL-Library.Signed_Division"
begin

text \<open>
  What the program uses of Go's standard library: packages strings, strconv and time.

  An instant (\<open>time.Time\<close>) is the number of nanoseconds since 1 January of year 1, UTC; the
  zero \<open>Time\<close> is 0. The location a \<open>Time\<close> carries does not take part in comparisons, so
  \<open>UTC()\<close> is the identity here. A \<open>time.Duration\<close> is its \<open>int64\<close> count of nanoseconds.
  Errors of the parsers carry no information the program looks at: they are \<open>None\<close>.
\<close>

section \<open>Package strings\<close>

definition has_prefix :: "string \<Rightarrow> string \<Rightarrow> bool" where
  "has_prefix s p \<longleftrightarrow> take (length p) s = p"

definition has_suffix :: "string \<Rightarrow> string \<Rightarrow> bool" where
  "has_suffix s p \<longleftrightarrow> length p \<le> length s \<and> drop (length s - length p) s = p"

definition trim_prefix :: "string \<Rightarrow> string \<Rightarrow> string" where
  "trim_prefix s p = (if has_prefix s p then drop (length p) s else s)"

text \<open>\<open>strings.Cut\<close> with a separator of one byte: the parts around its first occurrence.\<close>

fun cut :: "char \<Rightarrow> string \<Rightarrow> (string \<times> string) option" where
  "cut c [] = None"
| "cut c (x # xs) =
     (if x = c then Some ([], xs)
      else case cut c xs of None \<Rightarrow> None | Some (a, b) \<Rightarrow> Some (x # a, b))"

text \<open>\<open>strings.SplitN\<close> with a separator of one byte and a positive limit.\<close>

fun split_n :: "nat \<Rightarrow> char \<Rightarrow> string \<Rightarrow> string list" where
  "split_n 0 c s = []"
| "split_n (Suc 0) c s = [s]"
| "split_n (Suc (Suc n)) c s =
     (case cut c s of None \<Rightarrow> [s] | Some (a, b) \<Rightarrow> a # split_n (Suc n) c b)"

lemma cut_None_iff: "cut c s = None \<longleftrightarrow> c \<notin> set s"
  by (induction s) (auto split: option.splits)

lemma cut_append [key_simps]: "c \<notin> set a \<Longrightarrow> cut c (a @ c # b) = Some (a, b)"
  by (induction a) auto

lemma cut_Some: "cut c s = Some (a, b) \<Longrightarrow> s = a @ c # b \<and> c \<notin> set a"
  by (induction s arbitrary: a) (auto split: if_splits option.splits)

text \<open>
  Whether \<open>strings.TrimSpace\<close> leaves nothing: the string is a sequence of the UTF-8
  encodings of the characters \<open>unicode.IsSpace\<close> accepts.
\<close>

definition byte :: "char \<Rightarrow> int" where
  "byte c = of_char c"

function blank :: "string \<Rightarrow> bool" where
  "blank s =
    (case s of
       [] \<Rightarrow> True
     | a # r \<Rightarrow>
        if (9 \<le> byte a \<and> byte a \<le> 13) \<or> byte a = 32 then blank r
        else (case r of
           [] \<Rightarrow> False
         | b # r' \<Rightarrow>
            if byte a = 194 \<and> (byte b = 133 \<or> byte b = 160) then blank r'
            else (case r' of
               [] \<Rightarrow> False
             | c # r'' \<Rightarrow>
                if (byte a = 225 \<and> byte b = 154 \<and> byte c = 128)
                   \<or> (byte a = 226 \<and> byte b = 128 \<and>
                        ((128 \<le> byte c \<and> byte c \<le> 138) \<or> byte c = 168 \<or> byte c = 169 \<or> byte c = 175))
                   \<or> (byte a = 226 \<and> byte b = 129 \<and> byte c = 159)
                   \<or> (byte a = 227 \<and> byte b = 128 \<and> byte c = 128)
                then blank r'' else False)))"
  by pat_completeness auto
termination
  by (relation "measure length") auto

declare blank.simps [simp del]

section \<open>Package strconv\<close>

definition is_digit :: "char \<Rightarrow> bool" where
  "is_digit c \<longleftrightarrow> 48 \<le> byte c \<and> byte c \<le> 57"

definition digits_value :: "string \<Rightarrow> int" where
  "digits_value s = foldl (\<lambda>n c. n * 10 + (byte c - 48)) 0 s"

text \<open>\<open>strconv.Atoi\<close> on a 64-bit platform.\<close>

definition atoi :: "string \<Rightarrow> int option" where
  "atoi s =
     (let neg = (s \<noteq> [] \<and> hd s = CHR ''-'');
          t = (if s \<noteq> [] \<and> (hd s = CHR ''-'' \<or> hd s = CHR ''+'') then tl s else s)
      in if t = [] \<or> \<not> list_all is_digit t then None
         else let v = (if neg then - digits_value t else digits_value t)
              in if - (2 ^ 63) \<le> v \<and> v < 2 ^ 63 then Some v else None)"

lemma atoi_range: "atoi s = Some v \<Longrightarrow> - (2 ^ 63) \<le> v \<and> v < 2 ^ 63"
  by (auto simp: atoi_def Let_def split: if_splits)

lemma is_digit_digits: "c \<in> set (digits n) \<Longrightarrow> is_digit c"
  using digits_range [of c n] by (simp add: is_digit_def byte_def)

lemma digits_value_digits: "0 \<le> n \<Longrightarrow> digits_value (digits n) = n"
proof (induction n rule: digits.induct)
  case (1 n)
  show ?case
  proof (cases "n < 10")
    case True
    with "1.prems" digit_char_range [of n] show ?thesis
      by (simp add: digits.simps [of n] digits_value_def byte_def)
  next
    case False
    with "1.IH" have "digits_value (digits (n div 10)) = n div 10" by simp
    with False digit_char_range [of n] show ?thesis
      by (simp add: digits.simps [of n] digits_value_def byte_def)
  qed
qed

text \<open>\<open>Atoi\<close> reads back what \<open>Itoa\<close> wrote, for every \<open>int\<close>.\<close>

lemma hd_digits_sign: "hd (digits n) \<noteq> CHR ''-'' \<and> hd (digits n) \<noteq> CHR ''+''"
proof -
  have "hd (digits n) \<in> set (digits n)" by simp
  then have "is_digit (hd (digits n))" by (rule is_digit_digits)
  then show ?thesis by (auto simp: is_digit_def byte_def)
qed

lemma atoi_itoa: "- (2 ^ 63) \<le> n \<Longrightarrow> n < 2 ^ 63 \<Longrightarrow> atoi (itoa n) = Some n"
  using hd_digits_sign [of n] is_digit_digits [of _ n] is_digit_digits [of _ "- n"]
  by (auto simp: atoi_def itoa_def Let_def digits_value_digits list_all_iff)

section \<open>Package time\<close>

type_synonym go_time = int
type_synonym duration = int

abbreviation microsecond :: duration where "microsecond \<equiv> 1000"
abbreviation millisecond :: duration where "millisecond \<equiv> 1000000"
abbreviation second :: duration where "second \<equiv> 1000000000"
abbreviation minute :: duration where "minute \<equiv> 60000000000"
abbreviation hour :: duration where "hour \<equiv> 3600000000000"

definition is_zero :: "go_time \<Rightarrow> bool" where
  "is_zero t \<longleftrightarrow> t = 0"

text \<open>\<open>Time.Sub\<close> saturates at the ends of the \<open>Duration\<close> range.\<close>

definition time_sub :: "go_time \<Rightarrow> go_time \<Rightarrow> duration" where
  "time_sub t u = max (- (2 ^ 63)) (min (2 ^ 63 - 1) (t - u))"

definition time_add :: "go_time \<Rightarrow> duration \<Rightarrow> go_time" where
  "time_add t d = t + d"

text \<open>\<open>time.Duration(n) * unit\<close>, an \<open>int64\<close> multiplication.\<close>

definition duration_mul :: "int \<Rightarrow> duration \<Rightarrow> duration" where
  "duration_mul n unit = wrap64 (n * unit)"

text \<open>\<open>Duration.Seconds\<close>; Go's integer division truncates towards zero.\<close>

definition seconds :: "duration \<Rightarrow> f64" where
  "seconds d = f_add (f_of_int (d sdiv second)) (f_div (f_of_int (d smod second)) (f_of_int second))"

lemma time_sub_less_iff:
  "0 \<le> d \<Longrightarrow> d < 2 ^ 63 \<Longrightarrow> time_sub t u < d \<longleftrightarrow> t - u < d"
  by (auto simp: time_sub_def)

subsection \<open>ParseDuration\<close>

fun leading_int :: "string \<Rightarrow> int \<Rightarrow> int option" where
  "leading_int [] x = Some x"
| "leading_int (c # cs) x =
     (if x > 2 ^ 63 div 10 then None
      else let y = x * 10 + (byte c - 48) in if y > 2 ^ 63 then None else leading_int cs y)"

fun leading_fraction :: "string \<Rightarrow> int \<Rightarrow> f64 \<Rightarrow> int \<times> f64" where
  "leading_fraction [] x scale = (x, scale)"
| "leading_fraction (c # cs) x scale =
     (if x > (2 ^ 63 - 1) div 10 then (x, scale)
      else let y = x * 10 + (byte c - 48)
           in if y > 2 ^ 63 then (x, scale) else leading_fraction cs y (f_mul scale (f_of_int 10)))"

definition duration_unit :: "string \<Rightarrow> int option" where
  "duration_unit u =
     (if u = ''ns'' then Some 1
      else if u = ''us'' \<or> u = [CHR 0xC2, CHR 0xB5, CHR ''s''] \<or> u = [CHR 0xCE, CHR 0xBC, CHR ''s'']
        then Some microsecond
      else if u = ''ms'' then Some millisecond
      else if u = ''s'' then Some second
      else if u = ''m'' then Some minute
      else if u = ''h'' then Some hour
      else None)"

text \<open>\<open>uint64(f)\<close> for a non-negative float.\<close>

definition f_trunc :: "f64 \<Rightarrow> int" where
  "f_trunc a = (case a of F_Fin s q \<Rightarrow> \<lfloor>q\<rfloor> | _ \<Rightarrow> 0)"

definition number_char :: "char \<Rightarrow> bool" where
  "number_char c \<longleftrightarrow> c = CHR ''.'' \<or> is_digit c"

text \<open>One \<open>number unit\<close> group: its value in nanoseconds and the rest of the string.\<close>

definition duration_group :: "string \<Rightarrow> (int \<times> string) option" where
  "duration_group s =
     (if s = [] \<or> \<not> number_char (hd s) then None
      else case leading_int (takeWhile is_digit s) 0 of
        None \<Rightarrow> None
      | Some v \<Rightarrow>
         (let s1 = dropWhile is_digit s;
              dot = (s1 \<noteq> [] \<and> hd s1 = CHR ''.'');
              frac = (if dot then takeWhile is_digit (tl s1) else []);
              s2 = (if dot then dropWhile is_digit (tl s1) else s1);
              u = takeWhile (\<lambda>c. \<not> number_char c) s2
          in if takeWhile is_digit s = [] \<and> frac = [] then None
             else if u = [] then None
             else case duration_unit u of
               None \<Rightarrow> None
             | Some unit \<Rightarrow>
                if v > 2 ^ 63 div unit then None
                else let (f, scale) = leading_fraction frac 0 (f_of_int 1);
                         w = (if f > 0 then v * unit + f_trunc (f_mul (f_of_int f) (f_div (f_of_int unit) scale))
                              else v * unit)
                     in if f > 0 \<and> w > 2 ^ 63 then None
                        else Some (w, dropWhile (\<lambda>c. \<not> number_char c) s2)))"

lemma length_dropWhile_less: "takeWhile p s \<noteq> [] \<Longrightarrow> length (dropWhile p s) < length s"
  by (cases s) (auto split: if_splits simp: length_dropWhile_le le_imp_less_Suc)

lemma length_tl_dropWhile: "length (dropWhile p (tl s)) \<le> length s"
  using length_dropWhile_le [of p "tl s"] by simp

lemma duration_group_shorter:
  assumes "duration_group s = Some (v, r)"
  shows "length r < length s"
proof -
  define s1 where "s1 = dropWhile is_digit s"
  define s2 where "s2 = (if s1 \<noteq> [] \<and> hd s1 = CHR ''.'' then dropWhile is_digit (tl s1) else s1)"
  have "length s1 \<le> length s" by (simp add: s1_def length_dropWhile_le)
  then have le: "length s2 \<le> length s"
    using length_tl_dropWhile [of is_digit s1] by (simp add: s2_def)
  from assms have "takeWhile (\<lambda>c. \<not> number_char c) s2 \<noteq> []"
    and "r = dropWhile (\<lambda>c. \<not> number_char c) s2"
    by (auto simp: duration_group_def Let_def s1_def s2_def split: if_splits option.splits prod.splits)
  with length_dropWhile_less [of "\<lambda>c. \<not> number_char c" s2] le show ?thesis by simp
qed

function duration_groups :: "string \<Rightarrow> int \<Rightarrow> int option" where
  "duration_groups s d =
     (if s = [] then Some d
      else case duration_group s of
        None \<Rightarrow> None
      | Some (v, r) \<Rightarrow>
          let d' = (d + v) mod 2 ^ 64
          in if d' > 2 ^ 63 then None else duration_groups r d')"
  by pat_completeness auto
termination
  by (relation "measure (length \<circ> fst)") (auto dest: duration_group_shorter)

declare duration_groups.simps [simp del]

definition parse_duration :: "string \<Rightarrow> duration option" where
  "parse_duration orig =
     (let neg = (orig \<noteq> [] \<and> hd orig = CHR ''-'');
          s = (if orig \<noteq> [] \<and> (hd orig = CHR ''-'' \<or> hd orig = CHR ''+'') then tl orig else orig)
      in if s = ''0'' then Some 0
         else if s = [] then None
         else case duration_groups s 0 of
           None \<Rightarrow> None
         | Some d \<Rightarrow>
             if neg then Some (wrap64 (- d))
             else if d > 2 ^ 63 - 1 then None else Some d)"

lemma duration_groups_bounds:
  "0 \<le> d \<Longrightarrow> d \<le> 2 ^ 63 \<Longrightarrow> duration_groups s d = Some r \<Longrightarrow> 0 \<le> r \<and> r \<le> 2 ^ 63"
proof (induction s d rule: duration_groups.induct)
  case (1 s d)
  show ?case
  proof (cases "s = []")
    case True
    with 1 show ?thesis by (simp add: duration_groups.simps [of "[]"])
  next
    case False
    then obtain v t where g: "duration_group s = Some (v, t)"
      and le: "(d + v) mod 2 ^ 64 \<le> 2 ^ 63"
      and r: "duration_groups t ((d + v) mod 2 ^ 64) = Some r"
      using "1.prems"(3) by (auto simp: duration_groups.simps [of s d] Let_def split: option.splits if_splits)
    have "0 \<le> (d + v) mod 2 ^ 64" by simp
    with "1.IH" [OF False g refl refl] le r show ?thesis by simp
  qed
qed

lemma parse_duration_range: "parse_duration s = Some d \<Longrightarrow> - (2 ^ 63) \<le> d \<and> d < 2 ^ 63"
  using wrap64_range
  by (auto simp: parse_duration_def Let_def split: if_splits option.splits
      dest!: duration_groups_bounds [of 0, simplified])

end
