(* ===== verification/GoHash.thy ===== *)
theory GoHash
  imports GoStd
begin

text \<open>
  The hash functions of Go's standard library the program uses: \<open>hash/fnv\<close>'s 32-bit FNV-1a
  (routing of series to partitions), \<open>crypto/sha256\<close> (identities of definitions and alerts)
  and \<open>encoding/hex\<close>.
\<close>

unbundle bit_operations_syntax

section \<open>FNV-1a\<close>

definition fnv1a :: "string \<Rightarrow> u32" where
  "fnv1a s = foldl (\<lambda>h c. (h XOR of_int (byte c)) * 16777619) 2166136261 s"

section \<open>SHA-256\<close>

text \<open>
  The round constants are the first 32 bits of the fractional parts of the cube roots of the
  first 64 primes, the initial state those of the square roots of the first eight; they are
  computed from that description. \<open>root_bits\<close> finds an integer root bit by bit.
\<close>

definition sha_primes :: "int list" where
  "sha_primes =
    [2, 3, 5, 7, 11, 13, 17, 19, 23, 29, 31, 37, 41, 43, 47, 53,
     59, 61, 67, 71, 73, 79, 83, 89, 97, 101, 103, 107, 109, 113, 127, 131,
     137, 139, 149, 151, 157, 163, 167, 173, 179, 181, 191, 193, 197, 199, 211, 223,
     227, 229, 233, 239, 241, 251, 257, 263, 269, 271, 277, 281, 283, 293, 307, 311]"

fun root_bits :: "nat \<Rightarrow> nat \<Rightarrow> int \<Rightarrow> int \<Rightarrow> int" where
  "root_bits k 0 x r = r"
| "root_bits k (Suc n) x r = root_bits k n x (if (r + 2 ^ n) ^ k \<le> x then r + 2 ^ n else r)"

definition root_fraction :: "nat \<Rightarrow> int \<Rightarrow> u32" where
  "root_fraction k p = of_int (root_bits k 40 (p * 2 ^ (32 * k)) 0)"

definition sha_k :: "u32 list" where
  "sha_k = map (root_fraction 3) sha_primes"

text \<open>The eight working variables.\<close>

datatype sha_state = Sha u32 u32 u32 u32 u32 u32 u32 u32

definition sha_init :: sha_state where
  "sha_init = (case map (root_fraction 2) (take 8 sha_primes) of
     [a, b, c, d, e, f, g, h] \<Rightarrow> Sha a b c d e f g h
   | _ \<Rightarrow> Sha 0 0 0 0 0 0 0 0)"

text \<open>The message schedule, newest word first, extended by \<open>n\<close> words.\<close>

fun sha_schedule :: "nat \<Rightarrow> u32 list \<Rightarrow> u32 list" where
  "sha_schedule 0 ws = ws"
| "sha_schedule (Suc n) ws =
     (let v1 = ws ! 1; v2 = ws ! 14;
          t1 = word_rotr 17 v1 XOR word_rotr 19 v1 XOR drop_bit 10 v1;
          t2 = word_rotr 7 v2 XOR word_rotr 18 v2 XOR drop_bit 3 v2
      in sha_schedule n ((t1 + ws ! 6 + t2 + ws ! 15) # ws))"

fun sha_round :: "sha_state \<Rightarrow> u32 \<times> u32 \<Rightarrow> sha_state" where
  "sha_round (Sha a b c d e f g h) (k, w) =
     (let t1 = h + (word_rotr 6 e XOR word_rotr 11 e XOR word_rotr 25 e)
                 + ((e AND f) XOR (NOT e AND g)) + k + w;
          t2 = (word_rotr 2 a XOR word_rotr 13 a XOR word_rotr 22 a)
                 + ((a AND b) XOR (a AND c) XOR (b AND c))
      in Sha (t1 + t2) a b c (d + t1) e f g)"

fun sha_add :: "sha_state \<Rightarrow> sha_state \<Rightarrow> sha_state" where
  "sha_add (Sha a b c d e f g h) (Sha a' b' c' d' e' f' g' h') =
     Sha (a + a') (b + b') (c + c') (d + d') (e + e') (f + f') (g + g') (h + h')"

definition sha_block :: "sha_state \<Rightarrow> u32 list \<Rightarrow> sha_state" where
  "sha_block st ws = sha_add st (foldl sha_round st (zip sha_k (rev (sha_schedule 48 (rev ws)))))"

fun be_words :: "int list \<Rightarrow> u32 list" where
  "be_words (a # b # c # d # r) = of_int (((a * 256 + b) * 256 + c) * 256 + d) # be_words r"
| "be_words _ = []"

definition be_bytes :: "nat \<Rightarrow> int \<Rightarrow> int list" where
  "be_bytes n x = map (\<lambda>i. (x div 256 ^ i) mod 256) (rev [0..<n])"

text \<open>Padding: 0x80, zeros up to 56 modulo 64, the length in bits in eight bytes.\<close>

definition sha_pad :: "string \<Rightarrow> int list" where
  "sha_pad m =
     (let n = length m; k = (119 - n mod 64) mod 64
      in map byte m @ [128] @ replicate k 0 @ be_bytes 8 (8 * int n))"

fun sha_blocks :: "nat \<Rightarrow> sha_state \<Rightarrow> u32 list \<Rightarrow> sha_state" where
  "sha_blocks 0 st ws = st"
| "sha_blocks (Suc n) st ws = sha_blocks n (sha_block st (take 16 ws)) (drop 16 ws)"

fun sha_out :: "sha_state \<Rightarrow> int list" where
  "sha_out (Sha a b c d e f g h) = concat (map (\<lambda>w. be_bytes 4 (uint w)) [a, b, c, d, e, f, g, h])"

text \<open>\<open>sha256.Sum256\<close>: the 32 bytes of the digest.\<close>

definition sha256 :: "string \<Rightarrow> int list" where
  "sha256 m = (let ws = be_words (sha_pad m) in sha_out (sha_blocks (length ws div 16) sha_init ws))"

lemma length_be_bytes [simp]: "length (be_bytes n x) = n"
  by (simp add: be_bytes_def)

lemma length_sha_out: "length (sha_out st) = 32"
  by (cases st) simp

lemma length_sha256 [simp]: "length (sha256 m) = 32"
  by (simp add: sha256_def Let_def length_sha_out)

text \<open>The derivation gives the last constant of the published table.\<close>

lemma sha_k_last: "last sha_k = 0xc67178f2"
  by code_simp

section \<open>encoding/hex\<close>

definition hex_digit :: "int \<Rightarrow> char" where
  "hex_digit n = ''0123456789abcdef'' ! nat (n mod 16)"

definition hex :: "int list \<Rightarrow> string" where
  "hex bs = concat (map (\<lambda>b. [hex_digit (b div 16), hex_digit b]) bs)"

lemma length_hex [simp]: "length (hex bs) = 2 * length bs"
  by (induction bs) (simp_all add: hex_def)

lemma hex_digit_in: "hex_digit n \<in> set ''0123456789abcdef''"
proof -
  have "nat (n mod 16) < 16"
    using pos_mod_bound [of 16 n] by simp
  then show ?thesis unfolding hex_digit_def by (intro nth_mem) simp
qed

lemma set_hex: "set (hex bs) \<subseteq> set ''0123456789abcdef''"
proof
  fix c assume "c \<in> set (hex bs)"
  then obtain n where "c = hex_digit n" by (auto simp: hex_def)
  then show "c \<in> set ''0123456789abcdef''" using hex_digit_in by metis
qed

end
