(* ===== verification/Model.thy ===== *)
theory Model
  imports GoHash
begin

text \<open>
  The data model of \<open>internal/model/model.go\<close>: one record or datatype per Go struct, with
  the fields in the order of the source. Pointers that may be nil are options, maps are
  \<open>\<rightharpoonup>\<close>, and a field of type \<open>json.RawMessage\<close> holds the value it encodes
  (\<open>None\<close> for the nil slice). The field \<open>Rule\<close> of a rule is the pointer of the \<open>not\<close>
  combinator.
\<close>

section \<open>Series, candles and facts\<close>

record series =
  ser_Dataset :: string
  ser_Symbol :: string
  ser_Timeframe :: string

definition series_Key :: "series \<Rightarrow> string" where
  "series_Key s = ser_Dataset s @ ''/'' @ ser_Symbol s @ ''/'' @ ser_Timeframe s"

record candle =
  cnd_OpenTime :: go_time
  cnd_Open :: f64
  cnd_High :: f64
  cnd_Low :: f64
  cnd_Close :: f64
  cnd_Volume :: f64
  cnd_Trades :: u64

record algorithm_ref =
  alg_Name :: string
  alg_Version :: string
  alg_ConfigHash :: string

record fact_reference =
  fact_Kind :: string
  fact_ID :: string
  fact_Side :: string
  fact_Name :: string
  fact_Value :: f64

record indicator =
  ind_Name :: string
  ind_Period :: int
  ind_Value :: f64
  ind_Ready :: bool

record zone_transition =
  zt_ID :: string
  zt_Kind :: string
  zt_Side :: string
  zt_Transition :: string
  zt_Upper :: f64
  zt_Lower :: f64

record zone =
  zn_ID :: string
  zn_Kind :: string
  zn_Side :: string
  zn_State :: string
  zn_Upper :: f64
  zn_Lower :: f64

record pattern =
  pat_Kind :: string
  pat_Side :: string

section \<open>Observations\<close>

record observation =
  obs_Schema :: string
  obs_SourceEventID :: string
  obs_CorrelationID :: string
  obs_OccurredAt :: go_time
  obs_Status :: string
  obs_Revision :: u64
  obs_Reset :: bool
  obs_History :: "candle list"
  obs_Series :: series
  obs_Candle :: candle
  obs_Indicators :: "indicator list"
  obs_ActiveZones :: "zone list"
  obs_ZoneTransitions :: "zone_transition list"
  obs_Patterns :: "pattern list"
  obs_FeatureAlgorithm :: algorithm_ref

section \<open>Rules, definitions and alerts\<close>

datatype rule = Rule
  (r_Type: string)
  (r_Rules: "rule list")
  (r_Rule: "rule option")
  (r_Kind: string)
  (r_Side: string)
  (r_Transition: string)
  (r_Name: string)
  (r_Period: int)
  (r_Direction: string)
  (r_Count: int)
  (r_DistanceBps: f64)
  (r_MinElapsedPercent: f64)

record alert_definition =
  dfn_ID :: string
  dfn_Version :: int
  dfn_DefinitionHash :: string
  dfn_Name :: string
  dfn_Enabled :: bool
  dfn_Series :: series
  dfn_Rule :: rule
  dfn_EvaluationMode :: string
  dfn_TriggerMode :: string
  dfn_CooldownSeconds :: int
  dfn_CreatedAt :: go_time
  dfn_UpdatedAt :: go_time
  dfn_EffectiveAt :: go_time

record alert =
  alr_Schema :: string
  alr_ID :: string
  alr_DefinitionID :: string
  alr_DefinitionVersion :: int
  alr_DefinitionHash :: string
  alr_DefinitionName :: string
  alr_SourceEventID :: string
  alr_SourceCandleID :: string
  alr_Series :: series
  alr_TriggeredAt :: go_time
  alr_EvaluatedAt :: go_time
  alr_Reasons :: "string list"
  alr_FactsUsed :: "fact_reference list"
  alr_FeatureAlgorithm :: algorithm_ref
  alr_SourceRevision :: u64
  alr_SourceStatus :: string
  alr_Observation :: "observation option"
  alr_PublishStatus :: string
  alr_Cursor :: int

section \<open>Evaluation state\<close>

record feature_state =
  fs_LastClose :: "f64 option"
  fs_Indicators :: "(string \<rightharpoonup> f64) option"
  fs_Candles :: "candle list"
  fs_CandleColors :: "string list"
  fs_FormingBar :: go_time
  fs_FormingColor :: string

record series_evaluation_state =
  ss_LastOpenTime :: go_time
  ss_LastRevision :: u64
  ss_LastStatus :: string
  ss_LastResetID :: string
  ss_LastResetAt :: go_time
  ss_Confirmed :: feature_state
  ss_Intrabar :: feature_state
  ss_ActiveZones :: "zone list"

record definition_evaluation_state =
  ds_LastTruthConfirmed :: bool
  ds_LastTruthIntrabar :: bool
  ds_LastTriggerAt :: go_time
  ds_LastAlertBar :: go_time

text \<open>The state of the older evaluation path, one per definition and series.\<close>

record evaluation_state =
  es_LastTruth :: bool
  es_LastTriggerAt :: go_time
  es_LastClose :: "f64 option"
  es_Indicators :: "(string \<rightharpoonup> f64) option"
  es_CandleColors :: "string list"
  es_LastOpenTime :: go_time
  es_LastRevision :: u64
  es_LastStatus :: string
  es_LastAlertBar :: go_time
  es_FormingBar :: go_time
  es_FormingColor :: string

section \<open>Zero values\<close>

definition zero_feature :: feature_state where
  "zero_feature = \<lparr>fs_LastClose = None, fs_Indicators = None, fs_Candles = [], fs_CandleColors = [],
     fs_FormingBar = 0, fs_FormingColor = ''''\<rparr>"

definition zero_series_state :: series_evaluation_state where
  "zero_series_state = \<lparr>ss_LastOpenTime = 0, ss_LastRevision = 0, ss_LastStatus = '''',
     ss_LastResetID = '''', ss_LastResetAt = 0, ss_Confirmed = zero_feature,
     ss_Intrabar = zero_feature, ss_ActiveZones = []\<rparr>"

definition zero_definition_state :: definition_evaluation_state where
  "zero_definition_state = \<lparr>ds_LastTruthConfirmed = False, ds_LastTruthIntrabar = False,
     ds_LastTriggerAt = 0, ds_LastAlertBar = 0\<rparr>"

definition zero_evaluation_state :: evaluation_state where
  "zero_evaluation_state = \<lparr>es_LastTruth = False, es_LastTriggerAt = 0, es_LastClose = None,
     es_Indicators = None, es_CandleColors = [], es_LastOpenTime = 0, es_LastRevision = 0,
     es_LastStatus = '''', es_LastAlertBar = 0, es_FormingBar = 0, es_FormingColor = ''''\<rparr>"

definition zero_series :: series where
  "zero_series = \<lparr>ser_Dataset = '''', ser_Symbol = '''', ser_Timeframe = ''''\<rparr>"

definition zero_algorithm :: algorithm_ref where
  "zero_algorithm = \<lparr>alg_Name = '''', alg_Version = '''', alg_ConfigHash = ''''\<rparr>"

definition zero_candle :: candle where
  "zero_candle = \<lparr>cnd_OpenTime = 0, cnd_Open = f_zero, cnd_High = f_zero, cnd_Low = f_zero,
     cnd_Close = f_zero, cnd_Volume = f_zero, cnd_Trades = 0\<rparr>"

definition zero_observation :: observation where
  "zero_observation = \<lparr>obs_Schema = '''', obs_SourceEventID = '''', obs_CorrelationID = '''',
     obs_OccurredAt = 0, obs_Status = '''', obs_Revision = 0, obs_Reset = False, obs_History = [],
     obs_Series = zero_series, obs_Candle = zero_candle, obs_Indicators = [], obs_ActiveZones = [],
     obs_ZoneTransitions = [], obs_Patterns = [], obs_FeatureAlgorithm = zero_algorithm\<rparr>"

definition zero_rule :: rule where
  "zero_rule = Rule '''' [] None '''' '''' '''' '''' 0 '''' 0 f_zero f_zero"

lemmas zero_defs = zero_feature_def zero_series_state_def zero_definition_state_def
  zero_evaluation_state_def zero_series_def zero_algorithm_def zero_candle_def
  zero_observation_def zero_rule_def

section \<open>json.Marshal of an observation\<close>

text \<open>
  \<open>json.Marshal\<close> fails on a float that is not finite and on an instant whose year is
  outside 0 to 9999; it succeeds on every other observation. An \<open>omitempty\<close> float is
  still encoded when it is NaN or infinite, so every float field counts.
\<close>

definition json_time_ok :: "go_time \<Rightarrow> bool" where
  "json_time_ok t \<longleftrightarrow> - (366 * 24 * hour) \<le> t \<and> t < 3652059 * 24 * hour"

definition json_candle_ok :: "candle \<Rightarrow> bool" where
  "json_candle_ok c \<longleftrightarrow> json_time_ok (cnd_OpenTime c) \<and> f_finite (cnd_Open c) \<and> f_finite (cnd_High c)
     \<and> f_finite (cnd_Low c) \<and> f_finite (cnd_Close c) \<and> f_finite (cnd_Volume c)"

definition marshal_observation :: "observation \<Rightarrow> observation option" where
  "marshal_observation o' =
     (if json_time_ok (obs_OccurredAt o') \<and> list_all json_candle_ok (obs_History o')
         \<and> json_candle_ok (obs_Candle o')
         \<and> list_all (\<lambda>i. f_finite (ind_Value i)) (obs_Indicators o')
         \<and> list_all (\<lambda>z. f_finite (zn_Upper z) \<and> f_finite (zn_Lower z)) (obs_ActiveZones o')
         \<and> list_all (\<lambda>z. f_finite (zt_Upper z) \<and> f_finite (zt_Lower z)) (obs_ZoneTransitions o')
      then Some o' else None)"

text \<open>Whether \<open>json.Marshal\<close> accepts an alert: its times are in range and its facts finite.\<close>

definition alert_marshals :: "alert \<Rightarrow> bool" where
  "alert_marshals a \<longleftrightarrow> json_time_ok (alr_TriggeredAt a) \<and> json_time_ok (alr_EvaluatedAt a) \<and>
     list_all (\<lambda>f. f_finite (fact_Value f)) (alr_FactsUsed a)"

section \<open>The rule tree\<close>

text \<open>Children of a rule are smaller: the recursions over rules terminate.\<close>

lemma rule_children_size [simp]: "c \<in> set (r_Rules r) \<Longrightarrow> size c < size r"
  by (cases r) (auto dest: size_list_estimation' [of _ _ "size _" size, OF _ order_refl] simp: less_Suc_eq_le trans_le_add1)

lemma rule_child_size [simp]: "r_Rule r = Some c \<Longrightarrow> size c < size r"
  by (cases r) auto

end
