(* ===== verification/Cursor.thy ===== *)
theory Cursor
  imports Model "HOL-Library.Product_Lexorder"
begin

text \<open>
  The staleness contract shared by the two evaluation paths of the program
  (\<open>internal/runtime/engine.go\<close> and \<open>internal/store/evaluate.go\<close>): a state carries the
  stamp of the last observation it accepted, an observation at or below that stamp is
  stale and changes nothing, and any other one moves the stamp to its own. Stamps are
  ordered by bar, then revision, then status rank.
\<close>

type_synonym stamp = "go_time \<times> u64 \<times> int"

definition statusRank :: "string \<Rightarrow> int" where
  "statusRank status = (if status = ''confirmed'' then 2 else 1)"

definition obs_stamp :: "observation \<Rightarrow> stamp" where
  "obs_stamp obs = (cnd_OpenTime (obs_Candle obs), obs_Revision obs, statusRank (obs_Status obs))"

locale revision_cursor =
  fixes stale :: "observation \<Rightarrow> 's \<Rightarrow> bool"
    and step :: "observation \<Rightarrow> 's \<Rightarrow> 's"
    and cursor :: "'s \<Rightarrow> stamp"
  assumes stale_iff: "stale obs s \<longleftrightarrow> fst (cursor s) \<noteq> 0 \<and> obs_stamp obs \<le> cursor s"
    and step_cursor: "\<not> stale obs s \<Longrightarrow> cursor (step obs s) = obs_stamp obs"
    and step_stale: "stale obs s \<Longrightarrow> step obs s = s"
begin

definition run :: "observation list \<Rightarrow> 's \<Rightarrow> 's" where
  "run os s = foldl (\<lambda>s obs. step obs s) s os"

text \<open>Accepting an observation strictly advances a cursor that is set.\<close>

lemma step_increases: "\<not> stale obs s \<Longrightarrow> fst (cursor s) \<noteq> 0 \<Longrightarrow> cursor s < cursor (step obs s)"
  using step_cursor [of obs s] stale_iff [of obs s] by auto

lemma step_mono: "fst (cursor s) \<noteq> 0 \<Longrightarrow> cursor s \<le> cursor (step obs s)"
  using step_increases [of obs s] step_stale [of obs s] by (cases "stale obs s") auto

lemma step_set: "cnd_OpenTime (obs_Candle obs) \<noteq> 0 \<Longrightarrow> fst (cursor (step obs s)) \<noteq> 0"
  using step_cursor [of obs s] step_stale [of obs s] stale_iff [of obs s]
  by (cases "stale obs s") (auto simp: obs_stamp_def)

lemma replay_stale: "cnd_OpenTime (obs_Candle obs) \<noteq> 0 \<Longrightarrow> stale obs (step obs s)"
  using step_cursor [of obs s] step_stale [of obs s] stale_iff
  by (cases "stale obs s") (auto simp: obs_stamp_def)

lemma stale_persists: "stale obs s \<Longrightarrow> cnd_OpenTime (obs_Candle obs') \<noteq> 0 \<Longrightarrow> stale obs (step obs' s)"
proof -
  assume st: "stale obs s" and nz: "cnd_OpenTime (obs_Candle obs') \<noteq> 0"
  have "obs_stamp obs \<le> cursor s" and "cursor s \<le> cursor (step obs' s)"
    using st step_mono [of s obs'] by (simp_all add: stale_iff)
  then have "obs_stamp obs \<le> cursor (step obs' s)" by (rule order_trans)
  then show ?thesis using step_set [OF nz, of s] by (simp add: stale_iff)
qed

lemma run_stale_persists:
  "stale obs s \<Longrightarrow> \<forall>o' \<in> set os. cnd_OpenTime (obs_Candle o') \<noteq> 0 \<Longrightarrow> stale obs (run os s)"
  unfolding run_def by (induction os arbitrary: s) (auto intro: stale_persists)

text \<open>After a run, every observation of the run is stale: a redelivered batch changes nothing.\<close>

lemma run_replay_stale:
  "\<forall>o' \<in> set os. cnd_OpenTime (obs_Candle o') \<noteq> 0 \<Longrightarrow> obs \<in> set os \<Longrightarrow> stale obs (run os s)"
proof (induction os arbitrary: s)
  case Nil
  then show ?case by simp
next
  case (Cons a os)
  show ?case
  proof (cases "obs \<in> set os")
    case True
    with Cons show ?thesis by (simp add: run_def)
  next
    case False
    with Cons.prems have "stale obs (step a s)" by (auto intro: replay_stale)
    then have "stale obs (run os (step a s))" using Cons.prems by (intro run_stale_persists) auto
    then show ?thesis by (simp add: run_def)
  qed
qed

lemma run_replay: "\<forall>o' \<in> set os. cnd_OpenTime (obs_Candle o') \<noteq> 0 \<Longrightarrow> run os (run os s) = run os s"
proof -
  assume nz: "\<forall>o' \<in> set os. cnd_OpenTime (obs_Candle o') \<noteq> 0"
  have "run xs (run os s) = run os s" if "set xs \<subseteq> set os" for xs
    using that by (induction xs) (auto simp: run_def step_stale [OF run_replay_stale [OF nz], unfolded run_def])
  then show ?thesis by simp
qed

end

end
