(* ===== verification/Store.thy ===== *)
theory Store
  imports Cursor
begin

text \<open>
  \<open>internal/store/store.go\<close>: the values exchanged with a repository, the composed keys of
  the runtime tables and, as locales, the contracts the rest of the program relies on.
\<close>

datatype store_error =
    ErrNotFound
  | ErrNoRows                 \<comment> \<open>\<open>pgx.ErrNoRows\<close>\<close>
  | StoreFailure string

record operational_stats =
  ost_PendingOutbox :: int
  ost_OldestOutboxAge :: duration

record retention_policy =
  rp_ProvisionalInbox :: duration
  rp_ConfirmedInbox :: duration
  rp_AlertEvents :: duration
  rp_BatchSize :: int

record maintenance_result =
  mr_InboxDeleted :: int
  mr_AlertsDeleted :: int

record runtime_snapshot =
  snap_Series :: "string \<rightharpoonup> series_evaluation_state"
  snap_Definitions :: "string \<rightharpoonup> definition_evaluation_state"

record runtime_batch =
  rb_PartitionID :: int
  rb_Observations :: "observation list"
  rb_SeriesStates :: "string \<rightharpoonup> series_evaluation_state"
  rb_DefinitionStates :: "string \<rightharpoonup> definition_evaluation_state"
  rb_ResetSeriesKeys :: "string list"
  rb_Alerts :: "alert list"

section \<open>Keys\<close>

definition DefinitionStateKey :: "string \<Rightarrow> string \<Rightarrow> string" where
  "DefinitionStateKey definitionID seriesKey = definitionID @ ''|'' @ seriesKey"

text \<open>The loop of the engine's \<open>definitionSeriesKey\<close>.\<close>

fun after_bar :: "string \<Rightarrow> string option" where
  "after_bar [] = None"
| "after_bar (c # cs) = (if c = CHR ''|'' then Some cs else after_bar cs)"

definition definitionSeriesKey :: "string \<Rightarrow> string" where
  "definitionSeriesKey key = (case after_bar key of None \<Rightarrow> key | Some r \<Rightarrow> r)"

text \<open>The store's \<open>definitionSeriesKey\<close>, written with \<open>strings.Cut\<close>.\<close>

definition store_definitionSeriesKey :: "string \<Rightarrow> string" where
  "store_definitionSeriesKey key = (case cut CHR ''|'' key of None \<Rightarrow> key | Some (_, seriesKey) \<Rightarrow> seriesKey)"

lemma after_bar_cut: "after_bar s = map_option snd (cut CHR ''|'' s)"
  by (induction s) (auto split: option.splits)

text \<open>Both spellings of the key splitter are the same function.\<close>

lemma definitionSeriesKey_store: "store_definitionSeriesKey = definitionSeriesKey"
  by (auto simp: fun_eq_iff store_definitionSeriesKey_def definitionSeriesKey_def after_bar_cut split: option.splits)

lemma definitionSeriesKey_key [key_simps]:
  "CHR ''|'' \<notin> set ident \<Longrightarrow> definitionSeriesKey (DefinitionStateKey ident k) = k"
  using cut_append [of "CHR ''|''" ident k]
  by (simp add: definitionSeriesKey_def DefinitionStateKey_def after_bar_cut)

lemma DefinitionStateKey_inj [key_simps]:
  "CHR ''|'' \<notin> set i \<Longrightarrow> CHR ''|'' \<notin> set j \<Longrightarrow>
   DefinitionStateKey i k = DefinitionStateKey j l \<longleftrightarrow> i = j \<and> k = l"
  unfolding DefinitionStateKey_def append_Cons append_Nil by (metis cut_append option.inject prod.inject)

section \<open>Identities\<close>

text \<open>Sixteen bytes in the 8-4-4-4-12 layout of a UUID.\<close>

definition uuid_layout :: "string \<Rightarrow> string" where
  "uuid_layout h = take 8 h @ ''-'' @ take 4 (drop 8 h) @ ''-'' @ take 4 (drop 12 h) @ ''-''
     @ take 4 (drop 16 h) @ ''-'' @ take 12 (drop 20 h)"

definition deterministicID :: "string list \<Rightarrow> string" where
  "deterministicID parts =
     uuid_layout (hex (take 16 (sha256 (concat (map (\<lambda>p. p @ [CHR 0x00]) parts)))))"

lemma uuid_layout_chars: "set (uuid_layout h) \<subseteq> insert CHR ''-'' (set h)"
  by (auto simp: uuid_layout_def dest: in_set_takeD in_set_dropD)

lemma length_uuid_layout: "length h = 32 \<Longrightarrow> length (uuid_layout h) = 36"
  by (simp add: uuid_layout_def)

lemma uuid_no_bar: "CHR ''|'' \<notin> set (uuid_layout (hex bs))"
  using uuid_layout_chars [of "hex bs"] set_hex [of bs] by auto

lemma uuid_no_slash: "CHR ''/'' \<notin> set (uuid_layout (hex bs))"
  using uuid_layout_chars [of "hex bs"] set_hex [of bs] by auto

lemma deterministicID_shape:
  "length (deterministicID parts) = 36 \<and> CHR ''|'' \<notin> set (deterministicID parts)"
  by (simp add: deterministicID_def length_uuid_layout uuid_no_bar)

section \<open>Modes\<close>

definition acceptsMode :: "string \<Rightarrow> string \<Rightarrow> bool" where
  "acceptsMode mode status =
     (if mode = ''confirmed_close'' then status = ''confirmed''
      else if mode = ''intrabar'' then status = ''provisional''
      else status = ''confirmed'' \<or> status = ''provisional'')"

section \<open>Contracts\<close>

text \<open>
  The checkpoint contract: what a load returns after a commit. A commit that fails leaves
  the checkpoint as it was; one that succeeds overwrites the touched series, drops every
  definition state of a reset series and then overwrites the touched definition states.
  \<open>stored\<close> is what the medium keeps of a series state, \<open>ok\<close> an invariant of the repository and
  \<open>owned\<close> the partitions whose commits the load sees.
\<close>

definition checkpointed :: "runtime_batch \<Rightarrow> runtime_snapshot \<Rightarrow> runtime_snapshot" where
  "checkpointed b snap =
     \<lparr>snap_Series = snap_Series snap ++ rb_SeriesStates b,
      snap_Definitions =
        delete_keys (\<lambda>k. definitionSeriesKey k \<in> set (rb_ResetSeriesKeys b)) (snap_Definitions snap)
          ++ rb_DefinitionStates b\<rparr>"

definition stored_batch :: "(series_evaluation_state \<Rightarrow> series_evaluation_state) \<Rightarrow> runtime_batch \<Rightarrow> runtime_batch" where
  "stored_batch stored b = b\<lparr>rb_SeriesStates := (\<lambda>k. map_option stored (rb_SeriesStates b k))\<rparr>"

locale checkpoint_store =
  fixes commit :: "runtime_batch \<Rightarrow> 'r \<Rightarrow> (store_error + alert list) \<times> 'r"
    and load :: "'r \<Rightarrow> runtime_snapshot"
    and stored :: "series_evaluation_state \<Rightarrow> series_evaluation_state"
    and ok :: "'r \<Rightarrow> bool"
    and owned :: "int set"
  assumes commit_ok: "ok r \<Longrightarrow> rb_PartitionID b \<in> owned \<Longrightarrow> commit b r = (Inr created, r') \<Longrightarrow>
      load r' = checkpointed (stored_batch stored b) (load r) \<and> ok r'"
    and commit_failed: "ok r \<Longrightarrow> commit b r = (Inl e, r') \<Longrightarrow> load r' = load r \<and> ok r'"

text \<open>
  The lease contract: \<open>holds r owner p\<close> when the store records \<open>owner\<close> as holder of partition
  \<open>p\<close> and the lease is live. An acquisition gives all requested partitions or changes none;
  it never takes a partition another owner holds.
\<close>

locale lease_store =
  fixes acquire :: "string \<Rightarrow> int list \<Rightarrow> 'r \<Rightarrow> bool \<times> 'r"
    and release :: "string \<Rightarrow> 'r \<Rightarrow> 'r"
    and holds :: "'r \<Rightarrow> string \<Rightarrow> int \<Rightarrow> bool"
  assumes exclusive: "holds r a p \<Longrightarrow> holds r b p \<Longrightarrow> a = b"
    and acquire_refused: "acquire a ps r = (False, r') \<Longrightarrow> r' = r"
    and acquire_holds: "a \<noteq> '''' \<Longrightarrow> acquire a ps r = (True, r') \<Longrightarrow> p \<in> set ps \<Longrightarrow> holds r' a p"
    and acquire_respects: "acquire a ps r = (True, r') \<Longrightarrow> p \<in> set ps \<Longrightarrow> holds r b p \<Longrightarrow> b = a"
    and acquire_frame: "acquire a ps r = (True, r') \<Longrightarrow> p \<notin> set ps \<Longrightarrow> holds r' b p = holds r b p"
    and release_drops: "\<not> holds (release a r) a p"
    and release_frame: "b \<noteq> a \<Longrightarrow> holds (release a r) b p = holds r b p"
begin

text \<open>A worker that holds a partition keeps every other worker from acquiring it.\<close>

lemma acquire_excluded:
  assumes "holds r b p" and "p \<in> set ps" and "a \<noteq> b"
  shows "acquire a ps r = (False, r)"
proof (cases "acquire a ps r")
  case (Pair ok r')
  with assms acquire_respects [of a ps r r' p b] acquire_refused [of a ps r r'] show ?thesis
    by (cases ok) auto
qed

text \<open>Another worker's acquisition never takes away a lease that is held.\<close>

lemma acquire_keeps: "acquire a ps r = (ok, r') \<Longrightarrow> holds r b p \<Longrightarrow> b \<noteq> a \<Longrightarrow> holds r' b p"
  using acquire_refused [of a ps r r'] acquire_respects [of a ps r r' p b] acquire_frame [of a ps r r' p b]
  by (cases ok; cases "p \<in> set ps") auto

end

section \<open>The repository interface\<close>

text \<open>
  The Go interface \<open>Repository\<close> as a record of its methods over a repository state \<open>'r\<close>.
  Methods that read the clock take \<open>now\<close>. \<open>Close\<close> has no effect on the data and is left out.
\<close>

record 'r repository =
  repo_Ping :: "'r \<Rightarrow> bool"
  repo_CreateDefinition :: "alert_definition \<Rightarrow> 'r \<Rightarrow> (store_error + alert_definition \<times> bool) \<times> 'r"
  repo_ListDefinitions :: "go_time \<Rightarrow> 'r \<Rightarrow> store_error + alert_definition list"
  repo_SetEnabled :: "go_time \<Rightarrow> string \<Rightarrow> bool \<Rightarrow> go_time \<Rightarrow> 'r \<Rightarrow> (store_error + alert_definition) \<times> 'r"
  repo_ArchiveDefinition :: "go_time \<Rightarrow> string \<Rightarrow> go_time \<Rightarrow> 'r \<Rightarrow> store_error option \<times> 'r"
  repo_ApplyObservation :: "go_time \<Rightarrow> observation \<Rightarrow> 'r \<Rightarrow> ((store_error + alert list) \<times> 'r) option"
  repo_LoadRuntimeStates :: "int list \<Rightarrow> 'r \<Rightarrow> store_error + runtime_snapshot"
  repo_CommitRuntimeBatch :: "runtime_batch \<Rightarrow> 'r \<Rightarrow> (store_error + alert list) \<times> 'r"
  repo_ListAlerts :: "int \<Rightarrow> int \<Rightarrow> 'r \<Rightarrow> store_error + alert list"
  repo_ClaimPending :: "int \<Rightarrow> 'r \<Rightarrow> (store_error + alert list) \<times> 'r"
  repo_MarkPublished :: "string \<Rightarrow> 'r \<Rightarrow> store_error option \<times> 'r"
  repo_MarkPublishFailed :: "string \<Rightarrow> string \<Rightarrow> 'r \<Rightarrow> store_error option \<times> 'r"
  repo_Maintain :: "retention_policy \<Rightarrow> 'r \<Rightarrow> (store_error + maintenance_result) \<times> 'r"
  repo_AcquirePartitions :: "string \<Rightarrow> int list \<Rightarrow> duration \<Rightarrow> 'r \<Rightarrow> (store_error + bool) \<times> 'r"
  repo_RenewPartitions :: "string \<Rightarrow> int list \<Rightarrow> duration \<Rightarrow> 'r \<Rightarrow> (store_error + bool) \<times> 'r"
  repo_ReleasePartitions :: "string \<Rightarrow> 'r \<Rightarrow> store_error option \<times> 'r"
  repo_OperationalStats :: "'r \<Rightarrow> store_error + operational_stats"

end
