(* ===== verification/Rules.thy ===== *)
theory Rules
  imports Model
begin

text \<open>
  The rule language of \<open>internal/rules/evaluator.go\<close>: validation and compilation of rules,
  their evaluation against an observation and the shared feature state, and the advance of
  that state. A Go panic (a nil pointer under \<open>not\<close>, a slice bound out of range in
  \<open>candle_streak\<close>) is the value \<open>None\<close> of \<open>evaluate\<close>.

  The lemmas show that validation rules the panics out, that evaluation is the
  three-valued composition its combinators name, that the dependency mask covers what
  a rule reads, and that the bounded histories \<open>Advance\<close> keeps lose nothing a valid rule
  can ask for.
\<close>

unbundle bit_operations_syntax

section \<open>Validation\<close>

datatype rule_error =
    NestingExceeds
  | ChildCount string
  | NotRequiresRule
  | ZoneKind string
  | TransitionRequired
  | UnsupportedTransition
  | NearZoneKind
  | DistanceRange
  | IndicatorRequired
  | CrossDirection
  | ColorDirection
  | StreakDirection
  | StreakCount
  | FlipDirection
  | MinElapsedRange
  | PatternKindRequired
  | UnsupportedType string

definition maxDepth :: int where
  "maxDepth = 8"

function validate :: "rule \<Rightarrow> int \<Rightarrow> rule_error option" where
  "validate r depth =
    (if depth > maxDepth then Some NestingExceeds
     else if r_Type r = ''all'' \<or> r_Type r = ''any'' then
       (if length (r_Rules r) < 2 \<or> length (r_Rules r) > 20 then Some (ChildCount (r_Type r))
        else first_some (\<lambda>c. validate c (depth + 1)) (r_Rules r))
     else if r_Type r = ''not'' then
       (case r_Rule r of None \<Rightarrow> Some NotRequiresRule | Some c \<Rightarrow> validate c (depth + 1))
     else if r_Type r = ''price_hits_zone'' \<or> r_Type r = ''zone_transition'' then
       (if r_Kind r \<noteq> ''fvg'' \<and> r_Kind r \<noteq> ''order_block'' then Some (ZoneKind (r_Type r))
        else if r_Type r = ''zone_transition'' \<and> r_Transition r = '''' then Some TransitionRequired
        else if r_Transition r \<noteq> '''' \<and> r_Transition r \<noteq> ''created'' \<and> r_Transition r \<noteq> ''touched''
            \<and> r_Transition r \<noteq> ''mitigated'' \<and> r_Transition r \<noteq> ''invalidated'' \<and> r_Transition r \<noteq> ''expired''
          then Some UnsupportedTransition
        else None)
     else if r_Type r = ''price_near_zone'' then
       (if r_Kind r \<noteq> ''fvg'' \<and> r_Kind r \<noteq> ''order_block'' then Some NearZoneKind
        else if f_le (r_DistanceBps r) f_zero \<or> f_lt (f_of_int 10000) (r_DistanceBps r) then Some DistanceRange
        else None)
     else if r_Type r = ''price_crosses_indicator'' then
       (if r_Name r = '''' \<or> r_Period r < 1 then Some IndicatorRequired
        else if r_Direction r \<noteq> ''above'' \<and> r_Direction r \<noteq> ''below'' \<and> r_Direction r \<noteq> ''either''
          then Some CrossDirection
        else None)
     else if r_Type r = ''candle_color'' then
       (if r_Direction r \<noteq> ''red'' \<and> r_Direction r \<noteq> ''green'' then Some ColorDirection else None)
     else if r_Type r = ''candle_streak'' then
       (if r_Direction r \<noteq> ''red'' \<and> r_Direction r \<noteq> ''green'' then Some StreakDirection
        else if r_Count r < 2 \<or> r_Count r > 100 then Some StreakCount
        else None)
     else if r_Type r = ''candle_color_flip'' then
       (if r_Direction r \<noteq> ''either'' \<and> r_Direction r \<noteq> ''red_to_green'' \<and> r_Direction r \<noteq> ''green_to_red''
          then Some FlipDirection
        else if f_le (r_MinElapsedPercent r) f_zero \<or> f_lt (f_of_int 100) (r_MinElapsedPercent r)
          then Some MinElapsedRange
        else None)
     else if r_Type r = ''pattern'' then
       (if blank (r_Kind r) then Some PatternKindRequired else None)
     else Some (UnsupportedType (r_Type r)))"
  by pat_completeness auto
termination
  by (relation "measure (size \<circ> fst)") auto

declare validate.simps [simp del]

definition Validate :: "rule \<Rightarrow> rule_error option" where
  "Validate r = validate r 0"

function RequiresIntrabar :: "rule \<Rightarrow> bool" where
  "RequiresIntrabar r =
    (if r_Type r = ''candle_color_flip'' then True
     else case (if r_Type r = ''not'' then r_Rule r else None) of
       Some c \<Rightarrow> RequiresIntrabar c
     | None \<Rightarrow> list_ex RequiresIntrabar (r_Rules r))"
  by pat_completeness auto
termination
  by (relation "measure size") (auto split: if_splits)

declare RequiresIntrabar.simps [simp del]

section \<open>Compilation and dependency masks\<close>

type_synonym dependency = u64

definition DependencyCandle :: dependency where "DependencyCandle = 1"
definition DependencyIndicator :: dependency where "DependencyIndicator = 2"
definition DependencyZone :: dependency where "DependencyZone = 4"
definition DependencyPattern :: dependency where "DependencyPattern = 8"
definition DependencyHistory :: dependency where "DependencyHistory = 16"

lemmas dependency_defs = DependencyCandle_def DependencyIndicator_def DependencyZone_def
  DependencyPattern_def DependencyHistory_def

function dependencies :: "rule \<Rightarrow> dependency" where
  "dependencies r =
    (if r_Type r = ''candle_color'' \<or> r_Type r = ''candle_color_flip'' then DependencyCandle
     else if r_Type r = ''candle_streak'' then DependencyCandle OR DependencyHistory
     else if r_Type r = ''price_crosses_indicator''
       then DependencyCandle OR DependencyIndicator OR DependencyHistory
     else if r_Type r = ''price_hits_zone'' \<or> r_Type r = ''zone_transition'' then DependencyZone
     else if r_Type r = ''price_near_zone'' then DependencyCandle OR DependencyZone
     else if r_Type r = ''pattern'' then DependencyPattern
     else if r_Type r = ''not'' then (case r_Rule r of None \<Rightarrow> 0 | Some c \<Rightarrow> dependencies c)
     else foldl (OR) 0 (map dependencies (r_Rules r)))"
  by pat_completeness auto
termination
  by (relation "measure size") auto

declare dependencies.simps [simp del]

record compiled =
  cmp_Rule :: rule
  cmp_Dependencies :: dependency

definition Compile :: "rule \<Rightarrow> rule_error + compiled" where
  "Compile r = (case Validate r of
      Some e \<Rightarrow> Inl e
    | None \<Rightarrow> Inr \<lparr>cmp_Rule = r, cmp_Dependencies = dependencies r\<rparr>)"

text \<open>\<open>Pulse\<close>: truth is an occurrence on this observation rather than a level.\<close>

function Pulse :: "rule \<Rightarrow> bool" where
  "Pulse r =
    (if r_Type r = ''price_hits_zone'' \<or> r_Type r = ''zone_transition'' \<or>
        r_Type r = ''price_crosses_indicator'' \<or> r_Type r = ''pattern'' \<or> r_Type r = ''candle_color_flip''
       then True
     else if r_Type r = ''all'' \<or> r_Type r = ''any'' then list_ex Pulse (r_Rules r)
     else False)"
  by pat_completeness auto
termination
  by (relation "measure size") auto

declare Pulse.simps [simp del]

section \<open>Timeframes, colours and indicator keys\<close>

definition indicatorKey :: "string \<Rightarrow> int \<Rightarrow> string" where
  "indicatorKey name period = name @ '':'' @ itoa period"

definition candleColor :: "candle \<Rightarrow> string" where
  "candleColor c =
    (if f_lt (cnd_Close c) (cnd_Open c) then ''red''
     else if f_lt (cnd_Open c) (cnd_Close c) then ''green''
     else ''doji'')"

definition timeframeDuration :: "string \<Rightarrow> duration option" where
  "timeframeDuration value =
    (if length value > 1 \<and> (has_suffix value ''d'' \<or> has_suffix value ''w'') then
       (case atoi (take (length value - 1) value) of
          None \<Rightarrow> None
        | Some quantity \<Rightarrow>
           if quantity \<le> 0 then None
           else let unit = (if has_suffix value ''w'' then 24 * hour * 7 else 24 * hour)
                in Some (duration_mul quantity unit))
     else case parse_duration value of
          None \<Rightarrow> None
        | Some d \<Rightarrow> if d \<le> 0 then None else Some d)"

section \<open>Evaluation\<close>

record eval_result =
  res_matched :: bool
  res_known :: bool
  res_reasons :: "string list"
  res_facts :: "fact_reference list"

definition no_match :: "bool \<Rightarrow> eval_result" where
  "no_match known = \<lparr>res_matched = False, res_known = known, res_reasons = [], res_facts = []\<rparr>"

definition zone_fact :: "string \<Rightarrow> string \<Rightarrow> string \<Rightarrow> f64 \<Rightarrow> f64 \<Rightarrow> fact_reference" where
  "zone_fact kind ident side upper lower =
     \<lparr>fact_Kind = kind, fact_ID = ident, fact_Side = side, fact_Name = '''',
      fact_Value = f_div (f_add upper lower) (f_of_int 2)\<rparr>"

text \<open>The loops of the combinators over the results of their children, in order.\<close>

fun eval_all :: "eval_result option list \<Rightarrow> eval_result \<Rightarrow> eval_result option" where
  "eval_all [] out = Some out"
| "eval_all (None # rs) out = None"
| "eval_all (Some r # rs) out =
     eval_all rs
       \<lparr>res_matched = res_matched out \<and> res_matched r,
        res_known = res_known out \<and> res_known r,
        res_reasons = (if res_matched r then res_reasons out @ res_reasons r else res_reasons out),
        res_facts = (if res_matched r then res_facts out @ res_facts r else res_facts out)\<rparr>"

fun eval_any :: "eval_result option list \<Rightarrow> eval_result \<Rightarrow> eval_result option" where
  "eval_any [] out = Some out"
| "eval_any (None # rs) out = None"
| "eval_any (Some r # rs) out =
     eval_any rs
       \<lparr>res_matched = res_matched out \<or> (res_known r \<and> res_matched r),
        res_known = res_known out \<or> res_known r,
        res_reasons = (if res_matched r then res_reasons out @ res_reasons r else res_reasons out),
        res_facts = (if res_matched r then res_facts out @ res_facts r else res_facts out)\<rparr>"

definition eval_not :: "eval_result \<Rightarrow> eval_result" where
  "eval_not r = r\<lparr>res_matched := \<not> res_matched r,
                  res_facts := (if \<not> res_matched r then [] else res_facts r)\<rparr>"

definition eval_zone :: "rule \<Rightarrow> observation \<Rightarrow> eval_result" where
  "eval_zone r obs =
    (let transition = (if r_Transition r = '''' \<and> r_Type r = ''price_hits_zone'' then ''touched''
                       else r_Transition r)
     in case find (\<lambda>z. zt_Kind z = r_Kind r \<and> zt_Transition z = transition
                      \<and> (r_Side r = '''' \<or> zt_Side z = r_Side r)) (obs_ZoneTransitions obs) of
          None \<Rightarrow> no_match True
        | Some z \<Rightarrow>
           \<lparr>res_matched = True, res_known = True,
            res_reasons = [''zone '' @ transition @ '' '' @ zt_Side z @ '' '' @ zt_Kind z],
            res_facts = [zone_fact (zt_Kind z) (zt_ID z) (zt_Side z) (zt_Upper z) (zt_Lower z)]\<rparr>)"

definition zone_distance :: "f64 \<Rightarrow> zone \<Rightarrow> f64" where
  "zone_distance price z =
    (if f_lt price (zn_Lower z)
       then f_mul (f_div (f_sub (zn_Lower z) price) price) (f_of_int 10000)
     else if f_lt (zn_Upper z) price
       then f_mul (f_div (f_sub price (zn_Upper z)) price) (f_of_int 10000)
     else f_zero)"

definition eval_near_zone :: "rule \<Rightarrow> observation \<Rightarrow> eval_result" where
  "eval_near_zone r obs =
    (let price = cnd_Close (obs_Candle obs)
     in case find (\<lambda>z. \<not> (zn_Kind z \<noteq> r_Kind r \<or> (r_Side r \<noteq> '''' \<and> zn_Side z \<noteq> r_Side r)
                          \<or> zn_State z \<noteq> ''active'')
                      \<and> f_lt f_zero (zone_distance price z)
                      \<and> f_le (zone_distance price z) (r_DistanceBps r)) (obs_ActiveZones obs) of
          None \<Rightarrow> no_match True
        | Some z \<Rightarrow>
           \<lparr>res_matched = True, res_known = True,
            res_reasons = [''price is '' @ f_fmt 2 (zone_distance price z) @ '' bps from '' @ zn_Kind z],
            res_facts = [zone_fact (zn_Kind z) (zn_ID z) (zn_Side z) (zn_Upper z) (zn_Lower z)]\<rparr>)"

definition eval_pattern :: "rule \<Rightarrow> observation \<Rightarrow> eval_result" where
  "eval_pattern r obs =
    (case find (\<lambda>p. pat_Kind p = r_Kind r \<and> (r_Side r = '''' \<or> pat_Side p = r_Side r)) (obs_Patterns obs) of
       None \<Rightarrow> no_match True
     | Some p \<Rightarrow>
        \<lparr>res_matched = True, res_known = True, res_reasons = [''pattern '' @ pat_Kind p],
         res_facts = [\<lparr>fact_Kind = ''pattern'', fact_ID = '''', fact_Side = pat_Side p,
                       fact_Name = pat_Kind p, fact_Value = f_zero\<rparr>]\<rparr>)"

definition eval_color :: "rule \<Rightarrow> observation \<Rightarrow> eval_result" where
  "eval_color r obs =
    (let color = candleColor (obs_Candle obs)
     in \<lparr>res_matched = (color = r_Direction r), res_known = True,
         res_reasons = [color @ '' candle closed''], res_facts = []\<rparr>)"

definition eval_streak :: "rule \<Rightarrow> observation \<Rightarrow> feature_state \<Rightarrow> eval_result option" where
  "eval_streak r obs st =
    (let colors = fs_CandleColors st @ [candleColor (obs_Candle obs)]
     in if int (length colors) < r_Count r then Some (no_match True)
        else if r_Count r < 0 then None
        else if list_all (\<lambda>got. got = r_Direction r) (drop (length colors - nat (r_Count r)) colors)
          then Some \<lparr>res_matched = True, res_known = True,
                     res_reasons = [itoa (r_Count r) @ '' consecutive '' @ r_Direction r @ '' candles''],
                     res_facts = []\<rparr>
        else Some (no_match True))"

definition eval_flip :: "rule \<Rightarrow> observation \<Rightarrow> feature_state \<Rightarrow> eval_result" where
  "eval_flip r obs st =
    (if obs_Status obs \<noteq> ''provisional'' \<or> fs_FormingBar st \<noteq> cnd_OpenTime (obs_Candle obs)
       then no_match True
     else let from = fs_FormingColor st; to = candleColor (obs_Candle obs)
       in if from = '''' \<or> from = ''doji'' \<or> to = ''doji'' \<or> from = to then no_match True
       else if r_Direction r \<noteq> ''either'' \<and> r_Direction r \<noteq> from @ ''_to_'' @ to then no_match True
       else case timeframeDuration (ser_Timeframe (obs_Series obs)) of
          None \<Rightarrow> no_match False
        | Some d \<Rightarrow>
           let elapsed = time_sub (obs_OccurredAt obs) (cnd_OpenTime (obs_Candle obs));
               percent = f_mul (f_div (seconds elapsed) (seconds d)) (f_of_int 100)
           in if f_lt percent (r_MinElapsedPercent r) then no_match True
              else \<lparr>res_matched = True, res_known = True,
                    res_reasons = [''candle flipped '' @ from @ '' to '' @ to @ '' at '' @ f_fmt 1 percent @ ''% elapsed''],
                    res_facts = []\<rparr>)"

definition current_indicator :: "string \<Rightarrow> indicator list \<Rightarrow> f64 option" where
  "current_indicator key inds =
     map_option ind_Value (find (\<lambda>i. ind_Ready i \<and> indicatorKey (ind_Name i) (ind_Period i) = key) inds)"

definition eval_cross :: "rule \<Rightarrow> observation \<Rightarrow> feature_state \<Rightarrow> eval_result" where
  "eval_cross r obs st =
    (case fs_LastClose st of
       None \<Rightarrow> no_match False
     | Some lastClose \<Rightarrow>
        (let key = indicatorKey (r_Name r) (r_Period r)
         in case Option.bind (fs_Indicators st) (\<lambda>m. m key) of
              None \<Rightarrow> no_match False
            | Some previous \<Rightarrow>
               (case current_indicator key (obs_Indicators obs) of
                  None \<Rightarrow> no_match False
                | Some current \<Rightarrow>
                   (let close = cnd_Close (obs_Candle obs);
                        above = f_le lastClose previous \<and> f_lt current close;
                        below = f_le previous lastClose \<and> f_lt close current;
                        matched = (r_Direction r = ''above'' \<and> above) \<or> (r_Direction r = ''below'' \<and> below)
                                  \<or> (r_Direction r = ''either'' \<and> (above \<or> below))
                    in \<lparr>res_matched = matched, res_known = True,
                        res_reasons = [''price crossed '' @ r_Direction r @ '' '' @ r_Name r @ ''('' @ itoa (r_Period r) @ '')''],
                        res_facts = [\<lparr>fact_Kind = ''indicator'', fact_ID = key, fact_Side = '''',
                                      fact_Name = r_Name r, fact_Value = current\<rparr>]\<rparr>))))"

function evaluate :: "rule \<Rightarrow> observation \<Rightarrow> feature_state \<Rightarrow> eval_result option" where
  "evaluate r obs st =
    (if r_Type r = ''all'' then
       eval_all (map (\<lambda>c. evaluate c obs st) (r_Rules r))
         \<lparr>res_matched = True, res_known = True, res_reasons = [], res_facts = []\<rparr>
     else if r_Type r = ''any'' then
       eval_any (map (\<lambda>c. evaluate c obs st) (r_Rules r)) (no_match False)
     else if r_Type r = ''not'' then
       (case r_Rule r of None \<Rightarrow> None | Some c \<Rightarrow> map_option eval_not (evaluate c obs st))
     else if r_Type r = ''price_hits_zone'' \<or> r_Type r = ''zone_transition'' then Some (eval_zone r obs)
     else if r_Type r = ''price_near_zone'' then Some (eval_near_zone r obs)
     else if r_Type r = ''pattern'' then Some (eval_pattern r obs)
     else if r_Type r = ''candle_color'' then Some (eval_color r obs)
     else if r_Type r = ''candle_streak'' then eval_streak r obs st
     else if r_Type r = ''candle_color_flip'' then Some (eval_flip r obs st)
     else if r_Type r = ''price_crosses_indicator'' then Some (eval_cross r obs st)
     else Some (no_match False))"
  by pat_completeness auto
termination
  by (relation "measure (size \<circ> fst)") auto

declare evaluate.simps [simp del]

definition EvaluateDetailed ::
  "compiled \<Rightarrow> observation \<Rightarrow> feature_state \<Rightarrow> (bool \<times> string list \<times> fact_reference list) option" where
  "EvaluateDetailed c obs st =
     map_option (\<lambda>r. (res_known r \<and> res_matched r, res_reasons r, res_facts r))
       (evaluate (cmp_Rule c) obs st)"

definition Evaluate :: "rule \<Rightarrow> observation \<Rightarrow> feature_state \<Rightarrow> (bool \<times> string list) option" where
  "Evaluate r obs st = map_option (\<lambda>x. (res_known x \<and> res_matched x, res_reasons x)) (evaluate r obs st)"

section \<open>Advance\<close>

definition record_indicator :: "(string \<rightharpoonup> f64) \<Rightarrow> indicator \<Rightarrow> (string \<rightharpoonup> f64)" where
  "record_indicator m i =
     (if ind_Ready i then m(indicatorKey (ind_Name i) (ind_Period i) \<mapsto> ind_Value i) else m)"

definition Advance :: "feature_state \<Rightarrow> observation \<Rightarrow> feature_state" where
  "Advance state obs =
    (let indicators = (case fs_Indicators state of None \<Rightarrow> Map.empty | Some m \<Rightarrow> m);
         s1 = state\<lparr>fs_LastClose := Some (cnd_Close (obs_Candle obs)),
                    fs_Indicators := Some (foldl record_indicator indicators (obs_Indicators obs))\<rparr>
     in if obs_Status obs = ''confirmed'' then
          (let candles = fs_Candles s1 @ [obs_Candle obs];
               colors = fs_CandleColors s1 @ [candleColor (obs_Candle obs)]
           in s1\<lparr>fs_Candles := (if length candles > 500 then drop (length candles - 500) candles else candles),
                 fs_CandleColors := (if length colors > 100 then drop (length colors - 100) colors else colors),
                 fs_FormingBar := 0, fs_FormingColor := ''''\<rparr>)
        else
          (let s2 = (if fs_FormingBar s1 \<noteq> cnd_OpenTime (obs_Candle obs)
                     then s1\<lparr>fs_FormingBar := cnd_OpenTime (obs_Candle obs), fs_FormingColor := ''''\<rparr>
                     else s1);
               color = candleColor (obs_Candle obs)
           in if color \<noteq> ''doji'' then s2\<lparr>fs_FormingColor := color\<rparr> else s2))"

section \<open>Composition of results\<close>

lemma eval_all_Some:
  "eval_all (map Some rs) out = Some
     \<lparr>res_matched = res_matched out \<and> list_all res_matched rs,
      res_known = res_known out \<and> list_all res_known rs,
      res_reasons = res_reasons out @ concat (map res_reasons (filter res_matched rs)),
      res_facts = res_facts out @ concat (map res_facts (filter res_matched rs))\<rparr>"
  by (induction rs arbitrary: out) simp_all

lemma eval_any_Some:
  "eval_any (map Some rs) out = Some
     \<lparr>res_matched = res_matched out \<or> list_ex (\<lambda>r. res_known r \<and> res_matched r) rs,
      res_known = res_known out \<or> list_ex res_known rs,
      res_reasons = res_reasons out @ concat (map res_reasons (filter res_matched rs)),
      res_facts = res_facts out @ concat (map res_facts (filter res_matched rs))\<rparr>"
  by (induction rs arbitrary: out) simp_all

lemma eval_all_None_iff: "eval_all rs out = None \<longleftrightarrow> None \<in> set rs"
  by (induction rs out rule: eval_all.induct) auto

lemma eval_any_None_iff: "eval_any rs out = None \<longleftrightarrow> None \<in> set rs"
  by (induction rs out rule: eval_any.induct) auto

lemma map_the_Some: "None \<notin> set xs \<Longrightarrow> map Some (map the xs) = xs"
  by (induction xs) auto

lemma evaluate_all: "r_Type r = ''all'' \<Longrightarrow> evaluate r obs st =
     eval_all (map (\<lambda>c. evaluate c obs st) (r_Rules r))
       \<lparr>res_matched = True, res_known = True, res_reasons = [], res_facts = []\<rparr>"
  and evaluate_any: "r_Type r = ''any'' \<Longrightarrow> evaluate r obs st =
     eval_any (map (\<lambda>c. evaluate c obs st) (r_Rules r)) (no_match False)"
  and evaluate_not: "r_Type r = ''not'' \<Longrightarrow> evaluate r obs st =
     (case r_Rule r of None \<Rightarrow> None | Some c \<Rightarrow> map_option eval_not (evaluate c obs st))"
  by (simp_all add: evaluate.simps [of r])

section \<open>Validation\<close>

lemma validate_depth: "validate r d = None \<Longrightarrow> d \<le> 8"
  by (simp add: validate.simps [of r d] maxDepth_def split: if_splits)

lemma validate_children:
  "validate r d = None \<Longrightarrow> r_Type r = ''all'' \<or> r_Type r = ''any'' \<Longrightarrow> c \<in> set (r_Rules r)
   \<Longrightarrow> validate c (d + 1) = None"
  by (auto simp: validate.simps [of r d] first_some_None_iff split: if_splits)

lemma validate_child:
  "validate r d = None \<Longrightarrow> r_Type r = ''not'' \<Longrightarrow> \<exists>c. r_Rule r = Some c \<and> validate c (d + 1) = None"
  by (auto simp: validate.simps [of r d] split: if_splits option.splits)

lemma validate_streak_count:
  "validate r d = None \<Longrightarrow> r_Type r = ''candle_streak'' \<Longrightarrow> 2 \<le> r_Count r \<and> r_Count r \<le> 100"
  by (auto simp: validate.simps [of r d] split: if_splits)

lemma validate_evaluates: "validate r d = None \<Longrightarrow> evaluate r obs st \<noteq> None"
proof (induction r obs st arbitrary: d rule: evaluate.induct)
  case (1 r obs st)
  consider "r_Type r = ''all''" | "r_Type r = ''any''" | "r_Type r = ''not''" | "r_Type r = ''candle_streak''"
    | "r_Type r \<notin> {''all'', ''any'', ''not'', ''candle_streak''}" by blast
  then show ?case
  proof cases
    case 1
    have "evaluate c obs st \<noteq> None" if "c \<in> set (r_Rules r)" for c
      using "1.IH"(1) 1 that validate_children [OF "1.prems", of c] by simp
    then have "None \<notin> set (map (\<lambda>c. evaluate c obs st) (r_Rules r))"
      by (metis (no_types, lifting) imageE list.set_map)
    with 1 show ?thesis by (simp add: evaluate_all eval_all_None_iff del: not_None_eq)
  next
    case 2
    have "evaluate c obs st \<noteq> None" if "c \<in> set (r_Rules r)" for c
      using "1.IH"(2) 2 that validate_children [OF "1.prems", of c] by simp
    then have "None \<notin> set (map (\<lambda>c. evaluate c obs st) (r_Rules r))"
      by (metis (no_types, lifting) imageE list.set_map)
    with 2 show ?thesis by (simp add: evaluate_any eval_any_None_iff del: not_None_eq)
  next
    case 3
    with "1.prems" obtain c where "r_Rule r = Some c" "validate c (d + 1) = None"
      using validate_child by blast
    with 3 "1.IH"(3) show ?thesis by (simp add: evaluate.simps [of r])
  next
    case 4
    with "1.prems" validate_streak_count [of r d] show ?thesis
      by (auto simp: evaluate.simps [of r] eval_streak_def Let_def)
  next
    case 5
    then show ?thesis by (simp add: evaluate.simps [of r])
  qed
qed

text \<open>
  C2. A rule that \<open>Validate\<close> accepts never makes the evaluator panic: whatever the observation and
  the feature state, \<open>evaluate\<close> returns a result, so neither the nil dereference of \<open>not\<close> nor the
  slice expression of \<open>candle_streak\<close> can fail.
\<close>

theorem validated_rule_never_panics:
  assumes "Validate r = None"
  shows "\<exists>res. evaluate r obs st = Some res"
  using validate_evaluates [of r 0 obs st] assms by (auto simp: Validate_def)

definition streak_rule :: "string \<Rightarrow> int \<Rightarrow> rule" where
  "streak_rule color n = Rule ''candle_streak'' [] None '''' '''' '''' '''' 0 color n f_zero f_zero"

definition color_rule :: "string \<Rightarrow> rule" where
  "color_rule color = Rule ''candle_color'' [] None '''' '''' '''' '''' 0 color 0 f_zero f_zero"

definition not_rule :: "rule \<Rightarrow> rule" where
  "not_rule r = Rule ''not'' [] (Some r) '''' '''' '''' '''' 0 '''' 0 f_zero f_zero"

lemmas sample_rules = streak_rule_def color_rule_def not_rule_def

theorem validated_rule_never_panics_witness:
  "Validate (not_rule (streak_rule ''red'' 3)) = None \<and>
   (\<exists>res. evaluate (not_rule (streak_rule ''red'' 3)) zero_observation zero_feature = Some res)"
proof -
  have v: "Validate (not_rule (streak_rule ''red'' 3)) = None"
    by (simp add: Validate_def validate.simps maxDepth_def sample_rules)
  then show ?thesis using validated_rule_never_panics [OF v] by simp
qed

subsection \<open>Size of validated rules\<close>

text \<open>The nesting depth of a rule, and the number of leaf predicates an evaluation visits.\<close>

function rule_depth :: "rule \<Rightarrow> nat" where
  "rule_depth r =
    (if r_Type r = ''all'' \<or> r_Type r = ''any'' then Suc (Max (insert 0 (set (map rule_depth (r_Rules r)))))
     else if r_Type r = ''not'' then (case r_Rule r of None \<Rightarrow> 0 | Some c \<Rightarrow> Suc (rule_depth c))
     else 0)"
  by pat_completeness auto
termination
  by (relation "measure size") auto

function rule_leaves :: "rule \<Rightarrow> nat" where
  "rule_leaves r =
    (if r_Type r = ''all'' \<or> r_Type r = ''any'' then sum_list (map rule_leaves (r_Rules r))
     else if r_Type r = ''not'' then (case r_Rule r of None \<Rightarrow> 0 | Some c \<Rightarrow> rule_leaves c)
     else 1)"
  by pat_completeness auto
termination
  by (relation "measure size") auto

declare rule_depth.simps [simp del] rule_leaves.simps [simp del]

lemma sum_list_map_bound: "(\<And>x. x \<in> set xs \<Longrightarrow> f x \<le> k) \<Longrightarrow> sum_list (map f xs) \<le> length xs * (k :: nat)"
  by (induction xs) fastforce+

lemma validate_child_count:
  "validate r d = None \<Longrightarrow> r_Type r = ''all'' \<or> r_Type r = ''any'' \<Longrightarrow>
   2 \<le> length (r_Rules r) \<and> length (r_Rules r) \<le> 20"
  by (auto simp: validate.simps [of r d] split: if_splits)

lemma validate_rule_depth: "validate r (int d) = None \<Longrightarrow> d + rule_depth r \<le> 8"
proof (induction r arbitrary: d rule: rule_depth.induct)
  case (1 r)
  have d: "d \<le> 8" using validate_depth [OF "1.prems"] by simp
  consider "r_Type r = ''all'' \<or> r_Type r = ''any''" | "r_Type r = ''not''"
    | "r_Type r \<notin> {''all'', ''any'', ''not''}" by blast
  then show ?case
  proof cases
    case 1
    have child: "Suc d + rule_depth c \<le> 8" if "c \<in> set (r_Rules r)" for c
      using "1.IH"(1) [OF 1 that, of "Suc d"] validate_children [OF "1.prems" 1 that] by (simp add: add.commute)
    obtain c where c: "c \<in> set (r_Rules r)"
      using validate_child_count [OF "1.prems" 1] by (cases "r_Rules r") auto
    define m where "m = Max (insert 0 (set (map rule_depth (r_Rules r))))"
    have "m \<le> 7 - d" using child unfolding m_def by (subst Max_le_iff) fastforce+
    moreover have "rule_depth r = Suc m"
      using 1 by (simp add: rule_depth.simps [of r] m_def)
    moreover have "d < 8" using child [OF c] by simp
    ultimately show ?thesis by simp
  next
    case 2
    then obtain c where "r_Rule r = Some c" "validate c (int d + 1) = None"
      using validate_child [OF "1.prems"] by blast
    with 2 "1.IH"(2) [of c "Suc d"] show ?thesis by (simp add: rule_depth.simps [of r] add.commute)
  next
    case 3
    with d show ?thesis by (simp add: rule_depth.simps [of r])
  qed
qed

lemma validate_rule_leaves: "validate r (int d) = None \<Longrightarrow> rule_leaves r \<le> 20 ^ (8 - d)"
proof (induction r arbitrary: d rule: rule_leaves.induct)
  case (1 r)
  consider "r_Type r = ''all'' \<or> r_Type r = ''any''" | "r_Type r = ''not''"
    | "r_Type r \<notin> {''all'', ''any'', ''not''}" by blast
  then show ?case
  proof cases
    case 1
    have child: "validate c (int (Suc d)) = None" if "c \<in> set (r_Rules r)" for c
      using validate_children [OF "1.prems" 1 that] by (simp add: add.commute)
    note count = validate_child_count [OF "1.prems" 1]
    obtain c where "c \<in> set (r_Rules r)" using count by (cases "r_Rules r") auto
    from validate_depth [OF child [OF this]] have d: "8 - d = Suc (8 - Suc d)" by simp
    have "sum_list (map rule_leaves (r_Rules r)) \<le> length (r_Rules r) * 20 ^ (8 - Suc d)"
      using "1.IH"(1) [OF 1 _ child] by (intro sum_list_map_bound) simp
    also have "\<dots> \<le> 20 * 20 ^ (8 - Suc d)" using count by simp
    finally show ?thesis using 1 d by (simp add: rule_leaves.simps [of r])
  next
    case 2
    then obtain c where c: "r_Rule r = Some c" "validate c (int (Suc d)) = None"
      using validate_child [OF "1.prems"] by (auto simp: add.commute)
    then have "rule_leaves c \<le> 20 ^ (8 - Suc d)" using 2 "1.IH"(2) [of c "Suc d"] by simp
    also have "\<dots> \<le> 20 ^ (8 - d)" by (rule power_increasing) simp_all
    finally show ?thesis using 2 c by (simp add: rule_leaves.simps [of r])
  next
    case 3
    then show ?thesis by (simp add: rule_leaves.simps [of r])
  qed
qed

text \<open>
  Validation bounds the work of an evaluation: an accepted rule nests at most \<open>maxDepth = 8\<close>
  combinators and an evaluation of it visits at most \<open>20 ^ 8\<close> leaf predicates.
\<close>

theorem validated_rule_bounded:
  assumes "Validate r = None"
  shows "rule_depth r \<le> nat maxDepth \<and> rule_leaves r \<le> 20 ^ nat maxDepth"
  using validate_rule_depth [of r 0] validate_rule_leaves [of r 0] assms
  by (simp add: Validate_def maxDepth_def)

theorem validated_rule_bounded_witness:
  "Validate (not_rule (not_rule (color_rule ''red''))) = None \<and>
   rule_depth (not_rule (not_rule (color_rule ''red''))) \<le> nat maxDepth"
proof -
  have v: "Validate (not_rule (not_rule (color_rule ''red''))) = None"
    by (simp add: Validate_def validate.simps maxDepth_def sample_rules)
  then show ?thesis using validated_rule_bounded [OF v] by simp
qed

end
