(* ===== verification/Rule_Semantics.thy ===== *)
theory Rule_Semantics
  imports Rules
begin

text \<open>
  An abstract specification of the rule language, as a three-valued verdict
  (\<open>None\<close>: not yet known) given by declarative conditions on the observation and the
  state, and the refinement theorem that the evaluator's loops compute it; the relevance
  theorem of the dependency masks; and what the histories kept by \<open>Advance\<close> mean in
  terms of the whole sequence of observations.
\<close>

unbundle bit_operations_syntax

section \<open>Verdicts\<close>

definition verdict :: "eval_result \<Rightarrow> bool option" where
  "verdict res = (if res_known res then Some (res_matched res) else None)"

definition zone_hit :: "rule \<Rightarrow> zone_transition \<Rightarrow> bool" where
  "zone_hit r z \<longleftrightarrow> zt_Kind z = r_Kind r \<and> (r_Side r = '''' \<or> zt_Side z = r_Side r) \<and>
     zt_Transition z = (if r_Transition r = '''' \<and> r_Type r = ''price_hits_zone'' then ''touched'' else r_Transition r)"

definition zone_near :: "rule \<Rightarrow> f64 \<Rightarrow> zone \<Rightarrow> bool" where
  "zone_near r price z \<longleftrightarrow> zn_Kind z = r_Kind r \<and> (r_Side r = '''' \<or> zn_Side z = r_Side r) \<and>
     zn_State z = ''active'' \<and> f_lt f_zero (zone_distance price z) \<and>
     f_le (zone_distance price z) (r_DistanceBps r)"

definition pattern_hit :: "rule \<Rightarrow> pattern \<Rightarrow> bool" where
  "pattern_hit r p \<longleftrightarrow> pat_Kind p = r_Kind r \<and> (r_Side r = '''' \<or> pat_Side p = r_Side r)"

text \<open>The last \<open>n\<close> colours, the current candle's included, exist and are all \<open>color\<close>.\<close>

definition streak_holds :: "nat \<Rightarrow> string \<Rightarrow> string list \<Rightarrow> bool" where
  "streak_holds n color colors \<longleftrightarrow> n \<le> length colors \<and> (\<forall>c \<in> set (last_n n colors). c = color)"

definition flips :: "rule \<Rightarrow> observation \<Rightarrow> feature_state \<Rightarrow> bool" where
  "flips r obs st \<longleftrightarrow>
     (let from = fs_FormingColor st; to = candleColor (obs_Candle obs)
      in obs_Status obs = ''provisional'' \<and> fs_FormingBar st = cnd_OpenTime (obs_Candle obs) \<and>
         from \<notin> {'''', ''doji''} \<and> to \<noteq> ''doji'' \<and> from \<noteq> to \<and>
         (r_Direction r = ''either'' \<or> r_Direction r = from @ ''_to_'' @ to))"

definition elapsed_percent :: "observation \<Rightarrow> duration \<Rightarrow> f64" where
  "elapsed_percent obs d =
     f_mul (f_div (seconds (time_sub (obs_OccurredAt obs) (cnd_OpenTime (obs_Candle obs)))) (seconds d)) (f_of_int 100)"

definition crosses :: "string \<Rightarrow> f64 \<Rightarrow> f64 \<Rightarrow> f64 \<Rightarrow> f64 \<Rightarrow> bool" where
  "crosses direction lastClose previous close current \<longleftrightarrow>
     (let above = f_le lastClose previous \<and> f_lt current close;
          below = f_le previous lastClose \<and> f_lt close current
      in (direction = ''above'' \<and> above) \<or> (direction = ''below'' \<and> below) \<or>
         (direction = ''either'' \<and> (above \<or> below)))"

function sem :: "rule \<Rightarrow> observation \<Rightarrow> feature_state \<Rightarrow> bool option" where
  "sem r obs st =
    (if r_Type r = ''all'' then
       (if \<forall>v \<in> set (map (\<lambda>c. sem c obs st) (r_Rules r)). v \<noteq> None
        then Some (\<forall>v \<in> set (map (\<lambda>c. sem c obs st) (r_Rules r)). v = Some True) else None)
     else if r_Type r = ''any'' then
       (if \<exists>v \<in> set (map (\<lambda>c. sem c obs st) (r_Rules r)). v \<noteq> None
        then Some (\<exists>v \<in> set (map (\<lambda>c. sem c obs st) (r_Rules r)). v = Some True) else None)
     else if r_Type r = ''not'' then
       (case r_Rule r of None \<Rightarrow> None | Some c \<Rightarrow> map_option Not (sem c obs st))
     else if r_Type r = ''price_hits_zone'' \<or> r_Type r = ''zone_transition'' then
       Some (\<exists>z \<in> set (obs_ZoneTransitions obs). zone_hit r z)
     else if r_Type r = ''price_near_zone'' then
       Some (\<exists>z \<in> set (obs_ActiveZones obs). zone_near r (cnd_Close (obs_Candle obs)) z)
     else if r_Type r = ''pattern'' then Some (\<exists>p \<in> set (obs_Patterns obs). pattern_hit r p)
     else if r_Type r = ''candle_color'' then Some (candleColor (obs_Candle obs) = r_Direction r)
     else if r_Type r = ''candle_streak'' then
       Some (streak_holds (nat (r_Count r)) (r_Direction r) (fs_CandleColors st @ [candleColor (obs_Candle obs)]))
     else if r_Type r = ''candle_color_flip'' then
       (if flips r obs st then
          map_option (\<lambda>d. \<not> f_lt (elapsed_percent obs d) (r_MinElapsedPercent r))
            (timeframeDuration (ser_Timeframe (obs_Series obs)))
        else Some False)
     else if r_Type r = ''price_crosses_indicator'' then
       (case (fs_LastClose st, Option.bind (fs_Indicators st) (\<lambda>m. m (indicatorKey (r_Name r) (r_Period r))),
              current_indicator (indicatorKey (r_Name r) (r_Period r)) (obs_Indicators obs)) of
          (Some lastClose, Some previous, Some current) \<Rightarrow>
            Some (crosses (r_Direction r) lastClose previous (cnd_Close (obs_Candle obs)) current)
        | _ \<Rightarrow> None)
     else None)"
  by pat_completeness auto
termination
  by (relation "measure (size \<circ> fst)") auto

declare sem.simps [simp del]

subsection \<open>Leaves\<close>

lemma find_exists: "(find p xs = None) = (\<not> (\<exists>x \<in> set xs. p x))"
  by (auto simp: find_None_iff)

lemma find_match_verdict:
  "(\<And>x. find p xs = Some x \<Longrightarrow> res_known (f x) \<and> res_matched (f x)) \<Longrightarrow>
   verdict (case find p xs of None \<Rightarrow> no_match True | Some x \<Rightarrow> f x) = Some (\<exists>x \<in> set xs. p x)"
  using find_exists [of p xs] by (cases "find p xs") (simp_all add: verdict_def no_match_def)

lemma verdict_zone: "verdict (eval_zone r obs) = Some (\<exists>z \<in> set (obs_ZoneTransitions obs). zone_hit r z)"
  unfolding eval_zone_def Let_def
  by (subst find_match_verdict) (auto simp: zone_hit_def)

lemma verdict_near_zone:
  "verdict (eval_near_zone r obs) =
     Some (\<exists>z \<in> set (obs_ActiveZones obs). zone_near r (cnd_Close (obs_Candle obs)) z)"
  unfolding eval_near_zone_def Let_def
  by (subst find_match_verdict) (auto simp: zone_near_def)

lemma verdict_pattern: "verdict (eval_pattern r obs) = Some (\<exists>p \<in> set (obs_Patterns obs). pattern_hit r p)"
  unfolding eval_pattern_def
  by (subst find_match_verdict) (auto simp: pattern_hit_def)

lemma verdict_streak:
  "0 \<le> r_Count r \<Longrightarrow> map_option verdict (eval_streak r obs st) =
     Some (Some (streak_holds (nat (r_Count r)) (r_Direction r) (fs_CandleColors st @ [candleColor (obs_Candle obs)])))"
  by (auto simp: eval_streak_def Let_def verdict_def no_match_def streak_holds_def last_n_def list_all_iff)

lemma verdict_flip:
  "verdict (eval_flip r obs st) =
     (if flips r obs st then
        map_option (\<lambda>d. \<not> f_lt (elapsed_percent obs d) (r_MinElapsedPercent r))
          (timeframeDuration (ser_Timeframe (obs_Series obs)))
      else Some False)"
  by (auto simp: eval_flip_def Let_def flips_def verdict_def no_match_def elapsed_percent_def split: option.splits)

lemma verdict_cross:
  "verdict (eval_cross r obs st) =
     (case (fs_LastClose st, Option.bind (fs_Indicators st) (\<lambda>m. m (indicatorKey (r_Name r) (r_Period r))),
            current_indicator (indicatorKey (r_Name r) (r_Period r)) (obs_Indicators obs)) of
        (Some lastClose, Some previous, Some current) \<Rightarrow>
          Some (crosses (r_Direction r) lastClose previous (cnd_Close (obs_Candle obs)) current)
      | _ \<Rightarrow> None)"
  by (auto simp: eval_cross_def Let_def crosses_def verdict_def no_match_def split: option.splits)

lemmas leaf_verdicts = verdict_zone verdict_near_zone verdict_pattern verdict_flip verdict_cross

subsection \<open>Combinators\<close>

lemma verdict_all:
  "map_option verdict (eval_all (map Some rs) \<lparr>res_matched = True, res_known = True, res_reasons = [], res_facts = []\<rparr>)
   = Some (if \<forall>v \<in> set (map verdict rs). v \<noteq> None then Some (\<forall>v \<in> set (map verdict rs). v = Some True) else None)"
  by (auto simp: eval_all_Some verdict_def list_all_iff split: if_splits)

lemma verdict_any:
  "map_option verdict (eval_any (map Some rs) (no_match False))
   = Some (if \<exists>v \<in> set (map verdict rs). v \<noteq> None then Some (\<exists>v \<in> set (map verdict rs). v = Some True) else None)"
  by (auto simp: eval_any_Some verdict_def no_match_def list_ex_iff split: if_splits)

lemma verdict_not: "verdict (eval_not res) = map_option Not (verdict res)"
  by (simp add: verdict_def eval_not_def)

lemma children_results:
  assumes "\<And>c. c \<in> set cs \<Longrightarrow> map_option verdict (f c) = Some (g c)"
  obtains rs where "map f cs = map Some rs" and "map verdict rs = map g cs"
proof
  show "map f cs = map Some (map (the \<circ> f) cs)" using assms by fastforce
  show "map verdict (map (the \<circ> f) cs) = map g cs" using assms by fastforce
qed

lemma validate_refines: "validate r d = None \<Longrightarrow> map_option verdict (evaluate r obs st) = Some (sem r obs st)"
proof (induction r obs st arbitrary: d rule: evaluate.induct)
  case (1 r obs st)
  consider (all) "r_Type r = ''all''" | (any) "r_Type r = ''any''" | (neg) "r_Type r = ''not''"
    | (streak) "r_Type r = ''candle_streak''"
    | (leaf) "r_Type r \<notin> {''all'', ''any'', ''not'', ''candle_streak''}" by blast
  then show ?case
  proof cases
    case all
    have "map_option verdict (evaluate c obs st) = Some (sem c obs st)" if "c \<in> set (r_Rules r)" for c
      using "1.IH"(1) [OF all that] validate_children [OF "1.prems" _ that] all by simp
    then obtain rs where rs: "map (\<lambda>c. evaluate c obs st) (r_Rules r) = map Some rs"
      and sem: "map verdict rs = map (\<lambda>c. sem c obs st) (r_Rules r)" by (rule children_results)
    show ?thesis
      unfolding evaluate_all [OF all] rs verdict_all unfolding sem using all by (simp add: sem.simps [of r])
  next
    case any
    have "map_option verdict (evaluate c obs st) = Some (sem c obs st)" if "c \<in> set (r_Rules r)" for c
      using "1.IH"(2) [OF _ any that] validate_children [OF "1.prems" _ that] any by simp
    then obtain rs where rs: "map (\<lambda>c. evaluate c obs st) (r_Rules r) = map Some rs"
      and sem: "map verdict rs = map (\<lambda>c. sem c obs st) (r_Rules r)" by (rule children_results)
    show ?thesis
      unfolding evaluate_any [OF any] rs verdict_any unfolding sem using any by (simp add: sem.simps [of r])
  next
    case neg
    then obtain c where c: "r_Rule r = Some c" "validate c (d + 1) = None"
      using validate_child [OF "1.prems"] by blast
    with "1.IH"(3) [of c] neg obtain res where "evaluate c obs st = Some res" "verdict res = sem c obs st"
      by auto
    with neg c show ?thesis by (simp add: evaluate_not sem.simps [of r] verdict_not)
  next
    case streak
    with validate_streak_count [OF "1.prems"] verdict_streak [of r obs st] show ?thesis
      by (simp add: evaluate.simps [of r] sem.simps [of r])
  next
    case leaf
    have "verdict (eval_color r obs) = Some (candleColor (obs_Candle obs) = r_Direction r)"
      by (simp add: eval_color_def verdict_def Let_def)
    with leaf show ?thesis
      by (simp add: evaluate.simps [of r] sem.simps [of r] leaf_verdicts) (simp add: verdict_def no_match_def)
  qed
qed

text \<open>
  C1. The evaluator implements the declarative semantics: for every rule \<open>Validate\<close> accepts, \<open>Evaluate\<close>
  returns, and its truth value is exactly "the three-valued verdict of the rule is known and true",
  where \<open>all\<close> needs every child known, \<open>any\<close> at least one, and \<open>not\<close> keeps an unknown verdict unknown.
\<close>

theorem evaluate_refines_semantics:
  assumes "Validate r = None"
  shows "\<exists>reasons. Evaluate r obs st = Some (sem r obs st = Some True, reasons)"
proof -
  from validate_refines [of r 0 obs st] assms obtain res
    where "evaluate r obs st = Some res" and "verdict res = sem r obs st"
    by (auto simp: Validate_def)
  then show ?thesis by (auto simp: Evaluate_def verdict_def split: if_splits)
qed

theorem evaluate_refines_semantics_witness:
  "Validate (not_rule (color_rule ''red'')) = None \<and>
   (\<exists>reasons. Evaluate (not_rule (color_rule ''red'')) zero_observation zero_feature = Some (True, reasons))"
proof -
  have v: "Validate (not_rule (color_rule ''red'')) = None"
    by (simp add: Validate_def validate.simps maxDepth_def sample_rules)
  have "sem (not_rule (color_rule ''red'')) zero_observation zero_feature = Some True"
    by (simp add: sem.simps sample_rules candleColor_def zero_defs f_zero_def)
  with evaluate_refines_semantics [OF v, of zero_observation zero_feature] v show ?thesis by simp
qed

section \<open>What a rule reads\<close>

text \<open>
  Two evaluation contexts agree on a dependency mask when they agree on the inputs that
  each bit of the mask stands for.
\<close>

definition agree_on :: "dependency \<Rightarrow> observation \<Rightarrow> feature_state \<Rightarrow> observation \<Rightarrow> feature_state \<Rightarrow> bool" where
  "agree_on dm obs st obs' st' \<longleftrightarrow>
     (dm AND DependencyCandle \<noteq> 0 \<longrightarrow>
        obs_Candle obs = obs_Candle obs' \<and> obs_Status obs = obs_Status obs' \<and>
        obs_OccurredAt obs = obs_OccurredAt obs' \<and> obs_Series obs = obs_Series obs' \<and>
        fs_FormingBar st = fs_FormingBar st' \<and> fs_FormingColor st = fs_FormingColor st') \<and>
     (dm AND DependencyIndicator \<noteq> 0 \<longrightarrow> obs_Indicators obs = obs_Indicators obs') \<and>
     (dm AND DependencyZone \<noteq> 0 \<longrightarrow>
        obs_ActiveZones obs = obs_ActiveZones obs' \<and> obs_ZoneTransitions obs = obs_ZoneTransitions obs') \<and>
     (dm AND DependencyPattern \<noteq> 0 \<longrightarrow> obs_Patterns obs = obs_Patterns obs') \<and>
     (dm AND DependencyHistory \<noteq> 0 \<longrightarrow>
        fs_LastClose st = fs_LastClose st' \<and> fs_Indicators st = fs_Indicators st' \<and>
        fs_CandleColors st = fs_CandleColors st')"

lemma or_mask_zero: "((a :: u64) OR b) AND m = 0 \<longleftrightarrow> a AND m = 0 \<and> b AND m = 0"
  by (simp add: bit.conj_disj_distrib2 or_eq_0_iff)

lemma foldl_or_mask_zero: "foldl (OR) (a :: u64) xs AND m = 0 \<longleftrightarrow> a AND m = 0 \<and> (\<forall>x \<in> set xs. x AND m = 0)"
  by (induction xs arbitrary: a) (auto simp: or_mask_zero)

lemma agree_on_mono:
  "agree_on dm obs st obs' st' \<Longrightarrow> (\<And>m. dm AND m = 0 \<Longrightarrow> dm' AND m = 0) \<Longrightarrow> agree_on dm' obs st obs' st'"
  unfolding agree_on_def by blast

lemma agree_on_children:
  "agree_on (foldl (OR) 0 (map dependencies rs)) obs st obs' st' \<Longrightarrow> c \<in> set rs \<Longrightarrow>
   agree_on (dependencies c) obs st obs' st'"
  by (erule agree_on_mono) (auto simp: foldl_or_mask_zero)

lemma eval_zone_reads: "obs_ZoneTransitions obs = obs_ZoneTransitions obs' \<Longrightarrow> eval_zone r obs = eval_zone r obs'"
  and eval_near_zone_reads: "obs_Candle obs = obs_Candle obs' \<Longrightarrow> obs_ActiveZones obs = obs_ActiveZones obs'
     \<Longrightarrow> eval_near_zone r obs = eval_near_zone r obs'"
  and eval_pattern_reads: "obs_Patterns obs = obs_Patterns obs' \<Longrightarrow> eval_pattern r obs = eval_pattern r obs'"
  and eval_color_reads: "obs_Candle obs = obs_Candle obs' \<Longrightarrow> eval_color r obs = eval_color r obs'"
  and eval_streak_reads: "obs_Candle obs = obs_Candle obs' \<Longrightarrow> fs_CandleColors st = fs_CandleColors st'
     \<Longrightarrow> eval_streak r obs st = eval_streak r obs' st'"
  and eval_flip_reads: "obs_Candle obs = obs_Candle obs' \<Longrightarrow> obs_Status obs = obs_Status obs'
     \<Longrightarrow> obs_OccurredAt obs = obs_OccurredAt obs' \<Longrightarrow> obs_Series obs = obs_Series obs'
     \<Longrightarrow> fs_FormingBar st = fs_FormingBar st' \<Longrightarrow> fs_FormingColor st = fs_FormingColor st'
     \<Longrightarrow> eval_flip r obs st = eval_flip r obs' st'"
  and eval_cross_reads: "obs_Candle obs = obs_Candle obs' \<Longrightarrow> obs_Indicators obs = obs_Indicators obs'
     \<Longrightarrow> fs_LastClose st = fs_LastClose st' \<Longrightarrow> fs_Indicators st = fs_Indicators st'
     \<Longrightarrow> eval_cross r obs st = eval_cross r obs' st'"
  by (simp_all add: eval_zone_def eval_near_zone_def eval_pattern_def eval_color_def eval_streak_def
      eval_flip_def eval_cross_def Let_def cong: option.case_cong if_cong)

lemma mask_leaf:
  "r_Type r = ''price_hits_zone'' \<Longrightarrow> dependencies r = DependencyZone"
  "r_Type r = ''zone_transition'' \<Longrightarrow> dependencies r = DependencyZone"
  "r_Type r = ''price_near_zone'' \<Longrightarrow> dependencies r = DependencyCandle OR DependencyZone"
  "r_Type r = ''pattern'' \<Longrightarrow> dependencies r = DependencyPattern"
  "r_Type r = ''candle_color'' \<Longrightarrow> dependencies r = DependencyCandle"
  "r_Type r = ''candle_color_flip'' \<Longrightarrow> dependencies r = DependencyCandle"
  "r_Type r = ''candle_streak'' \<Longrightarrow> dependencies r = DependencyCandle OR DependencyHistory"
  "r_Type r = ''price_crosses_indicator'' \<Longrightarrow>
     dependencies r = DependencyCandle OR DependencyIndicator OR DependencyHistory"
  by (simp_all add: dependencies.simps [of r])

lemma dependencies_relevant:
  "agree_on (dependencies r) obs st obs' st' \<Longrightarrow> evaluate r obs st = evaluate r obs' st'"
proof (induction r rule: dependencies.induct)
  case (1 r)
  consider (all) "r_Type r = ''all''" | (any) "r_Type r = ''any''" | (neg) "r_Type r = ''not''"
    | (zone) "r_Type r = ''price_hits_zone'' \<or> r_Type r = ''zone_transition''"
    | (near) "r_Type r = ''price_near_zone''" | (pattern) "r_Type r = ''pattern''"
    | (color) "r_Type r = ''candle_color''" | (streak) "r_Type r = ''candle_streak''"
    | (flip) "r_Type r = ''candle_color_flip''" | (cross) "r_Type r = ''price_crosses_indicator''"
    | (other) "r_Type r \<notin> {''all'', ''any'', ''not'', ''price_hits_zone'', ''zone_transition'',
        ''price_near_zone'', ''pattern'', ''candle_color'', ''candle_streak'', ''candle_color_flip'',
        ''price_crosses_indicator''}" by blast
  then show ?case
  proof cases
    case all
    with "1.prems" have "agree_on (dependencies c) obs st obs' st'" if "c \<in> set (r_Rules r)" for c
      using that by (auto simp: dependencies.simps [of r] intro: agree_on_children)
    with all "1.IH"(2) show ?thesis by (simp add: evaluate_all cong: map_cong)
  next
    case any
    with "1.prems" have "agree_on (dependencies c) obs st obs' st'" if "c \<in> set (r_Rules r)" for c
      using that by (auto simp: dependencies.simps [of r] intro: agree_on_children)
    with any "1.IH"(2) show ?thesis by (simp add: evaluate_any cong: map_cong)
  next
    case neg
    show ?thesis
    proof (cases "r_Rule r")
      case None
      with neg show ?thesis by (simp add: evaluate_not)
    next
      case (Some c)
      with neg have "dependencies r = dependencies c" by (simp add: dependencies.simps [of r])
      with "1.IH"(1) [of c] "1.prems" neg Some have "evaluate c obs st = evaluate c obs' st'" by simp
      with neg Some show ?thesis by (simp add: evaluate_not)
    qed
  next
    case zone
    with "1.prems" show ?thesis
      by (auto simp: mask_leaf agree_on_def dependency_defs evaluate.simps [of r] intro!: eval_zone_reads)
  next
    case near
    with "1.prems" show ?thesis
      by (auto simp: mask_leaf agree_on_def dependency_defs evaluate.simps [of r] intro!: eval_near_zone_reads)
  next
    case pattern
    with "1.prems" show ?thesis
      by (auto simp: mask_leaf agree_on_def dependency_defs evaluate.simps [of r] intro!: eval_pattern_reads)
  next
    case color
    with "1.prems" show ?thesis
      by (auto simp: mask_leaf agree_on_def dependency_defs evaluate.simps [of r] intro!: eval_color_reads)
  next
    case streak
    with "1.prems" show ?thesis
      by (auto simp: mask_leaf agree_on_def dependency_defs evaluate.simps [of r] intro!: eval_streak_reads)
  next
    case flip
    with "1.prems" show ?thesis
      by (auto simp: mask_leaf agree_on_def dependency_defs evaluate.simps [of r] intro!: eval_flip_reads)
  next
    case cross
    with "1.prems" show ?thesis
      by (auto simp: mask_leaf agree_on_def dependency_defs evaluate.simps [of r] intro!: eval_cross_reads)
  next
    case other
    then show ?thesis by (simp add: evaluate.simps [of r])
  qed
qed

text \<open>
  The dependency mask of a compiled rule covers everything the rule reads: two contexts that agree
  on the inputs named by the mask evaluate to the same result. In particular a rule without the candle
  and indicator bits, which the engine skips on provisional observations, cannot react to them.
\<close>

theorem compiled_dependencies_sound:
  assumes "Compile r = Inr c" and "agree_on (cmp_Dependencies c) obs st obs' st'"
  shows "EvaluateDetailed c obs st = EvaluateDetailed c obs' st'"
  using assms dependencies_relevant [of r obs st obs' st']
  by (auto simp: Compile_def EvaluateDetailed_def split: option.splits)

definition pattern_rule :: "string \<Rightarrow> rule" where
  "pattern_rule kind = Rule ''pattern'' [] None kind '''' '''' '''' 0 '''' 0 f_zero f_zero"

theorem compiled_dependencies_sound_witness:
  "EvaluateDetailed \<lparr>cmp_Rule = pattern_rule ''doji'', cmp_Dependencies = DependencyPattern\<rparr>
     zero_observation zero_feature =
   EvaluateDetailed \<lparr>cmp_Rule = pattern_rule ''doji'', cmp_Dependencies = DependencyPattern\<rparr>
     (zero_observation\<lparr>obs_Candle := zero_candle\<lparr>cnd_Close := f_of_int 7\<rparr>, obs_Status := ''provisional''\<rparr>) zero_feature"
proof -
  have c: "Compile (pattern_rule ''doji'') = Inr \<lparr>cmp_Rule = pattern_rule ''doji'', cmp_Dependencies = DependencyPattern\<rparr>"
    by (simp add: Compile_def Validate_def validate.simps maxDepth_def pattern_rule_def dependencies.simps
        blank.simps [of "''doji''"] blank.simps [of "[_]"] byte_def)
  show ?thesis
    by (rule compiled_dependencies_sound [OF c]) (simp add: agree_on_def dependency_defs)
qed

section \<open>Histories\<close>

definition confirmed :: "observation \<Rightarrow> bool" where
  "confirmed obs \<longleftrightarrow> obs_Status obs = ''confirmed''"

lemma cap_last_n: "(if length xs > n then drop (length xs - n) xs else xs) = last_n n xs"
  by (simp add: last_n_def)

lemma Advance_candles [state_simps]:
  "fs_Candles (Advance st obs) =
     (if confirmed obs then last_n 500 (fs_Candles st @ [obs_Candle obs]) else fs_Candles st)"
  and Advance_colors [state_simps]:
  "fs_CandleColors (Advance st obs) =
     (if confirmed obs then last_n 100 (fs_CandleColors st @ [candleColor (obs_Candle obs)]) else fs_CandleColors st)"
  by (simp_all add: Advance_def Let_def confirmed_def cap_last_n)

lemma Advance_close [state_simps]: "fs_LastClose (Advance st obs) = Some (cnd_Close (obs_Candle obs))"
  and Advance_indicators [state_simps]: "fs_Indicators (Advance st obs) =
     Some (foldl record_indicator (case fs_Indicators st of None \<Rightarrow> Map.empty | Some m \<Rightarrow> m) (obs_Indicators obs))"
  by (simp_all add: Advance_def Let_def)

lemma Advance_forming [state_simps]:
  "fs_FormingBar (Advance st obs) = (if confirmed obs then 0 else cnd_OpenTime (obs_Candle obs))"
  "fs_FormingColor (Advance st obs) =
     (if confirmed obs then ''''
      else if candleColor (obs_Candle obs) \<noteq> ''doji'' then candleColor (obs_Candle obs)
      else if fs_FormingBar st = cnd_OpenTime (obs_Candle obs) then fs_FormingColor st else '''')"
  by (simp_all add: Advance_def Let_def confirmed_def)

lemma last_n_step: "last_n n (last_n n xs @ [x]) = last_n n (xs @ [x])"
  by (simp add: last_n_snoc_last_n)

lemma Advance_fold_candles:
  "fs_Candles (foldl Advance zero_feature os) = last_n 500 (map obs_Candle (filter confirmed os))"
  by (induction os rule: rev_induct) (simp_all add: state_simps last_n_step zero_feature_def last_n_def [of _ "[]"])

lemma Advance_fold_colors:
  "fs_CandleColors (foldl Advance zero_feature os) =
     last_n 100 (map (candleColor \<circ> obs_Candle) (filter confirmed os))"
  by (induction os rule: rev_induct) (simp_all add: state_simps last_n_step zero_feature_def last_n_def [of _ "[]"])

text \<open>
  C16. The feature state built by \<open>Advance\<close> from any sequence of observations holds exactly the last 500
  confirmed candles and the colours of the last 100 of them; a forming (provisional) observation never
  enters either history.
\<close>

theorem advance_history_exact:
  "fs_Candles (foldl Advance zero_feature os) = last_n 500 (map obs_Candle (filter confirmed os)) \<and>
   fs_CandleColors (foldl Advance zero_feature os) =
     map candleColor (last_n 100 (fs_Candles (foldl Advance zero_feature os)))"
  by (simp add: Advance_fold_candles Advance_fold_colors map_last_n last_n_last_n)

lemma streak_capped:
  assumes "n \<le> 101"
  shows "streak_holds n color (last_n 100 cs @ [c]) = streak_holds n color (cs @ [c])"
proof (cases n)
  case 0
  then show ?thesis by (simp add: streak_holds_def last_n_def)
next
  case (Suc m)
  with assms have "last_n n (last_n 100 cs @ [c]) = last_n n (cs @ [c])"
    by (simp add: last_n_snoc last_n_last_n)
  with Suc assms show ?thesis by (auto simp: streak_holds_def)
qed

text \<open>
  C17. Keeping only 100 colours loses no streak a valid rule can ask for: on the state built from a
  sequence of observations, a validated \<open>candle_streak\<close> rule holds exactly when the last \<open>Count\<close>
  candles of the whole confirmed history, the current one included, have the rule's colour.
\<close>

theorem streak_on_bounded_history:
  assumes "Validate r = None" and "r_Type r = ''candle_streak''"
  shows "\<exists>reasons. Evaluate r obs (foldl Advance zero_feature os) =
    Some (streak_holds (nat (r_Count r)) (r_Direction r)
            (map (candleColor \<circ> obs_Candle) (filter confirmed os) @ [candleColor (obs_Candle obs)]), reasons)"
proof -
  have "nat (r_Count r) \<le> 101"
    using validate_streak_count [of r 0] assms by (simp add: Validate_def nat_le_iff)
  then have "sem r obs (foldl Advance zero_feature os) =
      Some (streak_holds (nat (r_Count r)) (r_Direction r)
            (map (candleColor \<circ> obs_Candle) (filter confirmed os) @ [candleColor (obs_Candle obs)]))"
    using assms(2) by (simp add: sem.simps [of r] Advance_fold_colors streak_capped)
  with validate_refines [of r 0 obs "foldl Advance zero_feature os"] assms(1) show ?thesis
    by (auto simp: Validate_def Evaluate_def verdict_def split: if_splits)
qed

definition red_candle :: candle where
  "red_candle = zero_candle\<lparr>cnd_Open := F_Fin False 2, cnd_Close := F_Fin False 1\<rparr>"

definition confirmed_red :: observation where
  "confirmed_red = zero_observation\<lparr>obs_Status := ''confirmed'', obs_Candle := red_candle\<rparr>"

lemma red_candle_color: "candleColor red_candle = ''red''"
  by (simp add: candleColor_def red_candle_def f_signed_def)

lemma zero_candle_color: "candleColor zero_candle = ''doji''"
  by (simp add: candleColor_def zero_candle_def)

theorem streak_on_bounded_history_witness:
  "\<exists>reasons. Evaluate (streak_rule ''red'' 2) confirmed_red (foldl Advance zero_feature [confirmed_red]) = Some (True, reasons)"
proof -
  have v: "Validate (streak_rule ''red'' 2) = None"
    by (simp add: Validate_def validate.simps maxDepth_def sample_rules)
  have t: "r_Type (streak_rule ''red'' 2) = ''candle_streak''" by (simp add: sample_rules)
  have "streak_holds 2 ''red'' [''red'', ''red'']"
    by (simp add: streak_holds_def last_n_def)
  with streak_on_bounded_history [OF v t, of confirmed_red "[confirmed_red]"] red_candle_color show ?thesis
    by (simp add: confirmed_red_def confirmed_def sample_rules)
qed

subsection \<open>The forming candle\<close>

text \<open>The last colour of a list that is not a doji, or \<open>d\<close> when there is none.\<close>

definition last_color :: "string \<Rightarrow> string list \<Rightarrow> string" where
  "last_color d cs = (let real = filter (\<lambda>c. c \<noteq> ''doji'') cs in if real = [] then d else last real)"

lemma last_color_snoc: "last_color d (cs @ [c]) = (if c = ''doji'' then last_color d cs else c)"
  by (simp add: last_color_def Let_def)

text \<open>
  While one bar forms, the state remembers the last real colour seen in that bar: after any
  non-empty sequence of provisional observations of a bar, \<open>FormingBar\<close> is that bar and \<open>FormingColor\<close>
  the last colour that is not a doji, starting from the remembered one only if it belongs to the same bar.
\<close>

theorem forming_color_tracks_bar:
  assumes "os \<noteq> []" and "\<forall>obs \<in> set os. \<not> confirmed obs \<and> cnd_OpenTime (obs_Candle obs) = t"
  shows "fs_FormingBar (foldl Advance st os) = t \<and>
         fs_FormingColor (foldl Advance st os) =
           last_color (if fs_FormingBar st = t then fs_FormingColor st else '''')
             (map (candleColor \<circ> obs_Candle) os)"
  using assms
proof (induction os rule: rev_induct)
  case Nil
  then show ?case by simp
next
  case (snoc obs os)
  then show ?case
    by (cases "os = []") (auto simp: state_simps last_color_snoc last_color_def)
qed

definition forming_red :: observation where
  "forming_red = zero_observation\<lparr>obs_Status := ''provisional'', obs_Candle := red_candle\<rparr>"

lemma forming_samples:
  "\<not> confirmed forming_red" "\<not> confirmed zero_observation"
  "cnd_OpenTime (obs_Candle forming_red) = 0" "cnd_OpenTime (obs_Candle zero_observation) = 0"
  "candleColor (obs_Candle forming_red) = ''red''" "candleColor (obs_Candle zero_observation) = ''doji''"
  using red_candle_color zero_candle_color
  by (simp_all add: confirmed_def forming_red_def) (simp_all add: zero_defs red_candle_def)

theorem forming_color_tracks_bar_witness:
  "fs_FormingColor (foldl Advance zero_feature [forming_red, zero_observation]) = ''red''"
  using forming_color_tracks_bar [of "[forming_red, zero_observation]" 0 zero_feature]
  by (simp add: forming_samples last_color_def)

end
