(* ===== verification/Legacy.thy ===== *)
theory Legacy
  imports Store Rule_Semantics
begin

text \<open>
  \<open>internal/store/evaluate.go\<close>: the older evaluation path, in which a repository evaluates
  one definition against one observation with a state of its own per definition and
  series. \<open>None\<close> of \<open>apply\<close> would be a panic of the rule evaluator.
\<close>

definition legacy_stale :: "observation \<Rightarrow> evaluation_state \<Rightarrow> bool" where
  "legacy_stale obs state =
    (if is_zero (es_LastOpenTime state) then False
     else if cnd_OpenTime (obs_Candle obs) < es_LastOpenTime state then True
     else if cnd_OpenTime (obs_Candle obs) > es_LastOpenTime state then False
     else if obs_Revision obs < es_LastRevision state then True
     else if obs_Revision obs > es_LastRevision state then False
     else statusRank (obs_Status obs) \<le> statusRank (es_LastStatus state))"

definition legacy_shouldTrigger :: "string \<Rightarrow> bool \<Rightarrow> bool \<Rightarrow> observation \<Rightarrow> evaluation_state \<Rightarrow> bool" where
  "legacy_shouldTrigger mode truth pulse obs state =
    (if \<not> truth then False
     else if mode = ''every_match'' then True
     else if mode = ''once_per_bar'' then
       is_zero (es_LastAlertBar state) \<or> es_LastAlertBar state \<noteq> cnd_OpenTime (obs_Candle obs)
     else pulse \<or> \<not> es_LastTruth state)"

definition legacy_feature :: "evaluation_state \<Rightarrow> feature_state" where
  "legacy_feature state =
     \<lparr>fs_LastClose = es_LastClose state, fs_Indicators = es_Indicators state, fs_Candles = [],
      fs_CandleColors = es_CandleColors state, fs_FormingBar = es_FormingBar state,
      fs_FormingColor = es_FormingColor state\<rparr>"

definition legacy_alert ::
  "go_time \<Rightarrow> alert_definition \<Rightarrow> observation \<Rightarrow> string list \<Rightarrow> fact_reference list \<Rightarrow> alert" where
  "legacy_alert wall d obs reasons facts =
     \<lparr>alr_Schema = ''io.ytstack.alert.triggered.v1'',
      alr_ID = deterministicID [dfn_ID d, obs_SourceEventID obs],
      alr_DefinitionID = dfn_ID d, alr_DefinitionVersion = dfn_Version d,
      alr_DefinitionHash = dfn_DefinitionHash d, alr_DefinitionName = dfn_Name d,
      alr_SourceEventID = obs_SourceEventID obs, alr_SourceCandleID = obs_CorrelationID obs,
      alr_Series = obs_Series obs, alr_TriggeredAt = obs_OccurredAt obs, alr_EvaluatedAt = wall,
      alr_Reasons = reasons, alr_FactsUsed = facts, alr_FeatureAlgorithm = obs_FeatureAlgorithm obs,
      alr_SourceRevision = obs_Revision obs, alr_SourceStatus = obs_Status obs,
      alr_Observation = None, alr_PublishStatus = ''pending'', alr_Cursor = 0\<rparr>"

text \<open>The state written back after an accepted observation, before a trigger is recorded.\<close>

definition legacy_advance :: "observation \<Rightarrow> evaluation_state \<Rightarrow> evaluation_state" where
  "legacy_advance obs state =
     (let feature = Advance (legacy_feature state) obs
      in state\<lparr>es_LastClose := fs_LastClose feature, es_Indicators := fs_Indicators feature,
               es_CandleColors := fs_CandleColors feature, es_FormingBar := fs_FormingBar feature,
               es_FormingColor := fs_FormingColor feature,
               es_LastOpenTime := cnd_OpenTime (obs_Candle obs), es_LastRevision := obs_Revision obs,
               es_LastStatus := obs_Status obs\<rparr>)"

definition apply_definition ::
  "go_time \<Rightarrow> alert_definition \<Rightarrow> observation \<Rightarrow> evaluation_state
     \<Rightarrow> (evaluation_state \<times> alert option \<times> bool) option" where
  "apply_definition wall d obs state =
    (if legacy_stale obs state then Some (state, None, False)
     else case Compile (dfn_Rule d) of
       Inl _ \<Rightarrow> Some (state, None, False)
     | Inr compiled \<Rightarrow>
        (case EvaluateDetailed compiled obs (legacy_feature state) of
           None \<Rightarrow> None
         | Some (truth, reasons, facts) \<Rightarrow>
            let trigger0 = legacy_shouldTrigger (dfn_TriggerMode d) truth (Pulse (dfn_Rule d)) obs state;
                trigger = (trigger0 \<and> \<not> (dfn_CooldownSeconds d > 0 \<and> \<not> is_zero (es_LastTriggerAt state) \<and>
                    time_sub (obs_OccurredAt obs) (es_LastTriggerAt state)
                      < duration_mul (dfn_CooldownSeconds d) second));
                state' = legacy_advance obs state
            in if \<not> trigger then Some (state', None, True)
               else Some (state'\<lparr>es_LastTriggerAt := obs_OccurredAt obs,
                                 es_LastAlertBar := cnd_OpenTime (obs_Candle obs)\<rparr>,
                          Some (legacy_alert wall d obs reasons facts), True)))"

section \<open>Staleness\<close>

definition legacy_cursor :: "evaluation_state \<Rightarrow> stamp" where
  "legacy_cursor s = (es_LastOpenTime s, es_LastRevision s, statusRank (es_LastStatus s))"

text \<open>The state transition of \<open>apply\<close> alone: what the caller stores back.\<close>

definition legacy_step :: "go_time \<Rightarrow> alert_definition \<Rightarrow> observation \<Rightarrow> evaluation_state \<Rightarrow> evaluation_state" where
  "legacy_step wall d obs s = (case apply_definition wall d obs s of None \<Rightarrow> s | Some (s', _, _) \<Rightarrow> s')"

lemma legacy_stale_iff: "legacy_stale obs s \<longleftrightarrow> fst (legacy_cursor s) \<noteq> 0 \<and> obs_stamp obs \<le> legacy_cursor s"
  by (auto simp: legacy_stale_def legacy_cursor_def obs_stamp_def is_zero_def less_eq_prod_def less_prod_def)

lemma EvaluateDetailed_compiled:
  "Compile r = Inr c \<Longrightarrow> \<exists>truth reasons facts. EvaluateDetailed c obs st = Some (truth, reasons, facts)"
  using validate_evaluates [of r 0 obs st]
  by (auto simp: Compile_def Validate_def EvaluateDetailed_def split: option.splits)

lemma apply_definition_total: "apply_definition wall d obs s \<noteq> None"
  using EvaluateDetailed_compiled [of "dfn_Rule d" _ obs "legacy_feature s"]
  by (fastforce simp: apply_definition_def Let_def split: sum.splits option.splits)

lemma apply_cursor:
  assumes "\<not> legacy_stale obs s" and "Compile (dfn_Rule d) = Inr c"
  shows "legacy_cursor (legacy_step wall d obs s) = obs_stamp obs"
proof -
  obtain truth reasons facts where "EvaluateDetailed c obs (legacy_feature s) = Some (truth, reasons, facts)"
    using EvaluateDetailed_compiled [OF assms(2)] by blast
  with assms show ?thesis
    by (simp add: legacy_step_def apply_definition_def legacy_cursor_def legacy_advance_def obs_stamp_def Let_def)
qed

text \<open>
  Where the rule compiles, the cursor moves the same way for every definition: as the
  definition-independent advance moves it.
\<close>

definition legacy_observe :: "observation \<Rightarrow> evaluation_state \<Rightarrow> evaluation_state" where
  "legacy_observe obs s = (if legacy_stale obs s then s else legacy_advance obs s)"

interpretation legacy: revision_cursor legacy_stale legacy_observe legacy_cursor
proof
  show "legacy_stale obs s = (fst (legacy_cursor s) \<noteq> 0 \<and> obs_stamp obs \<le> legacy_cursor s)" for obs s
    by (rule legacy_stale_iff)
qed (simp_all add: legacy_observe_def legacy_advance_def legacy_cursor_def obs_stamp_def Let_def)

lemma legacy_step_cursor:
  "Compile (dfn_Rule d) = Inr c \<Longrightarrow> legacy_cursor (legacy_step wall d obs s) = legacy_cursor (legacy_observe obs s)"
  using apply_cursor [of obs s d c wall] legacy.step_cursor [of obs s]
  by (cases "legacy_stale obs s") (simp_all add: legacy_step_def apply_definition_def legacy_observe_def)

text \<open>
  The older path has no memory of truth, so its \<open>on_occurrence\<close> mode is not the rising edge it is
  documented to be: from a state whose \<open>LastTruth\<close> is false, every accepted observation on which the rule
  holds raises an alert (no cooldown), and \<open>LastTruth\<close> is false again afterwards.
\<close>

theorem legacy_on_occurrence_fires_every_time:
  assumes "\<not> legacy_stale obs s" and "Compile (dfn_Rule d) = Inr c"
    and "EvaluateDetailed c obs (legacy_feature s) = Some (True, reasons, facts)"
    and "dfn_TriggerMode d = ''on_occurrence''" and "dfn_CooldownSeconds d = 0" and "\<not> es_LastTruth s"
  shows "\<exists>s'. apply_definition wall d obs s = Some (s', Some (legacy_alert wall d obs reasons facts), True)
              \<and> \<not> es_LastTruth s'"
  using assms by (simp add: apply_definition_def legacy_shouldTrigger_def legacy_advance_def Let_def)

definition legacy_sample :: alert_definition where
  "legacy_sample = \<lparr>dfn_ID = ''d'', dfn_Version = 1, dfn_DefinitionHash = ''h'', dfn_Name = ''n'',
     dfn_Enabled = True, dfn_Series = zero_series, dfn_Rule = color_rule ''red'',
     dfn_EvaluationMode = ''both'', dfn_TriggerMode = ''on_occurrence'', dfn_CooldownSeconds = 0,
     dfn_CreatedAt = 0, dfn_UpdatedAt = 0, dfn_EffectiveAt = 0\<rparr>"

definition red_at :: "go_time \<Rightarrow> observation" where
  "red_at t = zero_observation\<lparr>obs_Status := ''confirmed'', obs_OccurredAt := t,
     obs_Candle := red_candle\<lparr>cnd_OpenTime := t\<rparr>\<rparr>"

lemma red_at_color: "candleColor (obs_Candle (red_at t)) = ''red''"
  by (simp add: red_at_def candleColor_def red_candle_def f_signed_def)

lemma red_rule_compiles:
  "Compile (color_rule ''red'') = Inr \<lparr>cmp_Rule = color_rule ''red'', cmp_Dependencies = DependencyCandle\<rparr>"
  by (simp add: Compile_def Validate_def validate.simps maxDepth_def color_rule_def dependencies.simps)

theorem legacy_on_occurrence_fires_every_time_witness:
  "\<exists>s' a. apply_definition 0 legacy_sample (red_at 5) zero_evaluation_state = Some (s', Some a, True) \<and> \<not> es_LastTruth s'"
proof -
  have "EvaluateDetailed \<lparr>cmp_Rule = color_rule ''red'', cmp_Dependencies = DependencyCandle\<rparr> (red_at 5)
      (legacy_feature zero_evaluation_state) = Some (True, [''red'' @ '' candle closed''], [])"
    using red_at_color [of 5]
    by (simp add: EvaluateDetailed_def evaluate.simps eval_color_def color_rule_def Let_def)
  moreover have "\<not> legacy_stale (red_at 5) zero_evaluation_state"
    by (simp add: legacy_stale_def is_zero_def zero_evaluation_state_def)
  ultimately show ?thesis
    using legacy_on_occurrence_fires_every_time [of "red_at 5" zero_evaluation_state legacy_sample _ _ _ 0]
      red_rule_compiles
    by (fastforce simp: legacy_sample_def zero_evaluation_state_def)
qed

end
