(* ===== verification/Memory.thy ===== *)
theory Memory
  imports Legacy
begin

text \<open>
  \<open>internal/store/memory.go\<close>: the in-memory repository. Every method runs under the one
  mutex, so a method is one state transition. The map of definitions is an association list
  whose order stands for the unspecified iteration order of a Go map; the other maps are
  only read and written by key. \<open>now\<close> and \<open>wall\<close> stand for \<open>time.Now()\<close>.
\<close>

record memory =
  m_definitions :: "(string \<times> alert_definition) list"
  m_byHash :: "string \<rightharpoonup> string"
  m_archived :: "string \<rightharpoonup> bool"
  m_states :: "string \<rightharpoonup> evaluation_state"
  m_seriesRuntime :: "string \<rightharpoonup> series_evaluation_state"
  m_definitionRuntime :: "string \<rightharpoonup> definition_evaluation_state"
  m_inbox :: "string set"
  m_alerts :: "alert list"
  m_leases :: "int \<rightharpoonup> string"

definition NewMemory :: memory where
  "NewMemory = \<lparr>m_definitions = [], m_byHash = Map.empty, m_archived = Map.empty, m_states = Map.empty,
     m_seriesRuntime = Map.empty, m_definitionRuntime = Map.empty, m_inbox = {}, m_alerts = [],
     m_leases = Map.empty\<rparr>"

definition is_archived :: "memory \<Rightarrow> string \<Rightarrow> bool" where
  "is_archived m i = get_or False (m_archived m) i"

section \<open>Definitions\<close>

definition zero_definition :: alert_definition where
  "zero_definition = \<lparr>dfn_ID = '''', dfn_Version = 0, dfn_DefinitionHash = '''', dfn_Name = '''',
     dfn_Enabled = False, dfn_Series = zero_series, dfn_Rule = zero_rule, dfn_EvaluationMode = '''',
     dfn_TriggerMode = '''', dfn_CooldownSeconds = 0, dfn_CreatedAt = 0, dfn_UpdatedAt = 0, dfn_EffectiveAt = 0\<rparr>"

definition mem_CreateDefinition :: "alert_definition \<Rightarrow> memory \<Rightarrow> (alert_definition \<times> bool) \<times> memory" where
  "mem_CreateDefinition d m =
    (case m_byHash m (dfn_DefinitionHash d) of
       Some i \<Rightarrow>
         (if is_archived m i
          then ((d, False), m\<lparr>m_definitions := AList.update i d (m_definitions m),
                              m_archived := (m_archived m)(i := None)\<rparr>)
          else ((get_or zero_definition (map_of (m_definitions m)) i, False), m))
     | None \<Rightarrow>
         ((d, True), m\<lparr>m_definitions := AList.update (dfn_ID d) d (m_definitions m),
                       m_byHash := (m_byHash m)(dfn_DefinitionHash d \<mapsto> dfn_ID d)\<rparr>))"

definition mem_ListDefinitions :: "go_time \<Rightarrow> memory \<Rightarrow> alert_definition list" where
  "mem_ListDefinitions now m =
     sort_key dfn_CreatedAt
       (filter (\<lambda>d. \<not> (is_archived m (dfn_ID d) \<and> \<not> now < dfn_EffectiveAt d)) (map snd (m_definitions m)))"

definition mem_SetEnabled ::
  "go_time \<Rightarrow> string \<Rightarrow> bool \<Rightarrow> go_time \<Rightarrow> memory \<Rightarrow> (store_error + alert_definition) \<times> memory" where
  "mem_SetEnabled now i enabled effectiveAt m =
    (case map_of (m_definitions m) i of
       None \<Rightarrow> (Inl ErrNotFound, m)
     | Some d \<Rightarrow>
        if is_archived m i then (Inl ErrNotFound, m)
        else let d' = d\<lparr>dfn_Enabled := enabled, dfn_UpdatedAt := now, dfn_EffectiveAt := effectiveAt\<rparr>
             in (Inr d', m\<lparr>m_definitions := AList.update i d' (m_definitions m)\<rparr>))"

definition mem_ArchiveDefinition :: "string \<Rightarrow> go_time \<Rightarrow> memory \<Rightarrow> store_error option \<times> memory" where
  "mem_ArchiveDefinition i effectiveAt m =
    (case map_of (m_definitions m) i of
       None \<Rightarrow> (Some ErrNotFound, m)
     | Some d \<Rightarrow>
        (None, m\<lparr>m_definitions := AList.update i (d\<lparr>dfn_Enabled := False, dfn_EffectiveAt := effectiveAt\<rparr>) (m_definitions m),
                 m_archived := (m_archived m)(i \<mapsto> True)\<rparr>))"

section \<open>The older evaluation path\<close>

definition matchSeries :: "series \<Rightarrow> series \<Rightarrow> bool" where
  "matchSeries selector actual \<longleftrightarrow>
     ser_Symbol selector = ser_Symbol actual \<and> ser_Timeframe selector = ser_Timeframe actual \<and>
     (ser_Dataset selector = '''' \<or> ser_Dataset selector = ser_Dataset actual)"

definition mem_apply_one ::
  "go_time \<Rightarrow> observation \<Rightarrow> alert_definition \<Rightarrow> memory \<times> alert list \<Rightarrow> (memory \<times> alert list) option" where
  "mem_apply_one wall obs d mc =
    (let (m, created) = mc
     in if \<not> dfn_Enabled d \<or> obs_OccurredAt obs < dfn_CreatedAt d \<or> \<not> matchSeries (dfn_Series d) (obs_Series obs)
           \<or> \<not> acceptsMode (dfn_EvaluationMode d) (obs_Status obs) then Some (m, created)
        else let key = dfn_ID d @ ''|'' @ series_Key (obs_Series obs)
             in case apply_definition wall d obs (get_or zero_evaluation_state (m_states m) key) of
                  None \<Rightarrow> None
                | Some (state, alert, accepted) \<Rightarrow>
                    if \<not> accepted then Some (m, created)
                    else let m1 = m\<lparr>m_states := (m_states m)(key \<mapsto> state)\<rparr>
                         in case alert of
                              None \<Rightarrow> Some (m1, created)
                            | Some a \<Rightarrow>
                                let a' = a\<lparr>alr_Observation := marshal_observation obs,
                                           alr_Cursor := int (length (m_alerts m1)) + 1\<rparr>
                                in Some (m1\<lparr>m_alerts := m_alerts m1 @ [a']\<rparr>, created @ [a']))"

definition mem_ApplyObservation ::
  "go_time \<Rightarrow> observation \<Rightarrow> memory \<Rightarrow> ((store_error + alert list) \<times> memory) option" where
  "mem_ApplyObservation wall obs m =
    (if obs_SourceEventID obs \<in> m_inbox m then Some (Inr [], m)
     else let m1 = m\<lparr>m_inbox := insert (obs_SourceEventID obs) (m_inbox m)\<rparr>
          in if marshal_observation obs = None then Some (Inl (StoreFailure ''json''), m1)
             else map_option (\<lambda>(m2, created). (Inr created, m2))
                    (fold_opt (mem_apply_one wall obs) (map snd (m_definitions m1)) (m1, [])))"

section \<open>Checkpoints and alerts\<close>

definition mem_LoadRuntimeStates :: "memory \<Rightarrow> runtime_snapshot" where
  "mem_LoadRuntimeStates m = \<lparr>snap_Series = m_seriesRuntime m, snap_Definitions = m_definitionRuntime m\<rparr>"

definition add_alert :: "alert list \<times> alert list \<Rightarrow> alert \<Rightarrow> alert list \<times> alert list" where
  "add_alert ac a =
    (let (alerts, created) = ac
     in if list_ex (\<lambda>existing. alr_ID existing = alr_ID a) alerts then (alerts, created)
        else let a' = a\<lparr>alr_Cursor := int (length alerts) + 1\<rparr> in (alerts @ [a'], created @ [a']))"

definition mem_CommitRuntimeBatch :: "runtime_batch \<Rightarrow> memory \<Rightarrow> (store_error + alert list) \<times> memory" where
  "mem_CommitRuntimeBatch b m =
    (let (alerts, created) = foldl add_alert (m_alerts m, []) (rb_Alerts b)
     in (Inr created,
         m\<lparr>m_inbox := m_inbox m \<union> obs_SourceEventID ` set (rb_Observations b),
           m_seriesRuntime := m_seriesRuntime m ++ rb_SeriesStates b,
           m_definitionRuntime :=
             delete_keys (\<lambda>k. store_definitionSeriesKey k \<in> set (rb_ResetSeriesKeys b)) (m_definitionRuntime m)
               ++ rb_DefinitionStates b,
           m_alerts := alerts\<rparr>))"

text \<open>\<open>for \<dots> if p(a) append; if len(out) == limit break\<close>: a limit that is never reached takes all.\<close>

fun take_matching :: "('a \<Rightarrow> bool) \<Rightarrow> int \<Rightarrow> 'a list \<Rightarrow> 'a list \<Rightarrow> 'a list" where
  "take_matching p limit [] out = out"
| "take_matching p limit (a # as) out =
     (if p a then (if int (length (out @ [a])) = limit then out @ [a] else take_matching p limit as (out @ [a]))
      else take_matching p limit as out)"

definition mem_ListAlerts :: "int \<Rightarrow> int \<Rightarrow> memory \<Rightarrow> alert list" where
  "mem_ListAlerts after limit m = take_matching (\<lambda>a. alr_Cursor a > after) limit (m_alerts m) []"

definition mem_ClaimPending :: "int \<Rightarrow> memory \<Rightarrow> alert list" where
  "mem_ClaimPending limit m = take_matching (\<lambda>a. alr_PublishStatus a = ''pending'') limit (m_alerts m) []"

fun mark_published :: "string \<Rightarrow> alert list \<Rightarrow> alert list option" where
  "mark_published i [] = None"
| "mark_published i (a # as) =
     (if alr_ID a = i then Some (a\<lparr>alr_PublishStatus := ''published''\<rparr> # as)
      else map_option (Cons a) (mark_published i as))"

definition mem_MarkPublished :: "string \<Rightarrow> memory \<Rightarrow> store_error option \<times> memory" where
  "mem_MarkPublished i m =
    (case mark_published i (m_alerts m) of
       None \<Rightarrow> (Some ErrNotFound, m)
     | Some alerts \<Rightarrow> (None, m\<lparr>m_alerts := alerts\<rparr>))"

definition mem_MarkPublishFailed :: "string \<Rightarrow> string \<Rightarrow> memory \<Rightarrow> store_error option \<times> memory" where
  "mem_MarkPublishFailed i message m = (None, m)"

definition mem_Maintain :: "retention_policy \<Rightarrow> memory \<Rightarrow> maintenance_result \<times> memory" where
  "mem_Maintain policy m = (\<lparr>mr_InboxDeleted = 0, mr_AlertsDeleted = 0\<rparr>, m)"

definition mem_OperationalStats :: "memory \<Rightarrow> operational_stats" where
  "mem_OperationalStats m =
     \<lparr>ost_PendingOutbox = int (length (filter (\<lambda>a. alr_PublishStatus a = ''pending'') (m_alerts m))),
      ost_OldestOutboxAge = 0\<rparr>"

section \<open>Partition leases\<close>

definition mem_AcquirePartitions :: "string \<Rightarrow> int list \<Rightarrow> memory \<Rightarrow> bool \<times> memory" where
  "mem_AcquirePartitions owner partitions m =
    (if list_ex (\<lambda>p. get_or '''' (m_leases m) p \<noteq> '''' \<and> get_or '''' (m_leases m) p \<noteq> owner) partitions
     then (False, m)
     else (True, m\<lparr>m_leases := foldl (\<lambda>l p. l(p \<mapsto> owner)) (m_leases m) partitions\<rparr>))"

definition mem_RenewPartitions :: "string \<Rightarrow> int list \<Rightarrow> memory \<Rightarrow> bool \<times> memory" where
  "mem_RenewPartitions owner partitions m = mem_AcquirePartitions owner partitions m"

definition mem_ReleasePartitions :: "string \<Rightarrow> memory \<Rightarrow> memory" where
  "mem_ReleasePartitions owner m =
     m\<lparr>m_leases := (\<lambda>p. if m_leases m p = Some owner then None else m_leases m p)\<rparr>"

section \<open>The repository\<close>

definition memory_repository :: "memory repository" where
  "memory_repository =
    \<lparr>repo_Ping = (\<lambda>m. True),
     repo_CreateDefinition = (\<lambda>d m. case mem_CreateDefinition d m of (r, m') \<Rightarrow> (Inr r, m')),
     repo_ListDefinitions = (\<lambda>now m. Inr (mem_ListDefinitions now m)),
     repo_SetEnabled = mem_SetEnabled,
     repo_ArchiveDefinition = (\<lambda>now. mem_ArchiveDefinition),
     repo_ApplyObservation = mem_ApplyObservation,
     repo_LoadRuntimeStates = (\<lambda>partitions m. Inr (mem_LoadRuntimeStates m)),
     repo_CommitRuntimeBatch = mem_CommitRuntimeBatch,
     repo_ListAlerts = (\<lambda>after limit m. Inr (mem_ListAlerts after limit m)),
     repo_ClaimPending = (\<lambda>limit m. (Inr (mem_ClaimPending limit m), m)),
     repo_MarkPublished = mem_MarkPublished,
     repo_MarkPublishFailed = mem_MarkPublishFailed,
     repo_Maintain = (\<lambda>policy m. case mem_Maintain policy m of (r, m') \<Rightarrow> (Inr r, m')),
     repo_AcquirePartitions = (\<lambda>owner ps ttl m. case mem_AcquirePartitions owner ps m of (ok, m') \<Rightarrow> (Inr ok, m')),
     repo_RenewPartitions = (\<lambda>owner ps ttl m. case mem_RenewPartitions owner ps m of (ok, m') \<Rightarrow> (Inr ok, m')),
     repo_ReleasePartitions = (\<lambda>owner m. (None, mem_ReleasePartitions owner m)),
     repo_OperationalStats = (\<lambda>m. Inr (mem_OperationalStats m))\<rparr>"

section \<open>The contracts\<close>

interpretation mem_checkpoint: checkpoint_store mem_CommitRuntimeBatch mem_LoadRuntimeStates "\<lambda>s. s" "\<lambda>m. True" UNIV
proof
  fix b m created m' e
  show "mem_CommitRuntimeBatch b m = (Inr created, m') \<Longrightarrow>
        mem_LoadRuntimeStates m' = checkpointed (stored_batch (\<lambda>s. s) b) (mem_LoadRuntimeStates m) \<and> True"
    by (auto simp: mem_CommitRuntimeBatch_def mem_LoadRuntimeStates_def checkpointed_def stored_batch_def
        definitionSeriesKey_store option.map_ident Let_def split: prod.splits)
  show "mem_CommitRuntimeBatch b m = (Inl e, m') \<Longrightarrow> mem_LoadRuntimeStates m' = mem_LoadRuntimeStates m \<and> True"
    by (simp add: mem_CommitRuntimeBatch_def Let_def split: prod.splits)
qed

definition mem_holds :: "memory \<Rightarrow> string \<Rightarrow> int \<Rightarrow> bool" where
  "mem_holds m owner p \<longleftrightarrow> m_leases m p = Some owner \<and> owner \<noteq> ''''"

lemma foldl_lease: "foldl (\<lambda>l p. l(p \<mapsto> owner)) l ps p = (if p \<in> set ps then Some owner else l p)"
  by (induction ps arbitrary: l) auto

interpretation mem_lease: lease_store mem_AcquirePartitions mem_ReleasePartitions mem_holds
proof
  fix a b :: string and ps p and m m' :: memory
  show "mem_holds m a p \<Longrightarrow> mem_holds m b p \<Longrightarrow> a = b"
    by (simp add: mem_holds_def)
  show "mem_AcquirePartitions a ps m = (False, m') \<Longrightarrow> m' = m"
    by (auto simp: mem_AcquirePartitions_def split: if_splits)
  show "a \<noteq> '''' \<Longrightarrow> mem_AcquirePartitions a ps m = (True, m') \<Longrightarrow> p \<in> set ps \<Longrightarrow> mem_holds m' a p"
    by (auto simp: mem_AcquirePartitions_def mem_holds_def foldl_lease split: if_splits)
  show "mem_AcquirePartitions a ps m = (True, m') \<Longrightarrow> p \<in> set ps \<Longrightarrow> mem_holds m b p \<Longrightarrow> b = a"
    by (auto simp: mem_AcquirePartitions_def mem_holds_def list_ex_iff split: if_splits)
  show "mem_AcquirePartitions a ps m = (True, m') \<Longrightarrow> p \<notin> set ps \<Longrightarrow> mem_holds m' b p = mem_holds m b p"
    by (auto simp: mem_AcquirePartitions_def mem_holds_def foldl_lease split: if_splits)
  show "\<not> mem_holds (mem_ReleasePartitions a m) a p"
    by (simp add: mem_ReleasePartitions_def mem_holds_def)
  show "b \<noteq> a \<Longrightarrow> mem_holds (mem_ReleasePartitions a m) b p = mem_holds m b p"
    by (simp add: mem_ReleasePartitions_def mem_holds_def)
qed

text \<open>
  Partition leases of the memory store exclude a second owner: while a worker holds a partition,
  an acquisition by any other worker that asks for it is refused and leaves the store as it was.
\<close>

theorem memory_lease_excludes:
  assumes "mem_holds m b p" and "p \<in> set ps" and "a \<noteq> b"
  shows "mem_AcquirePartitions a ps m = (False, m) \<and> mem_RenewPartitions a ps m = (False, m)"
  using mem_lease.acquire_excluded [OF assms] by (simp add: mem_RenewPartitions_def)

theorem memory_lease_excludes_witness:
  "\<exists>m. mem_AcquirePartitions ''one'' [1, 3, 5] NewMemory = (True, m) \<and>
       mem_AcquirePartitions ''two'' [3] m = (False, m)"
proof -
  obtain m where m: "mem_AcquirePartitions ''one'' [1, 3, 5] NewMemory = (True, m)"
    by (simp add: mem_AcquirePartitions_def NewMemory_def)
  have "mem_holds m ''one'' 3" using mem_lease.acquire_holds [OF _ m] by simp
  then show ?thesis using memory_lease_excludes [of m "''one''" 3 "[3]" "''two''"] m by auto
qed

section \<open>The alert log\<close>

text \<open>Cursors are the positions in the log, counted from one.\<close>

definition cursors_ok :: "alert list \<Rightarrow> bool" where
  "cursors_ok as \<longleftrightarrow> map alr_Cursor as = map (\<lambda>i. int i + 1) [0..<length as]"

definition alert_ids :: "alert list \<Rightarrow> string list" where
  "alert_ids as = map alr_ID as"

definition log_ok :: "memory \<Rightarrow> bool" where
  "log_ok m \<longleftrightarrow> cursors_ok (m_alerts m) \<and> distinct (alert_ids (m_alerts m))"

lemma cursors_ok_snoc: "cursors_ok as \<Longrightarrow> alr_Cursor a = int (length as) + 1 \<Longrightarrow> cursors_ok (as @ [a])"
  by (simp add: cursors_ok_def)

lemma add_alert_cases:
  "add_alert (as, cs) a =
     (if alr_ID a \<in> set (alert_ids as) then (as, cs)
      else (as @ [a\<lparr>alr_Cursor := int (length as) + 1\<rparr>], cs @ [a\<lparr>alr_Cursor := int (length as) + 1\<rparr>]))"
proof -
  have "list_ex (\<lambda>existing. alr_ID existing = alr_ID a) as \<longleftrightarrow> alr_ID a \<in> set (alert_ids as)"
    by (induction as) (auto simp: alert_ids_def)
  then show ?thesis by (simp add: add_alert_def Let_def)
qed

lemma foldl_add_alert_ok:
  "cursors_ok as \<Longrightarrow> distinct (alert_ids as) \<Longrightarrow> foldl add_alert (as, cs) xs = (as', cs') \<Longrightarrow>
   cursors_ok as' \<and> distinct (alert_ids as')"
proof (induction xs arbitrary: as cs)
  case Nil
  then show ?case by simp
next
  case (Cons x xs)
  show ?case
  proof (cases "alr_ID x \<in> set (alert_ids as)")
    case True
    with Cons show ?thesis by (simp add: add_alert_cases)
  next
    case False
    with Cons.prems Cons.IH [of "as @ [x\<lparr>alr_Cursor := int (length as) + 1\<rparr>]"] show ?thesis
      by (simp add: add_alert_cases cursors_ok_snoc alert_ids_def)
  qed
qed

text \<open>What a commit adds: the log grows by the created alerts and ends up covering every alert of the batch.\<close>

lemma foldl_add_alert_grows:
  "foldl add_alert (as, cs) xs = (as', cs') \<Longrightarrow>
   \<exists>new. as' = as @ new \<and> cs' = cs @ new \<and> set (alert_ids as') = set (alert_ids as) \<union> set (alert_ids xs)"
proof (induction xs arbitrary: as cs)
  case Nil
  then show ?case by (simp add: alert_ids_def)
next
  case (Cons x xs)
  show ?case
  proof (cases "alr_ID x \<in> set (alert_ids as)")
    case True
    with Cons.prems Cons.IH [of as cs] show ?thesis by (auto simp: add_alert_cases alert_ids_def)
  next
    case False
    with Cons.prems Cons.IH [of "as @ [x\<lparr>alr_Cursor := int (length as) + 1\<rparr>]" "cs @ [x\<lparr>alr_Cursor := int (length as) + 1\<rparr>]"]
    show ?thesis by (fastforce simp: add_alert_cases alert_ids_def)
  qed
qed

lemma foldl_add_alert_known:
  "set (alert_ids xs) \<subseteq> set (alert_ids as) \<Longrightarrow> foldl add_alert (as, cs) xs = (as, cs)"
  by (induction xs) (auto simp: add_alert_cases alert_ids_def)

lemma log_ok_commit: "log_ok m \<Longrightarrow> mem_CommitRuntimeBatch b m = (res, m') \<Longrightarrow> log_ok m'"
  using foldl_add_alert_ok [of "m_alerts m" "[]" "rb_Alerts b"]
  by (auto simp: mem_CommitRuntimeBatch_def log_ok_def Let_def split: prod.splits)

lemma mark_published_frame:
  "mark_published i as = Some as' \<Longrightarrow> map alr_ID as' = map alr_ID as \<and> map alr_Cursor as' = map alr_Cursor as"
  by (induction as arbitrary: as') (auto split: if_splits)

lemma log_ok_publish: "log_ok m \<Longrightarrow> mem_MarkPublished i m = (res, m') \<Longrightarrow> log_ok m'"
  by (auto simp: mem_MarkPublished_def log_ok_def cursors_ok_def alert_ids_def split: option.splits
      dest!: mark_published_frame) (metis length_map)

text \<open>
  Committing a batch makes its alerts durable once: afterwards the log is the old log followed by
  the alerts reported as created, every alert of the batch is in the log under its ID, identities stay
  distinct and cursors stay the positions of the log; committing the same batch again creates nothing.
\<close>

theorem memory_commit_alerts_once:
  assumes "log_ok m" and "mem_CommitRuntimeBatch b m = (Inr created, m')"
  shows "m_alerts m' = m_alerts m @ created \<and> log_ok m' \<and>
         set (alert_ids (rb_Alerts b)) \<subseteq> set (alert_ids (m_alerts m')) \<and>
         (\<exists>m''. mem_CommitRuntimeBatch b m' = (Inr [], m'') \<and> m_alerts m'' = m_alerts m')"
proof -
  obtain as cs where f: "foldl add_alert (m_alerts m, []) (rb_Alerts b) = (as, cs)" by fastforce
  with assms(2) have as: "m_alerts m' = as" and cs: "created = cs"
    by (auto simp: mem_CommitRuntimeBatch_def)
  from foldl_add_alert_grows [OF f] have grow: "as = m_alerts m @ cs"
    and ids: "set (alert_ids (rb_Alerts b)) \<subseteq> set (alert_ids as)" by auto
  have "foldl add_alert (m_alerts m', []) (rb_Alerts b) = (m_alerts m', [])"
    using foldl_add_alert_known [OF ids] as by simp
  then have "\<exists>m''. mem_CommitRuntimeBatch b m' = (Inr [], m'') \<and> m_alerts m'' = m_alerts m'"
    by (auto simp: mem_CommitRuntimeBatch_def)
  with as cs grow ids log_ok_commit [OF assms] show ?thesis by simp
qed

definition empty_batch :: runtime_batch where
  "empty_batch = \<lparr>rb_PartitionID = 0, rb_Observations = [], rb_SeriesStates = Map.empty,
     rb_DefinitionStates = Map.empty, rb_ResetSeriesKeys = [], rb_Alerts = []\<rparr>"

definition sample_alert :: alert where
  "sample_alert = legacy_alert 0 legacy_sample zero_observation [] []"

lemma log_ok_NewMemory: "log_ok NewMemory"
  by (simp add: log_ok_def cursors_ok_def alert_ids_def NewMemory_def)

theorem memory_commit_alerts_once_witness:
  "\<exists>created m'. mem_CommitRuntimeBatch (empty_batch\<lparr>rb_Alerts := [sample_alert, sample_alert]\<rparr>) NewMemory = (Inr created, m')
     \<and> length created = 1 \<and> m_alerts m' = created"
proof -
  let ?b = "empty_batch\<lparr>rb_Alerts := [sample_alert, sample_alert]\<rparr>"
  obtain created m' where c: "mem_CommitRuntimeBatch ?b NewMemory = (Inr created, m')"
    by (fastforce simp: mem_CommitRuntimeBatch_def Let_def split: prod.splits)
  moreover from c have "length created = 1"
    by (auto simp: mem_CommitRuntimeBatch_def empty_batch_def NewMemory_def add_alert_cases alert_ids_def)
  moreover have "m_alerts m' = created"
    using memory_commit_alerts_once [OF log_ok_NewMemory c] by (simp add: NewMemory_def)
  ultimately show ?thesis by blast
qed

section \<open>Pages of the log\<close>

lemma take_matching_take:
  "int (length out) < limit \<Longrightarrow> take_matching p limit xs out = out @ take (nat limit - length out) (filter p xs)"
proof (induction xs arbitrary: out)
  case (Cons x xs)
  show ?case
  proof (cases "p x \<and> int (length (out @ [x])) \<noteq> limit")
    case True
    with Cons.prems have "int (length (out @ [x])) < limit" by simp
    moreover have "nat limit - length out = Suc (nat limit - Suc (length out))" using Cons.prems by simp
    ultimately show ?thesis using Cons.IH True by simp
  next
    case False
    then show ?thesis
    proof (cases "p x")
      case True
      with False have "limit = int (length out) + 1" by simp
      with True show ?thesis by (simp add: nat_add_distrib)
    qed (use Cons in simp)
  qed
qed simp

lemma take_matching_empty: "0 < limit \<Longrightarrow> take_matching p limit xs [] = take (nat limit) (filter p xs)"
  using take_matching_take [of "[]" limit p xs] by simp

lemma cursors_ok_filter:
  "cursors_ok as \<Longrightarrow> 0 \<le> after \<Longrightarrow> filter (\<lambda>a. alr_Cursor a > after) as = drop (nat after) as"
proof (induction as rule: rev_induct)
  case (snoc a as)
  from snoc.prems(1) have "cursors_ok as" and c: "alr_Cursor a = int (length as) + 1" by (simp_all add: cursors_ok_def)
  with snoc show ?case by (cases "nat after \<le> length as") (auto simp: nat_le_iff)
qed simp

text \<open>
  Reading the log by cursor loses and repeats nothing: a page after cursor \<open>after\<close> is the segment of the log
  that follows its first \<open>after\<close> alerts, cut at the limit, so a client that continues from the last cursor it
  saw walks through the log in order.
\<close>

theorem memory_pages_follow_cursor:
  assumes "log_ok m" and "0 \<le> after" and "0 < limit"
  shows "mem_ListAlerts after limit m = take (nat limit) (drop (nat after) (m_alerts m))"
  using assms by (simp add: mem_ListAlerts_def take_matching_empty cursors_ok_filter log_ok_def)

theorem memory_pages_follow_cursor_witness:
  "\<exists>m. log_ok m \<and> length (m_alerts m) = 1 \<and> mem_ListAlerts 0 10 m = m_alerts m \<and> mem_ListAlerts 1 10 m = []"
proof -
  let ?m = "NewMemory\<lparr>m_alerts := [sample_alert\<lparr>alr_Cursor := 1\<rparr>]\<rparr>"
  have "log_ok ?m" by (simp add: log_ok_def cursors_ok_def alert_ids_def NewMemory_def)
  with memory_pages_follow_cursor [OF this, of 0 10] memory_pages_follow_cursor [OF this, of 1 10] show ?thesis
    by (intro exI [of _ ?m]) (simp add: NewMemory_def)
qed

section \<open>Definitions by hash\<close>

text \<open>A definition whose hash is new is not marked as archived.\<close>

definition fresh_ids_ok :: "alert_definition \<Rightarrow> memory \<Rightarrow> bool" where
  "fresh_ids_ok d m \<longleftrightarrow> (m_byHash m (dfn_DefinitionHash d) = None \<longrightarrow> \<not> is_archived m (dfn_ID d))"

lemma create_again:
  assumes "mem_CreateDefinition d m = ((d1, created), m1)" and "fresh_ids_ok d m"
    and "dfn_DefinitionHash d' = dfn_DefinitionHash d"
  shows "mem_CreateDefinition d' m1 = ((d1, False), m1)"
  using assms
  by (auto simp: mem_CreateDefinition_def fresh_ids_ok_def is_archived_def update_conv' get_or_def
      split: option.splits if_splits)

end
