(* ===== verification/Postgres.thy ===== *)
theory Postgres
  imports Memory
begin

text \<open>
  \<open>internal/store/postgres.go\<close>: the repository over PostgreSQL. The tables are lists of rows and maps over
  their primary keys, and every statement of the source is the function it computes on them: filters and orders, the
  conflict clauses, the constraints of the migrations (keys, checks, foreign keys, widths of integers). \<open>now\<close> is
  \<open>now()\<close> of the transaction. What belongs to the driver and the server is the parameter \<open>drv\<close>: the error a
  statement may end with, the canonical text of a UUID, the order in which a claim returns its rows. A transaction
  either commits or leaves the tables as they were. A value stored as JSON comes back as it was, except that an
  empty map of indicators is omitted and comes back as nil; a column of type \<open>timestamptz\<close> keeps microseconds.
\<close>

section \<open>Tables\<close>

record pg_definition_row =
  pd_definition :: alert_definition
  pd_archived_at :: "go_time option"

record pg_inbox_row =
  pi_source_event_id :: string
  pi_payload :: observation
  pi_received_at :: go_time

record pg_event_row =
  pe_id :: string
  pe_cursor :: int
  pe_definition_id :: string
  pe_source_event_id :: string
  pe_series_key :: string
  pe_triggered_at :: go_time

record pg_outbox_row =
  po_cursor :: int
  po_alert_id :: string
  po_payload :: alert
  po_attempts :: int
  po_next_attempt_at :: go_time
  po_locked_at :: "go_time option"
  po_published_at :: "go_time option"
  po_last_error :: "string option"
  po_created_at :: go_time

record pg_lease_row =
  pl_owner_id :: string
  pl_expires_at :: go_time

text \<open>The runtime states carry the partition that wrote them, \<open>None\<close> in rows older than that column.\<close>

record pg =
  pg_definitions :: "pg_definition_row list"
  pg_inbox :: "pg_inbox_row list"
  pg_rule_state :: "((string \<times> string) \<times> evaluation_state) list"
  pg_series :: "string \<rightharpoonup> int option \<times> series_evaluation_state"
  pg_definition_states :: "string \<times> string \<rightharpoonup> int option \<times> definition_evaluation_state"
  pg_events :: "pg_event_row list"
  pg_outbox :: "pg_outbox_row list"
  pg_leases :: "int \<rightharpoonup> pg_lease_row"
  pg_event_seq :: int
  pg_outbox_seq :: int

datatype statement =
    Stmt_Create | Stmt_List | Stmt_SetEnabled | Stmt_Archive
  | Stmt_Begin | Stmt_Inbox | Stmt_Definitions | Stmt_Rule_State | Stmt_Commit
  | Stmt_Load_Series | Stmt_Load_Definitions | Stmt_Load_Legacy
  | Stmt_Series | Stmt_Reset | Stmt_Definition_States | Stmt_Events | Stmt_Outbox
  | Stmt_Alerts | Stmt_Claim | Stmt_Published | Stmt_Failed | Stmt_Expire_Alerts | Stmt_Expire_Inbox
  | Stmt_Acquire | Stmt_Renew | Stmt_Release | Stmt_Stats | Stmt_Ping

record driver =
  drv_fault :: "statement \<Rightarrow> string option"
  drv_uuid :: "string \<Rightarrow> string option"
  drv_order :: "pg_outbox_row list \<Rightarrow> pg_outbox_row list"

section \<open>Statements and transactions\<close>

type_synonym 'a outcome = "store_error + 'a \<times> pg"

definition pg_fail :: "string \<Rightarrow> 'a outcome" where
  "pg_fail e = Inl (StoreFailure e)"

text \<open>A statement: the driver's error, or what the statement computes.\<close>

definition exec :: "driver \<Rightarrow> statement \<Rightarrow> 'a outcome \<Rightarrow> 'a outcome" where
  "exec drv st r = (case drv_fault drv st of Some e \<Rightarrow> pg_fail e | None \<Rightarrow> r)"

definition pg_then :: "'a outcome \<Rightarrow> ('a \<Rightarrow> pg \<Rightarrow> 'b outcome) \<Rightarrow> 'b outcome" where
  "pg_then r k = (case r of Inl e \<Rightarrow> Inl e | Inr (x, s) \<Rightarrow> k x s)"

text \<open>A transaction (or a single statement) keeps its changes only when it succeeds.\<close>

definition settle :: "pg \<Rightarrow> 'a outcome \<Rightarrow> (store_error + 'a) \<times> pg" where
  "settle s r = (case r of Inl e \<Rightarrow> (Inl e, s) | Inr (x, s') \<Rightarrow> (Inr x, s'))"

lemma pg_then_simps [simp]: "pg_then (Inl e) k = Inl e" "pg_then (Inr (x, s)) k = k x s"
  by (simp_all add: pg_then_def)

lemma pg_then_Inr: "pg_then r k = Inr (y, s') \<longleftrightarrow> (\<exists>x s. r = Inr (x, s) \<and> k x s = Inr (y, s'))"
  by (auto simp: pg_then_def split: sum.splits prod.splits)

lemma exec_Inr: "exec drv st r = Inr x \<longleftrightarrow> drv_fault drv st = None \<and> r = Inr x"
  by (auto simp: exec_def pg_fail_def split: option.splits)

lemma settle_Inr: "settle s r = (Inr x, s') \<longleftrightarrow> r = Inr (x, s')"
  by (auto simp: settle_def split: sum.splits prod.splits)

lemma settle_Inl: "settle s r = (Inl e, s') \<longleftrightarrow> r = Inl e \<and> s' = s"
  by (auto simp: settle_def split: sum.splits prod.splits)

definition pg_time :: "go_time \<Rightarrow> go_time" where
  "pg_time t = t div microsecond * microsecond"

definition int4_ok :: "int \<Rightarrow> bool" where
  "int4_ok n \<longleftrightarrow> - (2 ^ 31) \<le> n \<and> n < 2 ^ 31"

definition smallint :: "int \<Rightarrow> int" where
  "smallint p = signed_take_bit 15 p"

definition smallintPartitions :: "int list \<Rightarrow> int list" where
  "smallintPartitions partitions = map smallint partitions"

section \<open>Definitions\<close>

text \<open>\<open>json.Marshal\<close> of a rule fails on a threshold that is not finite.\<close>

function rule_marshals :: "rule \<Rightarrow> bool" where
  "rule_marshals r \<longleftrightarrow> f_finite (r_DistanceBps r) \<and> f_finite (r_MinElapsedPercent r) \<and>
     list_all rule_marshals (r_Rules r) \<and> (case r_Rule r of None \<Rightarrow> True | Some c \<Rightarrow> rule_marshals c)"
  by pat_completeness auto
termination by (relation "measure size") auto

declare rule_marshals.simps [simp del]

definition definition_checks :: "alert_definition \<Rightarrow> bool" where
  "definition_checks d \<longleftrightarrow>
     dfn_EvaluationMode d \<in> {''confirmed_close'', ''intrabar'', ''both''} \<and>
     dfn_TriggerMode d \<in> {''on_occurrence'', ''once_per_bar'', ''every_match''} \<and>
     int4_ok (dfn_Version d) \<and> int4_ok (dfn_CooldownSeconds d) \<and> 0 \<le> dfn_CooldownSeconds d"

definition live_row :: "pg_definition_row \<Rightarrow> bool" where
  "live_row r \<longleftrightarrow> pd_archived_at r = None"

text \<open>The row after \<open>ON CONFLICT(definition_hash) DO UPDATE\<close>.\<close>

definition revive :: "alert_definition \<Rightarrow> pg_definition_row \<Rightarrow> pg_definition_row" where
  "revive d r =
    (let old = pd_definition r; keep = dfn_Enabled old \<and> live_row r
     in \<lparr>pd_definition = old\<lparr>dfn_Enabled := True,
            dfn_UpdatedAt := (if keep then dfn_UpdatedAt old else pg_time (dfn_CreatedAt d)),
            dfn_EffectiveAt := (if keep then dfn_EffectiveAt old else pg_time (dfn_EffectiveAt d))\<rparr>,
          pd_archived_at = None\<rparr>)"

definition new_row :: "string \<Rightarrow> alert_definition \<Rightarrow> pg_definition_row" where
  "new_row i d =
     \<lparr>pd_definition = d\<lparr>dfn_ID := i, dfn_CreatedAt := pg_time (dfn_CreatedAt d),
        dfn_UpdatedAt := pg_time (dfn_CreatedAt d), dfn_EffectiveAt := pg_time (dfn_EffectiveAt d)\<rparr>,
      pd_archived_at = None\<rparr>"

definition has_hash :: "string \<Rightarrow> pg_definition_row \<Rightarrow> bool" where
  "has_hash h r \<longleftrightarrow> dfn_DefinitionHash (pd_definition r) = h"

definition has_id :: "string \<Rightarrow> pg_definition_row \<Rightarrow> bool" where
  "has_id i r \<longleftrightarrow> dfn_ID (pd_definition r) = i"

definition pg_CreateDefinition ::
  "driver \<Rightarrow> alert_definition \<Rightarrow> pg \<Rightarrow> (store_error + alert_definition \<times> bool) \<times> pg" where
  "pg_CreateDefinition drv d s =
    settle s
     (if \<not> rule_marshals (dfn_Rule d) then pg_fail ''json''
      else exec drv Stmt_Create
       (case drv_uuid drv (dfn_ID d) of
          None \<Rightarrow> pg_fail ''uuid''
        | Some i \<Rightarrow>
           if \<not> definition_checks d then pg_fail ''check''
           else (case find (has_hash (dfn_DefinitionHash d)) (pg_definitions s) of
              Some r \<Rightarrow>
                Inr ((pd_definition (revive d r), False),
                     s\<lparr>pg_definitions :=
                       map (\<lambda>r. if has_hash (dfn_DefinitionHash d) r then revive d r else r) (pg_definitions s)\<rparr>)
            | None \<Rightarrow>
                if list_ex (has_id i) (pg_definitions s) then pg_fail ''alert_definitions_pkey''
                else Inr ((pd_definition (new_row i d), True),
                          s\<lparr>pg_definitions := pg_definitions s @ [new_row i d]\<rparr>))))"

definition by_creation :: "alert_definition \<Rightarrow> go_time \<times> string" where
  "by_creation d = (dfn_CreatedAt d, dfn_ID d)"

definition pg_ListDefinitions :: "driver \<Rightarrow> go_time \<Rightarrow> pg \<Rightarrow> store_error + alert_definition list" where
  "pg_ListDefinitions drv now s =
    fst (settle s (exec drv Stmt_List
      (Inr (sort_key by_creation (map pd_definition
         (filter (\<lambda>r. case pd_archived_at r of None \<Rightarrow> True | Some t \<Rightarrow> t > now) (pg_definitions s))), s))))"

definition switched :: "go_time \<Rightarrow> bool \<Rightarrow> go_time \<Rightarrow> pg_definition_row \<Rightarrow> pg_definition_row" where
  "switched now enabled effectiveAt r =
     r\<lparr>pd_definition := (pd_definition r)\<lparr>dfn_Enabled := enabled, dfn_UpdatedAt := now,
         dfn_EffectiveAt := pg_time effectiveAt\<rparr>\<rparr>"

definition pg_SetEnabled ::
  "driver \<Rightarrow> go_time \<Rightarrow> string \<Rightarrow> bool \<Rightarrow> go_time \<Rightarrow> pg \<Rightarrow> (store_error + alert_definition) \<times> pg" where
  "pg_SetEnabled drv now i enabled effectiveAt s =
    settle s (exec drv Stmt_SetEnabled
      (case drv_uuid drv i of
         None \<Rightarrow> pg_fail ''uuid''
       | Some j \<Rightarrow>
          (case find (\<lambda>r. has_id j r \<and> live_row r) (pg_definitions s) of
             None \<Rightarrow> Inl ErrNoRows
           | Some r \<Rightarrow>
               Inr (pd_definition (switched now enabled effectiveAt r),
                    s\<lparr>pg_definitions := map (\<lambda>r. if has_id j r \<and> live_row r then switched now enabled effectiveAt r else r)
                      (pg_definitions s)\<rparr>))))"

definition archived_row :: "go_time \<Rightarrow> go_time \<Rightarrow> pg_definition_row \<Rightarrow> pg_definition_row" where
  "archived_row now effectiveAt r =
     (switched now False effectiveAt r)\<lparr>pd_archived_at := Some (pg_time effectiveAt)\<rparr>"

definition pg_ArchiveDefinition ::
  "driver \<Rightarrow> go_time \<Rightarrow> string \<Rightarrow> go_time \<Rightarrow> pg \<Rightarrow> store_error option \<times> pg" where
  "pg_ArchiveDefinition drv now i effectiveAt s =
    (case settle s (exec drv Stmt_Archive
      (case drv_uuid drv i of
         None \<Rightarrow> pg_fail ''uuid''
       | Some j \<Rightarrow>
          Inr (length (filter (\<lambda>r. has_id j r \<and> live_row r) (pg_definitions s)),
               s\<lparr>pg_definitions := map (\<lambda>r. if has_id j r \<and> live_row r then archived_row now effectiveAt r else r)
                 (pg_definitions s)\<rparr>))) of
       (Inl e, s') \<Rightarrow> (Some e, s')
     | (Inr affected, s') \<Rightarrow> (if affected = 0 then Some ErrNotFound else None, s'))"

section \<open>Events\<close>

text \<open>\<open>INSERT INTO alert_inbox \<dots> ON CONFLICT DO NOTHING\<close>.\<close>

definition insert_inbox :: "go_time \<Rightarrow> pg \<Rightarrow> observation \<Rightarrow> pg" where
  "insert_inbox now s obs =
    (if list_ex (\<lambda>r. pi_source_event_id r = obs_SourceEventID obs) (pg_inbox s) then s
     else s\<lparr>pg_inbox := pg_inbox s @
            [\<lparr>pi_source_event_id = obs_SourceEventID obs, pi_payload = obs, pi_received_at = now\<rparr>]\<rparr>)"

definition same_event :: "string \<Rightarrow> string \<Rightarrow> pg_event_row \<Rightarrow> bool" where
  "same_event i source r \<longleftrightarrow> pe_definition_id r = i \<and> pe_source_event_id r = source"

text \<open>
  \<open>INSERT INTO alert_events \<dots> ON CONFLICT(definition_id,source_event_id) DO UPDATE SET id=alert_events.id RETURNING
  id,cursor\<close>, for one row: the keys and the references of the row are checked, a number is drawn from the sequence
  in any case.
\<close>

definition insert_event :: "alert \<Rightarrow> pg \<Rightarrow> (string \<times> int) outcome" where
  "insert_event a s =
    (let s1 = s\<lparr>pg_event_seq := pg_event_seq s + 1\<rparr>
     in if alr_Observation a = None \<or> \<not> int4_ok (alr_DefinitionVersion a) \<or> uint (alr_SourceRevision a) \<ge> 2 ^ 63
        then pg_fail ''column''
        else case find (same_event (alr_DefinitionID a) (alr_SourceEventID a)) (pg_events s) of
          Some r \<Rightarrow> Inr ((pe_id r, pe_cursor r), s1)
        | None \<Rightarrow>
            if list_ex (\<lambda>r. pe_id r = alr_ID a) (pg_events s) then pg_fail ''alert_events_pkey''
            else if \<not> list_ex (has_id (alr_DefinitionID a)) (pg_definitions s)
                 \<or> \<not> list_ex (\<lambda>r. pi_source_event_id r = alr_SourceEventID a) (pg_inbox s) then pg_fail ''foreign key''
            else Inr ((alr_ID a, pg_event_seq s1),
                      s1\<lparr>pg_events := pg_events s @
                        [\<lparr>pe_id = alr_ID a, pe_cursor = pg_event_seq s1, pe_definition_id = alr_DefinitionID a,
                          pe_source_event_id = alr_SourceEventID a, pe_series_key = series_Key (alr_Series a),
                          pe_triggered_at = pg_time (alr_TriggeredAt a)\<rparr>]\<rparr>))"

text \<open>\<open>INSERT INTO alert_event_outbox \<dots> ON CONFLICT(alert_id) DO NOTHING\<close>, for one row.\<close>

definition insert_outbox :: "go_time \<Rightarrow> alert \<Rightarrow> pg \<Rightarrow> unit outcome" where
  "insert_outbox now a s =
    (let s1 = s\<lparr>pg_outbox_seq := pg_outbox_seq s + 1\<rparr>
     in if list_ex (\<lambda>r. po_alert_id r = alr_ID a) (pg_outbox s) then Inr ((), s1)
        else if \<not> list_ex (\<lambda>r. pe_id r = alr_ID a) (pg_events s) then pg_fail ''foreign key''
        else Inr ((), s1\<lparr>pg_outbox := pg_outbox s @
               [\<lparr>po_cursor = pg_outbox_seq s1, po_alert_id = alr_ID a, po_payload = a, po_attempts = 0,
                 po_next_attempt_at = now, po_locked_at = None, po_published_at = None, po_last_error = None,
                 po_created_at = now\<rparr>]\<rparr>))"

section \<open>The older evaluation path\<close>

text \<open>What \<open>json.Unmarshal\<close> returns of a stored state: the field of an empty map was omitted.\<close>

definition stored_indicators :: "(string \<rightharpoonup> f64) option \<Rightarrow> (string \<rightharpoonup> f64) option" where
  "stored_indicators m = (if m = Some Map.empty then None else m)"

definition stored_evaluation :: "evaluation_state \<Rightarrow> evaluation_state" where
  "stored_evaluation s = s\<lparr>es_Indicators := stored_indicators (es_Indicators s)\<rparr>"

definition series_definitions :: "observation \<Rightarrow> pg \<Rightarrow> alert_definition list" where
  "series_definitions obs s =
     sort_key dfn_ID (map pd_definition (filter (\<lambda>r. let d = pd_definition r in
       dfn_Enabled d \<and> live_row r \<and> ser_Symbol (dfn_Series d) = ser_Symbol (obs_Series obs) \<and>
       ser_Timeframe (dfn_Series d) = ser_Timeframe (obs_Series obs) \<and>
       (ser_Dataset (dfn_Series d) = '''' \<or> ser_Dataset (dfn_Series d) = ser_Dataset (obs_Series obs)) \<and>
       dfn_CreatedAt d \<le> pg_time (obs_OccurredAt obs)) (pg_definitions s)))"

text \<open>The body of the loop over the definitions; \<open>None\<close> is a panic of the evaluator.\<close>

definition pg_apply_one ::
  "driver \<Rightarrow> go_time \<Rightarrow> go_time \<Rightarrow> observation \<Rightarrow> alert_definition \<Rightarrow> alert list \<times> pg \<Rightarrow> (store_error + alert list \<times> pg) option" where
  "pg_apply_one drv now wall obs d cs =
    (let (created, s) = cs; key = series_Key (obs_Series obs)
     in if \<not> acceptsMode (dfn_EvaluationMode d) (obs_Status obs) then Some (Inr (created, s))
        else case drv_fault drv Stmt_Rule_State of
          Some e \<Rightarrow> Some (pg_fail e)
        | None \<Rightarrow>
           (let s1 = (if map_of (pg_rule_state s) (dfn_ID d, key) = None
                      then s\<lparr>pg_rule_state := pg_rule_state s @ [((dfn_ID d, key), zero_evaluation_state)]\<rparr> else s)
            in case apply_definition wall d obs (get_or zero_evaluation_state (map_of (pg_rule_state s1)) (dfn_ID d, key)) of
                 None \<Rightarrow> None
               | Some (state, alert, accepted) \<Rightarrow>
                   if \<not> accepted then Some (Inr (created, s1))
                   else let s2 = s1\<lparr>pg_rule_state := AList.update (dfn_ID d, key) (stored_evaluation state) (pg_rule_state s1)\<rparr>
                        in case alert of
                             None \<Rightarrow> Some (Inr (created, s2))
                           | Some a \<Rightarrow>
                               let a1 = a\<lparr>alr_Observation := marshal_observation obs\<rparr>
                               in Some (pg_then (exec drv Stmt_Events (insert_event a1 s2)) (\<lambda>(_, cursor) s3.
                                    let a2 = a1\<lparr>alr_Cursor := cursor\<rparr>
                                    in pg_then (exec drv Stmt_Outbox (insert_outbox now a2 s3)) (\<lambda>_ s4. Inr (created @ [a2], s4))))))"

fun pg_apply_all ::
  "driver \<Rightarrow> go_time \<Rightarrow> go_time \<Rightarrow> observation \<Rightarrow> alert_definition list \<Rightarrow> alert list \<times> pg \<Rightarrow> (store_error + alert list \<times> pg) option" where
  "pg_apply_all drv now wall obs [] cs = Some (Inr cs)"
| "pg_apply_all drv now wall obs (d # ds) cs =
    (case pg_apply_one drv now wall obs d cs of
       None \<Rightarrow> None
     | Some (Inl e) \<Rightarrow> Some (Inl e)
     | Some (Inr cs') \<Rightarrow> pg_apply_all drv now wall obs ds cs')"

definition pg_ApplyObservation ::
  "driver \<Rightarrow> go_time \<Rightarrow> go_time \<Rightarrow> observation \<Rightarrow> pg \<Rightarrow> ((store_error + alert list) \<times> pg) option" where
  "pg_ApplyObservation drv now wall obs s =
    (if marshal_observation obs = None then Some (Inl (StoreFailure ''json''), s)
     else case (drv_fault drv Stmt_Begin, drv_fault drv Stmt_Inbox) of
       (Some e, _) \<Rightarrow> Some (Inl (StoreFailure e), s)
     | (None, Some e) \<Rightarrow> Some (Inl (StoreFailure e), s)
     | (None, None) \<Rightarrow>
        if list_ex (\<lambda>r. pi_source_event_id r = obs_SourceEventID obs) (pg_inbox s)
        then Some (settle s (exec drv Stmt_Commit (Inr ([], s))))
        else let s1 = insert_inbox now s obs
             in (case drv_fault drv Stmt_Definitions of
                   Some e \<Rightarrow> Some (Inl (StoreFailure e), s)
                 | None \<Rightarrow>
                    map_option (\<lambda>r. settle s (pg_then r (\<lambda>created s2. exec drv Stmt_Commit (Inr (created, s2)))))
                      (pg_apply_all drv now wall obs (series_definitions obs s1) ([], s1))))"

section \<open>Checkpoints\<close>

definition stored_feature :: "feature_state \<Rightarrow> feature_state" where
  "stored_feature f = f\<lparr>fs_Indicators := stored_indicators (fs_Indicators f)\<rparr>"

definition stored_series :: "series_evaluation_state \<Rightarrow> series_evaluation_state" where
  "stored_series s = s\<lparr>ss_Confirmed := stored_feature (ss_Confirmed s), ss_Intrabar := stored_feature (ss_Intrabar s)\<rparr>"

definition visible :: "int list \<Rightarrow> int option \<Rightarrow> bool" where
  "visible ids p \<longleftrightarrow> (case p of None \<Rightarrow> True | Some q \<Rightarrow> q \<in> set ids)"

definition visible_series :: "int list \<Rightarrow> pg \<Rightarrow> string \<rightharpoonup> series_evaluation_state" where
  "visible_series ids s = (\<lambda>k. case pg_series s k of None \<Rightarrow> None | Some (p, st) \<Rightarrow> if visible ids p then Some st else None)"

definition visible_definitions :: "int list \<Rightarrow> pg \<Rightarrow> string \<rightharpoonup> definition_evaluation_state" where
  "visible_definitions ids s =
    (\<lambda>k. case cut CHR ''|'' k of
       None \<Rightarrow> None
     | Some ik \<Rightarrow> (case pg_definition_states s ik of None \<Rightarrow> None | Some (p, st) \<Rightarrow> if visible ids p then Some st else None))"

text \<open>The bootstrap from the states of the older path, for one row of the join.\<close>

definition bootstrap_row :: "runtime_snapshot \<Rightarrow> string \<times> string \<times> evaluation_state \<times> string \<Rightarrow> runtime_snapshot" where
  "bootstrap_row snap row =
    (let (i, seriesKey, legacy, mode) = row;
         d0 = zero_definition_state\<lparr>ds_LastTriggerAt := es_LastTriggerAt legacy, ds_LastAlertBar := es_LastAlertBar legacy\<rparr>;
         d = (if mode = ''intrabar'' then d0\<lparr>ds_LastTruthIntrabar := es_LastTruth legacy\<rparr>
              else d0\<lparr>ds_LastTruthConfirmed := es_LastTruth legacy\<rparr>);
         current = get_or zero_series_state (snap_Series snap) seriesKey;
         feature = zero_feature\<lparr>fs_LastClose := es_LastClose legacy, fs_Indicators := es_Indicators legacy,
           fs_CandleColors := es_CandleColors legacy, fs_FormingBar := es_FormingBar legacy, fs_FormingColor := es_FormingColor legacy\<rparr>
     in \<lparr>snap_Series =
           (if is_zero (ss_LastOpenTime current) \<or> es_LastOpenTime legacy > ss_LastOpenTime current
               \<or> (es_LastOpenTime legacy = ss_LastOpenTime current \<and> es_LastRevision legacy \<ge> ss_LastRevision current)
            then (snap_Series snap)(seriesKey \<mapsto> zero_series_state\<lparr>ss_LastOpenTime := es_LastOpenTime legacy,
                    ss_LastRevision := es_LastRevision legacy, ss_LastStatus := es_LastStatus legacy,
                    ss_Confirmed := feature, ss_Intrabar := feature\<rparr>)
            else snap_Series snap),
         snap_Definitions = (snap_Definitions snap)(DefinitionStateKey i seriesKey \<mapsto> d)\<rparr>)"

definition legacy_rows :: "pg \<Rightarrow> (string \<times> string \<times> evaluation_state \<times> string) list" where
  "legacy_rows s = concat (map (\<lambda>((i, key), state).
     map (\<lambda>r. (i, key, state, dfn_EvaluationMode (pd_definition r))) (filter (has_id i) (pg_definitions s))) (pg_rule_state s))"

definition pg_LoadRuntimeStates :: "driver \<Rightarrow> int list \<Rightarrow> pg \<Rightarrow> store_error + runtime_snapshot" where
  "pg_LoadRuntimeStates drv owned s =
    (let ids = smallintPartitions owned;
         snap = \<lparr>snap_Series = visible_series ids s, snap_Definitions = visible_definitions ids s\<rparr>
     in case (drv_fault drv Stmt_Load_Series, drv_fault drv Stmt_Load_Definitions) of
          (Some e, _) \<Rightarrow> Inl (StoreFailure e)
        | (None, Some e) \<Rightarrow> Inl (StoreFailure e)
        | (None, None) \<Rightarrow>
           if snap_Series snap \<noteq> Map.empty then Inr snap
           else (case drv_fault drv Stmt_Load_Legacy of
                   Some e \<Rightarrow> Inl (StoreFailure e)
                 | None \<Rightarrow> Inr (foldl bootstrap_row snap (legacy_rows s))))"

section \<open>CommitRuntimeBatch\<close>

definition feature_marshals :: "feature_state \<Rightarrow> bool" where
  "feature_marshals f \<longleftrightarrow> (case fs_LastClose f of None \<Rightarrow> True | Some v \<Rightarrow> f_finite v) \<and>
     (case fs_Indicators f of None \<Rightarrow> True | Some m \<Rightarrow> \<forall>v \<in> ran m. f_finite v) \<and>
     list_all json_candle_ok (fs_Candles f) \<and> json_time_ok (fs_FormingBar f)"

definition series_marshals :: "series_evaluation_state \<Rightarrow> bool" where
  "series_marshals s \<longleftrightarrow> json_time_ok (ss_LastOpenTime s) \<and> json_time_ok (ss_LastResetAt s) \<and>
     feature_marshals (ss_Confirmed s) \<and> feature_marshals (ss_Intrabar s) \<and>
     list_all (\<lambda>z. f_finite (zn_Upper z) \<and> f_finite (zn_Lower z)) (ss_ActiveZones s)"

definition definition_state_marshals :: "definition_evaluation_state \<Rightarrow> bool" where
  "definition_state_marshals d \<longleftrightarrow> json_time_ok (ds_LastTriggerAt d) \<and> json_time_ok (ds_LastAlertBar d)"

text \<open>A UUID in the text the database prints, as every identity that comes from it is.\<close>

definition canonical_uuid :: "driver \<Rightarrow> string \<Rightarrow> bool" where
  "canonical_uuid drv i \<longleftrightarrow> drv_uuid drv i = Some i"

definition commit_inbox :: "driver \<Rightarrow> go_time \<Rightarrow> runtime_batch \<Rightarrow> pg \<Rightarrow> unit outcome" where
  "commit_inbox drv now b s =
    (if rb_Observations b = [] then Inr ((), s)
     else if list_ex (\<lambda>obs. marshal_observation obs = None) (rb_Observations b) then pg_fail ''json''
     else exec drv Stmt_Inbox (Inr ((), foldl (insert_inbox now) s (rb_Observations b))))"

definition commit_series :: "driver \<Rightarrow> runtime_batch \<Rightarrow> pg \<Rightarrow> unit outcome" where
  "commit_series drv b s =
    (if rb_SeriesStates b = Map.empty then Inr ((), s)
     else if \<exists>st \<in> ran (rb_SeriesStates b). \<not> series_marshals st then pg_fail ''json''
     else exec drv Stmt_Series (Inr ((), s\<lparr>pg_series := pg_series s ++
       (\<lambda>k. map_option (\<lambda>st. (Some (rb_PartitionID b), stored_series st)) (rb_SeriesStates b k))\<rparr>)))"

definition commit_resets :: "driver \<Rightarrow> runtime_batch \<Rightarrow> pg \<Rightarrow> unit outcome" where
  "commit_resets drv b s =
    (if rb_ResetSeriesKeys b = [] then Inr ((), s)
     else exec drv Stmt_Reset (Inr ((), s\<lparr>pg_definition_states :=
       delete_keys (\<lambda>(i, key). key \<in> set (rb_ResetSeriesKeys b)) (pg_definition_states s)\<rparr>)))"

text \<open>The runtime state of a definition on a series, by the two columns of its key.\<close>

definition batch_definition :: "runtime_batch \<Rightarrow> string \<times> string \<rightharpoonup> definition_evaluation_state" where
  "batch_definition b = (\<lambda>(i, key). if CHR ''|'' \<in> set i then None else rb_DefinitionStates b (DefinitionStateKey i key))"

definition commit_definitions :: "driver \<Rightarrow> runtime_batch \<Rightarrow> pg \<Rightarrow> unit outcome" where
  "commit_definitions drv b s =
    (if rb_DefinitionStates b = Map.empty then Inr ((), s)
     else if \<exists>k \<in> dom (rb_DefinitionStates b). cut CHR ''|'' k = None then pg_fail ''invalid definition runtime key''
     else if \<exists>st \<in> ran (rb_DefinitionStates b). \<not> definition_state_marshals st then pg_fail ''json''
     else exec drv Stmt_Definition_States
       (if \<exists>(i, key) \<in> dom (batch_definition b). \<not> canonical_uuid drv i \<or> \<not> list_ex (has_id i) (pg_definitions s)
        then pg_fail ''foreign key''
        else Inr ((), s\<lparr>pg_definition_states := pg_definition_states s ++
          (\<lambda>ik. map_option (Pair (Some (rb_PartitionID b))) (batch_definition b ik))\<rparr>)))"

fun insert_events :: "alert list \<Rightarrow> pg \<Rightarrow> (string \<rightharpoonup> int) outcome" where
  "insert_events [] s = Inr (Map.empty, s)"
| "insert_events (a # as) s =
    pg_then (insert_event a s) (\<lambda>(i, cursor) s1.
      pg_then (insert_events as s1) (\<lambda>cursors s2. Inr (Map.empty(i \<mapsto> cursor) ++ cursors, s2)))"

fun insert_outboxes :: "go_time \<Rightarrow> alert list \<Rightarrow> pg \<Rightarrow> unit outcome" where
  "insert_outboxes now [] s = Inr ((), s)"
| "insert_outboxes now (a # as) s = pg_then (insert_outbox now a s) (\<lambda>_. insert_outboxes now as)"

definition event_key :: "alert \<Rightarrow> string \<times> string" where
  "event_key a = (alr_DefinitionID a, alr_SourceEventID a)"

definition commit_alerts :: "driver \<Rightarrow> go_time \<Rightarrow> runtime_batch \<Rightarrow> pg \<Rightarrow> alert list outcome" where
  "commit_alerts drv now b s =
    (let alerts = rb_Alerts b
     in if alerts = [] then Inr ([], s)
        else if \<not> list_all alert_marshals alerts then pg_fail ''json''
        else pg_then
          (exec drv Stmt_Events
            (if \<not> distinct (map event_key alerts) then pg_fail ''row affected twice''
             else if list_ex (\<lambda>a. \<not> canonical_uuid drv (alr_ID a) \<or> \<not> canonical_uuid drv (alr_DefinitionID a)) alerts
             then pg_fail ''uuid''
             else insert_events alerts s))
          (\<lambda>cursors s1.
             let created = map (\<lambda>a. a\<lparr>alr_Cursor := get_or 0 cursors (alr_ID a)\<rparr>) alerts
             in pg_then (exec drv Stmt_Outbox (insert_outboxes now created s1)) (\<lambda>_ s2. Inr (created, s2))))"

definition commit_tx :: "driver \<Rightarrow> go_time \<Rightarrow> runtime_batch \<Rightarrow> pg \<Rightarrow> alert list outcome" where
  "commit_tx drv now b s =
    pg_then (exec drv Stmt_Begin (Inr ((), s))) (\<lambda>_ s.
    pg_then (commit_inbox drv now b s) (\<lambda>_ s.
    pg_then (commit_series drv b s) (\<lambda>_ s.
    pg_then (commit_resets drv b s) (\<lambda>_ s.
    pg_then (commit_definitions drv b s) (\<lambda>_ s.
    pg_then (commit_alerts drv now b s) (\<lambda>created s. exec drv Stmt_Commit (Inr (created, s))))))))"

definition pg_CommitRuntimeBatch :: "driver \<Rightarrow> go_time \<Rightarrow> runtime_batch \<Rightarrow> pg \<Rightarrow> (store_error + alert list) \<times> pg" where
  "pg_CommitRuntimeBatch drv now b s = settle s (commit_tx drv now b s)"

section \<open>The log and the outbox\<close>

text \<open>An alert as \<open>ListAlerts\<close> returns it: the cursor in the payload wins when it is not zero.\<close>

definition listed_alert :: "pg_event_row \<Rightarrow> pg_outbox_row \<Rightarrow> alert" where
  "listed_alert e r =
    (let a = po_payload r; a = (if alr_Cursor a = 0 then a\<lparr>alr_Cursor := pe_cursor e\<rparr> else a)
     in if po_published_at r \<noteq> None then a\<lparr>alr_PublishStatus := ''published''\<rparr> else a)"

definition pg_ListAlerts :: "driver \<Rightarrow> int \<Rightarrow> int \<Rightarrow> pg \<Rightarrow> store_error + alert list" where
  "pg_ListAlerts drv after limit s =
    fst (settle s (exec drv Stmt_Alerts
      (if limit < 0 then pg_fail ''limit''
       else Inr (map (\<lambda>(e, r). listed_alert e r)
              (take (nat limit) (sort_key (\<lambda>(e, r). pe_cursor e)
                (concat (map (\<lambda>e. map (Pair e) (filter (\<lambda>r. po_alert_id r = pe_id e) (pg_outbox s)))
                  (filter (\<lambda>e. pe_cursor e > after) (pg_events s)))))), s))))"

definition due :: "go_time \<Rightarrow> pg_outbox_row \<Rightarrow> bool" where
  "due now r \<longleftrightarrow> po_published_at r = None \<and> po_next_attempt_at r \<le> now"

definition claimed_cursors :: "go_time \<Rightarrow> int \<Rightarrow> pg \<Rightarrow> int list" where
  "claimed_cursors now limit s = take (nat limit) (sort (map po_cursor (filter (due now) (pg_outbox s))))"

definition claim_row :: "go_time \<Rightarrow> pg_outbox_row \<Rightarrow> pg_outbox_row" where
  "claim_row now r = r\<lparr>po_attempts := po_attempts r + 1, po_locked_at := Some now, po_next_attempt_at := now + 30 * second\<rparr>"

definition pg_ClaimPending :: "driver \<Rightarrow> go_time \<Rightarrow> int \<Rightarrow> pg \<Rightarrow> (store_error + alert list) \<times> pg" where
  "pg_ClaimPending drv now limit s =
    settle s (exec drv Stmt_Claim
      (if limit < 0 then pg_fail ''limit''
       else let ids = claimed_cursors now limit s
            in Inr (map po_payload (drv_order drv (filter (\<lambda>r. po_cursor r \<in> set ids) (pg_outbox s))),
                    s\<lparr>pg_outbox := map (\<lambda>r. if po_cursor r \<in> set ids then claim_row now r else r) (pg_outbox s)\<rparr>)))"

definition published_row :: "go_time \<Rightarrow> pg_outbox_row \<Rightarrow> pg_outbox_row" where
  "published_row now r = r\<lparr>po_published_at := Some now, po_locked_at := None, po_last_error := None\<rparr>"

text \<open>An update of the rows of the outbox with one alert; the number of rows is not looked at.\<close>

definition update_outbox ::
  "driver \<Rightarrow> statement \<Rightarrow> string \<Rightarrow> (pg_outbox_row \<Rightarrow> pg_outbox_row) \<Rightarrow> pg \<Rightarrow> store_error option \<times> pg" where
  "update_outbox drv st i f s =
    (case settle s (exec drv st
       (case drv_uuid drv i of
          None \<Rightarrow> pg_fail ''uuid''
        | Some j \<Rightarrow> Inr ((), s\<lparr>pg_outbox := map (\<lambda>r. if po_alert_id r = j then f r else r) (pg_outbox s)\<rparr>))) of
       (Inl e, s') \<Rightarrow> (Some e, s') | (Inr _, s') \<Rightarrow> (None, s'))"

definition pg_MarkPublished :: "driver \<Rightarrow> go_time \<Rightarrow> string \<Rightarrow> pg \<Rightarrow> store_error option \<times> pg" where
  "pg_MarkPublished drv now i s = update_outbox drv Stmt_Published i (published_row now) s"

definition backoff :: "int \<Rightarrow> duration" where
  "backoff attempts = min 300 (2 ^ nat (min attempts 8)) * second"

definition failed_row :: "go_time \<Rightarrow> string \<Rightarrow> pg_outbox_row \<Rightarrow> pg_outbox_row" where
  "failed_row now message r =
     r\<lparr>po_locked_at := None, po_last_error := Some message, po_next_attempt_at := now + backoff (po_attempts r)\<rparr>"

definition pg_MarkPublishFailed :: "driver \<Rightarrow> go_time \<Rightarrow> string \<Rightarrow> string \<Rightarrow> pg \<Rightarrow> store_error option \<times> pg" where
  "pg_MarkPublishFailed drv now i message s = update_outbox drv Stmt_Failed i (failed_row now message) s"

section \<open>Retention\<close>

definition event_published :: "pg \<Rightarrow> pg_event_row \<Rightarrow> bool" where
  "event_published s e \<longleftrightarrow> list_ex (\<lambda>r. po_alert_id r = pe_id e \<and> po_published_at r \<noteq> None) (pg_outbox s)"

definition doomed_events :: "go_time \<Rightarrow> duration \<Rightarrow> int \<Rightarrow> pg \<Rightarrow> string list" where
  "doomed_events now age limit s =
     map pe_id (take (nat limit) (sort_key pe_triggered_at
       (filter (\<lambda>e. pe_triggered_at e < now - age \<and> event_published s e) (pg_events s))))"

text \<open>The rows of the outbox go with their event.\<close>

definition expire_alerts :: "driver \<Rightarrow> go_time \<Rightarrow> retention_policy \<Rightarrow> pg \<Rightarrow> int outcome" where
  "expire_alerts drv now policy s =
    (if rp_AlertEvents policy > 0
     then exec drv Stmt_Expire_Alerts
       (let ids = doomed_events now (rp_AlertEvents policy) (rp_BatchSize policy) s
        in Inr (int (length (filter (\<lambda>e. pe_id e \<in> set ids) (pg_events s))),
                s\<lparr>pg_events := filter (\<lambda>e. pe_id e \<notin> set ids) (pg_events s),
                  pg_outbox := filter (\<lambda>r. po_alert_id r \<notin> set ids) (pg_outbox s)\<rparr>))
     else Inr (0, s))"

definition expired_inbox :: "go_time \<Rightarrow> retention_policy \<Rightarrow> pg \<Rightarrow> pg_inbox_row \<Rightarrow> bool" where
  "expired_inbox now policy s r \<longleftrightarrow>
     \<not> list_ex (\<lambda>e. pe_source_event_id e = pi_source_event_id r) (pg_events s) \<and>
     (if obs_Status (pi_payload r) = ''provisional'' then pi_received_at r < now - rp_ProvisionalInbox policy
      else pi_received_at r < now - rp_ConfirmedInbox policy)"

definition expire_inbox :: "driver \<Rightarrow> go_time \<Rightarrow> retention_policy \<Rightarrow> pg \<Rightarrow> int outcome" where
  "expire_inbox drv now policy s =
    (if rp_ProvisionalInbox policy > 0 \<and> rp_ConfirmedInbox policy > 0
     then exec drv Stmt_Expire_Inbox
       (let ids = map pi_source_event_id (take (nat (rp_BatchSize policy)) (sort_key pi_received_at
              (filter (expired_inbox now policy s) (pg_inbox s))))
        in Inr (int (length (filter (\<lambda>r. pi_source_event_id r \<in> set ids) (pg_inbox s))),
                s\<lparr>pg_inbox := filter (\<lambda>r. pi_source_event_id r \<notin> set ids) (pg_inbox s)\<rparr>))
     else Inr (0, s))"

text \<open>Two statements, each a transaction of its own: the first stays when the second fails.\<close>

definition pg_Maintain ::
  "driver \<Rightarrow> go_time \<Rightarrow> retention_policy \<Rightarrow> pg \<Rightarrow> (store_error + maintenance_result) \<times> pg" where
  "pg_Maintain drv now policy s =
    (let policy = policy\<lparr>rp_BatchSize := (if rp_BatchSize policy \<le> 0 then 5000 else rp_BatchSize policy)\<rparr>
     in case settle s (expire_alerts drv now policy s) of
          (Inl e, s1) \<Rightarrow> (Inl e, s1)
        | (Inr alerts, s1) \<Rightarrow>
           (case settle s1 (expire_inbox drv now policy s1) of
              (Inl e, s2) \<Rightarrow> (Inl e, s2)
            | (Inr inbox, s2) \<Rightarrow> (Inr \<lparr>mr_InboxDeleted = inbox, mr_AlertsDeleted = alerts\<rparr>, s2)))"

section \<open>Leases\<close>

text \<open>Whether \<open>ON CONFLICT \<dots> WHERE\<close> lets the owner have the row of a partition.\<close>

definition available :: "go_time \<Rightarrow> string \<Rightarrow> pg \<Rightarrow> int \<Rightarrow> bool" where
  "available now owner s p \<longleftrightarrow>
     (case pg_leases s p of None \<Rightarrow> True | Some r \<Rightarrow> pl_owner_id r = owner \<or> pl_expires_at r \<le> now)"

definition put_lease :: "string \<Rightarrow> go_time \<Rightarrow> pg \<Rightarrow> int \<Rightarrow> pg" where
  "put_lease owner expires s p = s\<lparr>pg_leases := (pg_leases s)(p \<mapsto> \<lparr>pl_owner_id = owner, pl_expires_at = expires\<rparr>)\<rparr>"

text \<open>The transaction on the identifiers: it rolls back unless every row was returned.\<close>

definition acquire_ids :: "driver \<Rightarrow> go_time \<Rightarrow> duration \<Rightarrow> string \<Rightarrow> int list \<Rightarrow> pg \<Rightarrow> (store_error + bool) \<times> pg" where
  "acquire_ids drv now ttl owner ids s =
    (case exec drv Stmt_Begin (exec drv Stmt_Acquire
       (if list_ex (\<lambda>p. p < 0 \<or> p \<ge> 256) ids then pg_fail ''alert_partition_leases_check''
        else if \<not> distinct ids then pg_fail ''row affected twice''
        else let granted = filter (available now owner s) ids
             in Inr (length granted, foldl (put_lease owner (now + ttl)) s granted))) of
       Inl e \<Rightarrow> (Inl e, s)
     | Inr (count, s1) \<Rightarrow>
        if count \<noteq> length ids then (Inr False, s)
        else settle s (exec drv Stmt_Commit (Inr (True, s1))))"

definition pg_AcquirePartitions ::
  "driver \<Rightarrow> go_time \<Rightarrow> string \<Rightarrow> int list \<Rightarrow> duration \<Rightarrow> pg \<Rightarrow> (store_error + bool) \<times> pg" where
  "pg_AcquirePartitions drv now owner partitions ttl s =
    (if partitions = [] then (Inl (StoreFailure ''at least one partition lease is required''), s)
     else acquire_ids drv now ttl owner (smallintPartitions partitions) s)"

definition owns_lease :: "string \<Rightarrow> pg \<Rightarrow> int \<Rightarrow> bool" where
  "owns_lease owner s p \<longleftrightarrow> (case pg_leases s p of None \<Rightarrow> False | Some r \<Rightarrow> pl_owner_id r = owner)"

text \<open>The number of rows an update touches is the number of distinct partitions of the list that the owner has.\<close>

definition pg_RenewPartitions ::
  "driver \<Rightarrow> go_time \<Rightarrow> string \<Rightarrow> int list \<Rightarrow> duration \<Rightarrow> pg \<Rightarrow> (store_error + bool) \<times> pg" where
  "pg_RenewPartitions drv now owner partitions ttl s =
    (let mine = filter (owns_lease owner s) (remdups (smallintPartitions partitions))
     in settle s (exec drv Stmt_Renew (Inr (length mine = length partitions, foldl (put_lease owner (now + ttl)) s mine))))"

definition pg_ReleasePartitions :: "driver \<Rightarrow> string \<Rightarrow> pg \<Rightarrow> store_error option \<times> pg" where
  "pg_ReleasePartitions drv owner s =
    (case settle s (exec drv Stmt_Release
       (Inr ((), s\<lparr>pg_leases := (\<lambda>p. if owns_lease owner s p then None else pg_leases s p)\<rparr>))) of
       (Inl e, s') \<Rightarrow> (Some e, s') | (Inr _, s') \<Rightarrow> (None, s'))"

section \<open>Statistics and the repository\<close>

definition pg_OperationalStats :: "driver \<Rightarrow> go_time \<Rightarrow> pg \<Rightarrow> store_error + operational_stats" where
  "pg_OperationalStats drv now s =
    (case drv_fault drv Stmt_Stats of
       Some e \<Rightarrow> Inl (StoreFailure e)
     | None \<Rightarrow>
        let pending = filter (\<lambda>r. po_published_at r = None) (pg_outbox s);
            oldest = (if pending = [] then 0
                      else rat_of_int (now - Min (set (map po_created_at pending))) / rat_of_int second)
        in Inr \<lparr>ost_PendingOutbox = int (length pending),
                ost_OldestOutboxAge = f_trunc (f_mul (f_of_rat oldest) (f_of_int second))\<rparr>)"

definition pg_repository :: "driver \<Rightarrow> go_time \<Rightarrow> pg repository" where
  "pg_repository drv now =
    \<lparr>repo_Ping = (\<lambda>s. drv_fault drv Stmt_Ping = None),
     repo_CreateDefinition = pg_CreateDefinition drv,
     repo_ListDefinitions = pg_ListDefinitions drv,
     repo_SetEnabled = pg_SetEnabled drv,
     repo_ArchiveDefinition = pg_ArchiveDefinition drv,
     repo_ApplyObservation = (\<lambda>wall. pg_ApplyObservation drv now wall),
     repo_LoadRuntimeStates = pg_LoadRuntimeStates drv,
     repo_CommitRuntimeBatch = pg_CommitRuntimeBatch drv now,
     repo_ListAlerts = pg_ListAlerts drv,
     repo_ClaimPending = pg_ClaimPending drv now,
     repo_MarkPublished = pg_MarkPublished drv now,
     repo_MarkPublishFailed = pg_MarkPublishFailed drv now,
     repo_Maintain = pg_Maintain drv now,
     repo_AcquirePartitions = pg_AcquirePartitions drv now,
     repo_RenewPartitions = pg_RenewPartitions drv now,
     repo_ReleasePartitions = pg_ReleasePartitions drv,
     repo_OperationalStats = pg_OperationalStats drv now\<rparr>"

section \<open>Migrations\<close>

text \<open>
  The files of the directory \<open>migrations\<close> by name and text; \<open>run\<close> executes the text of one on the rest of the
  database \<open>'s\<close>. The first component of the state is the table of applied migrations.
\<close>

fun migrate_entries ::
  "(string \<Rightarrow> 's \<Rightarrow> string + 's) \<Rightarrow> (string \<times> string) list \<Rightarrow> string list \<times> 's \<Rightarrow> string option \<times> string list \<times> 's" where
  "migrate_entries run [] st = (None, st)"
| "migrate_entries run ((name, body) # entries) st =
    (if \<not> has_suffix name ''.sql'' \<or> name \<in> set (fst st) then migrate_entries run entries st
     else (case run body (snd st) of
             Inl e \<Rightarrow> (Some (''migration '' @ name @ '': '' @ e), st)
           | Inr s' \<Rightarrow> migrate_entries run entries (fst st @ [name], s')))"

definition migrate ::
  "(string \<Rightarrow> 's \<Rightarrow> string + 's) \<Rightarrow> (string \<times> string) list \<Rightarrow> string list \<times> 's \<Rightarrow> string option \<times> string list \<times> 's" where
  "migrate run entries st = migrate_entries run (sort_key fst entries) st"

end
