(* ===== verification/Engine.thy ===== *)
theory Engine
  imports Memory
begin

text \<open>
  \<open>internal/runtime/engine.go\<close>: the partitioned evaluator. The engine is a record of its
  partitions, its routing table and its counters. \<open>EvaluateBatch\<close> runs under the mutex of
  one partition and is one transition of engine and repository; the routing table is
  taken to be constant during a batch. The repository is the parameter \<open>commit\<close> of
  \<open>EvaluateBatch\<close>, \<open>now\<close> is \<open>time.Now()\<close>, and \<open>None\<close> is a panic of the rule evaluator.
\<close>

record compiled_definition =
  cd_definition :: alert_definition
  cd_rule :: compiled

record partition_runtime =
  pr_series :: "string \<rightharpoonup> series_evaluation_state"
  pr_definitions :: "string \<rightharpoonup> definition_evaluation_state"

type_synonym routes = "string \<rightharpoonup> compiled_definition list"

record engine =
  e_partitions :: "partition_runtime list"
  e_byRoute :: routes
  e_refreshedAt :: int
  e_workerIndex :: int
  e_workerCount :: int
  e_staleEvents :: u64
  e_resetEvents :: u64
  e_ruleEvals :: u64

record metrics =
  mt_StaleEvents :: u64
  mt_ResetEvents :: u64
  mt_RuleEvals :: u64

datatype engine_error =
    PartitionOutOfRange
  | PartitionNotOwned
  | WrongPartition string
  | CompileFailed string rule_error
  | StoreError store_error

definition DefaultPartitions :: int where
  "DefaultPartitions = 256"

definition empty_partition :: partition_runtime where
  "empty_partition = \<lparr>pr_series = Map.empty, pr_definitions = Map.empty\<rparr>"

definition NewWithOwnership :: "int \<Rightarrow> int \<Rightarrow> int \<Rightarrow> engine" where
  "NewWithOwnership partitionCount workerIndex workerCount =
    (let partitionCount = (if partitionCount < 1 then 1 else partitionCount);
         workerCount = (if workerCount < 1 then 1 else workerCount)
     in \<lparr>e_partitions = replicate (nat partitionCount) empty_partition, e_byRoute = Map.empty,
         e_refreshedAt = 0, e_workerIndex = workerIndex, e_workerCount = workerCount,
         e_staleEvents = 0, e_resetEvents = 0, e_ruleEvals = 0\<rparr>)"

definition New :: "int \<Rightarrow> engine" where
  "New partitionCount = NewWithOwnership partitionCount 0 1"

definition owns :: "engine \<Rightarrow> int \<Rightarrow> bool" where
  "owns e p \<longleftrightarrow> p mod e_workerCount e = e_workerIndex e"

definition ownedPartitions :: "engine \<Rightarrow> int list" where
  "ownedPartitions e = filter (owns e) (map int [0..<length (e_partitions e)])"

section \<open>The routing table\<close>

definition routeKey :: "series \<Rightarrow> string" where
  "routeKey s = ser_Dataset s @ [CHR 0x00] @ ser_Symbol s @ [CHR 0x00] @ ser_Timeframe s"

text \<open>\<open>sort.Slice\<close> by definition ID, on IDs that are distinct within a route in practice.\<close>

definition sort_route :: "compiled_definition list \<Rightarrow> compiled_definition list" where
  "sort_route cds = sort_key (\<lambda>c. dfn_ID (cd_definition c)) cds"

definition get_route :: "routes \<Rightarrow> string \<Rightarrow> compiled_definition list" where
  "get_route m k = get_or [] m k"

fun build_routes :: "alert_definition list \<Rightarrow> routes \<Rightarrow> engine_error + routes" where
  "build_routes [] m = Inr m"
| "build_routes (d # ds) m =
    (case Compile (dfn_Rule d) of
       Inl err \<Rightarrow> Inl (CompileFailed (dfn_ID d) err)
     | Inr c \<Rightarrow>
        build_routes ds (m(routeKey (dfn_Series d) \<mapsto>
          get_route m (routeKey (dfn_Series d)) @ [\<lparr>cd_definition = d, cd_rule = c\<rparr>])))"

definition unix_epoch :: go_time where
  "unix_epoch = 62135596800 * second"

definition unix_nano :: "go_time \<Rightarrow> int" where
  "unix_nano t = wrap64 (t - unix_epoch)"

definition ReplaceDefinitions :: "go_time \<Rightarrow> alert_definition list \<Rightarrow> engine \<Rightarrow> engine_error option \<times> engine" where
  "ReplaceDefinitions now ds e =
    (case build_routes ds Map.empty of
       Inl err \<Rightarrow> (Some err, e)
     | Inr m \<Rightarrow> (None, e\<lparr>e_byRoute := map_option sort_route \<circ> m, e_refreshedAt := unix_nano now\<rparr>))"

definition DefinitionsFresh :: "go_time \<Rightarrow> duration \<Rightarrow> engine \<Rightarrow> bool" where
  "DefinitionsFresh now maxAge e =
    (if maxAge \<le> 0 then True
     else e_refreshedAt e > 0 \<and> time_sub now (unix_epoch + e_refreshedAt e) \<le> maxAge)"

definition DefinitionCacheAge :: "go_time \<Rightarrow> engine \<Rightarrow> duration" where
  "DefinitionCacheAge now e =
    (if e_refreshedAt e = 0 then 0 else time_sub now (unix_epoch + e_refreshedAt e))"

definition Metrics :: "engine \<Rightarrow> metrics" where
  "Metrics e = \<lparr>mt_StaleEvents = e_staleEvents e, mt_ResetEvents = e_resetEvents e, mt_RuleEvals = e_ruleEvals e\<rparr>"

text \<open>\<open>definitions[index] = \<dots>\<close> at the first index with the ID; \<open>None\<close> when there is none.\<close>

fun replace_route :: "compiled_definition \<Rightarrow> compiled_definition list \<Rightarrow> compiled_definition list option" where
  "replace_route c [] = None"
| "replace_route c (d # ds) =
    (if dfn_ID (cd_definition d) = dfn_ID (cd_definition c) then Some (c # ds)
     else map_option (Cons d) (replace_route c ds))"

definition UpsertDefinition :: "alert_definition \<Rightarrow> engine \<Rightarrow> rule_error option \<times> engine" where
  "UpsertDefinition d e =
    (case Compile (dfn_Rule d) of
       Inl err \<Rightarrow> (Some err, e)
     | Inr c \<Rightarrow>
        let key = routeKey (dfn_Series d);
            cd = \<lparr>cd_definition = d, cd_rule = c\<rparr>;
            ds = get_route (e_byRoute e) key
        in (None, e\<lparr>e_byRoute := (e_byRoute e)(key \<mapsto>
              (case replace_route cd ds of Some ds' \<Rightarrow> ds' | None \<Rightarrow> sort_route (ds @ [cd])))\<rparr>))"

definition RemoveDefinition :: "string \<Rightarrow> engine \<Rightarrow> engine" where
  "RemoveDefinition i e =
     e\<lparr>e_byRoute := (\<lambda>key. case e_byRoute e key of
         None \<Rightarrow> None
       | Some ds \<Rightarrow>
          let filtered = filter (\<lambda>c. dfn_ID (cd_definition c) \<noteq> i) ds
          in if filtered = [] then None else Some filtered)\<rparr>"

definition definitionsFor :: "series \<Rightarrow> engine \<Rightarrow> compiled_definition list" where
  "definitionsFor s e =
    (let exact = get_route (e_byRoute e) (routeKey s);
         wildcard = get_route (e_byRoute e)
           (routeKey \<lparr>ser_Dataset = '''', ser_Symbol = ser_Symbol s, ser_Timeframe = ser_Timeframe s\<rparr>)
     in exact @ (if ser_Dataset s \<noteq> '''' then wildcard else []))"

section \<open>Partitions\<close>

definition hash_partition :: "engine \<Rightarrow> string \<Rightarrow> int" where
  "hash_partition e bs = uint (fnv1a bs mod word_of_nat (length (e_partitions e)))"

definition Partition :: "engine \<Rightarrow> series \<Rightarrow> int" where
  "Partition e s =
     hash_partition e (ser_Dataset s @ [CHR 0x00] @ ser_Symbol s @ [CHR 0x00] @ ser_Timeframe s)"

definition PartitionForKey :: "engine \<Rightarrow> string \<Rightarrow> int" where
  "PartitionForKey e key =
    (case split_n 3 CHR ''/'' key of
       [dataset, symbol, timeframe] \<Rightarrow>
         Partition e \<lparr>ser_Dataset = dataset, ser_Symbol = symbol, ser_Timeframe = timeframe\<rparr>
     | _ \<Rightarrow> hash_partition e key)"

section \<open>Definition activity and triggers\<close>

definition effectiveAt :: "alert_definition \<Rightarrow> go_time" where
  "effectiveAt d = (if \<not> is_zero (dfn_EffectiveAt d) then dfn_EffectiveAt d else dfn_CreatedAt d)"

definition definitionEnabledAt :: "alert_definition \<Rightarrow> go_time \<Rightarrow> bool" where
  "definitionEnabledAt d eventTime =
    (if dfn_Enabled d then \<not> eventTime < effectiveAt d else eventTime < effectiveAt d)"

definition engine_stale :: "observation \<Rightarrow> series_evaluation_state \<Rightarrow> bool" where
  "engine_stale obs state =
    (if is_zero (ss_LastOpenTime state) then False
     else if cnd_OpenTime (obs_Candle obs) < ss_LastOpenTime state then True
     else if cnd_OpenTime (obs_Candle obs) > ss_LastOpenTime state then False
     else if obs_Revision obs < ss_LastRevision state then True
     else if obs_Revision obs > ss_LastRevision state then False
     else statusRank (obs_Status obs) \<le> statusRank (ss_LastStatus state))"

definition shouldTrigger ::
  "string \<Rightarrow> bool \<Rightarrow> bool \<Rightarrow> observation \<Rightarrow> definition_evaluation_state \<Rightarrow> bool \<Rightarrow> bool" where
  "shouldTrigger mode truth pulse obs state lastTruth =
    (if \<not> truth then False
     else if mode = ''every_match'' then True
     else if mode = ''once_per_bar'' then
       is_zero (ds_LastAlertBar state) \<or> ds_LastAlertBar state \<noteq> cnd_OpenTime (obs_Candle obs)
     else pulse \<or> \<not> lastTruth)"

section \<open>Cloning\<close>

text \<open>
  \<open>state.Indicators = make(\<dots>)\<close> comes before the loop that copies \<open>state.Indicators\<close>, so
  the loop ranges over the map that was just made.
\<close>

definition cloneFeatureState :: "feature_state \<Rightarrow> feature_state" where
  "cloneFeatureState state =
     (let made = (case fs_Indicators state of None \<Rightarrow> None | Some _ \<Rightarrow> Some (Map.empty :: string \<rightharpoonup> f64));
          copied = map_option (\<lambda>m. m ++ m) made
      in state\<lparr>fs_Indicators := copied\<rparr>)"

definition cloneSeriesState :: "series_evaluation_state \<Rightarrow> series_evaluation_state" where
  "cloneSeriesState state =
     state\<lparr>ss_Confirmed := cloneFeatureState (ss_Confirmed state),
           ss_Intrabar := cloneFeatureState (ss_Intrabar state)\<rparr>"

section \<open>EvaluateBatch\<close>

text \<open>The local variables of \<open>EvaluateBatch\<close>, with the counters it updates.\<close>

record batch_state =
  b_seriesStates :: "string \<rightharpoonup> series_evaluation_state"
  b_definitionStates :: "string \<rightharpoonup> definition_evaluation_state"
  b_resetSeries :: "string list"
  b_accepted :: "observation list"
  b_alerts :: "alert list"
  b_staleEvents :: u64
  b_resetEvents :: u64
  b_ruleEvals :: u64

definition start_batch :: "engine \<Rightarrow> batch_state" where
  "start_batch e = \<lparr>b_seriesStates = Map.empty, b_definitionStates = Map.empty, b_resetSeries = [],
     b_accepted = [], b_alerts = [], b_staleEvents = e_staleEvents e, b_resetEvents = e_resetEvents e,
     b_ruleEvals = e_ruleEvals e\<rparr>"

definition lookup_series :: "partition_runtime \<Rightarrow> batch_state \<Rightarrow> string \<Rightarrow> series_evaluation_state" where
  "lookup_series p b key =
    (case b_seriesStates b key of
       Some s \<Rightarrow> s
     | None \<Rightarrow> cloneSeriesState (get_or zero_series_state (pr_series p) key))"

subsection \<open>A reset\<close>

definition reset_stale :: "observation \<Rightarrow> series_evaluation_state \<Rightarrow> bool" where
  "reset_stale obs s \<longleftrightarrow> obs_SourceEventID obs = ss_LastResetID s
     \<or> (\<not> is_zero (ss_LastResetAt s) \<and> \<not> obs_OccurredAt obs > ss_LastResetAt s)"

definition history_feature :: "candle list \<Rightarrow> feature_state" where
  "history_feature history =
     foldl (\<lambda>f bar. Advance f (zero_observation\<lparr>obs_Status := ''confirmed'', obs_Candle := bar\<rparr>))
       zero_feature history"

definition reset_series_state :: "observation \<Rightarrow> series_evaluation_state" where
  "reset_series_state obs =
    (let confirmed = Advance (history_feature (obs_History obs)) obs
     in zero_series_state\<lparr>ss_Confirmed := confirmed, ss_Intrabar := cloneFeatureState confirmed,
          ss_ActiveZones := obs_ActiveZones obs, ss_LastOpenTime := cnd_OpenTime (obs_Candle obs),
          ss_LastRevision := obs_Revision obs, ss_LastStatus := obs_Status obs,
          ss_LastResetID := obs_SourceEventID obs, ss_LastResetAt := obs_OccurredAt obs\<rparr>)"

definition reset_definition ::
  "partition_runtime \<Rightarrow> observation \<Rightarrow> compiled_definition \<Rightarrow> batch_state \<Rightarrow> batch_state option" where
  "reset_definition p obs c b =
    (let d = cd_definition c; key = DefinitionStateKey (dfn_ID d) (series_Key (obs_Series obs))
     in if \<not> acceptsMode (dfn_EvaluationMode d) ''confirmed'' then Some b
        else case EvaluateDetailed (cd_rule c) obs (history_feature (obs_History obs)) of
          None \<Rightarrow> None
        | Some (truth, _, _) \<Rightarrow>
            Some (b\<lparr>b_ruleEvals := b_ruleEvals b + 1,
                    b_definitionStates := (b_definitionStates b)(key \<mapsto>
                      (get_or zero_definition_state (pr_definitions p) key)
                        \<lparr>ds_LastTruthConfirmed := truth, ds_LastTruthIntrabar := False\<rparr>)\<rparr>))"

definition process_reset :: "engine \<Rightarrow> partition_runtime \<Rightarrow> observation \<Rightarrow> batch_state \<Rightarrow> batch_state option" where
  "process_reset e p obs b =
    (let seriesKey = series_Key (obs_Series obs);
         b1 = b\<lparr>b_resetEvents := b_resetEvents b + 1,
                b_resetSeries := List.insert seriesKey (b_resetSeries b),
                b_definitionStates := delete_keys (\<lambda>k. definitionSeriesKey k = seriesKey) (b_definitionStates b)\<rparr>
     in map_option (\<lambda>b2. b2\<lparr>b_seriesStates := (b_seriesStates b2)(seriesKey \<mapsto> reset_series_state obs),
                            b_accepted := b_accepted b2 @ [obs]\<rparr>)
          (fold_opt (reset_definition p obs) (definitionsFor (obs_Series obs) e) b1))"

subsection \<open>A live observation\<close>

text \<open>A provisional observation without zones is given those the series last had.\<close>

definition with_zones :: "observation \<Rightarrow> series_evaluation_state \<Rightarrow> observation" where
  "with_zones obs s =
    (if obs_Status obs = ''provisional'' \<and> obs_ActiveZones obs = []
     then obs\<lparr>obs_ActiveZones := ss_ActiveZones s\<rparr> else obs)"

definition live_feature :: "observation \<Rightarrow> series_evaluation_state \<Rightarrow> feature_state" where
  "live_feature obs s =
    (if obs_Status obs = ''provisional''
     then (if fs_LastClose (ss_Intrabar s) = None \<and> fs_LastClose (ss_Confirmed s) \<noteq> None
           then cloneFeatureState (ss_Confirmed s) else ss_Intrabar s)
     else ss_Confirmed s)"

definition live_series_state :: "observation \<Rightarrow> series_evaluation_state \<Rightarrow> series_evaluation_state" where
  "live_series_state obs s =
    (let s1 = (if obs_Status obs = ''confirmed''
               then let confirmed = Advance (ss_Confirmed s) obs
                    in s\<lparr>ss_Confirmed := confirmed, ss_Intrabar := cloneFeatureState confirmed\<rparr>
               else s\<lparr>ss_Intrabar := Advance (live_feature obs s) obs\<rparr>);
         s2 = (if obs_ActiveZones obs \<noteq> [] then s1\<lparr>ss_ActiveZones := obs_ActiveZones obs\<rparr> else s1)
     in s2\<lparr>ss_LastOpenTime := cnd_OpenTime (obs_Candle obs), ss_LastRevision := obs_Revision obs,
           ss_LastStatus := obs_Status obs\<rparr>)"

definition engine_alert ::
  "go_time \<Rightarrow> alert_definition \<Rightarrow> observation \<Rightarrow> string list \<Rightarrow> fact_reference list \<Rightarrow> alert" where
  "engine_alert now d obs reasons facts =
     \<lparr>alr_Schema = ''io.ytstack.alert.triggered.v1'',
      alr_ID = deterministicID [dfn_ID d, obs_SourceEventID obs],
      alr_DefinitionID = dfn_ID d, alr_DefinitionVersion = dfn_Version d,
      alr_DefinitionHash = dfn_DefinitionHash d, alr_DefinitionName = dfn_Name d,
      alr_SourceEventID = obs_SourceEventID obs, alr_SourceCandleID = obs_CorrelationID obs,
      alr_Series = obs_Series obs, alr_TriggeredAt = obs_OccurredAt obs, alr_EvaluatedAt = now,
      alr_Reasons = reasons, alr_FactsUsed = facts, alr_FeatureAlgorithm = obs_FeatureAlgorithm obs,
      alr_SourceRevision = obs_Revision obs, alr_SourceStatus = obs_Status obs,
      alr_Observation = marshal_observation obs, alr_PublishStatus = ''pending'', alr_Cursor = 0\<rparr>"

text \<open>
  The trigger decision for one definition and the state it leaves: edge, bar or every
  match, then the cooldown, then the bookkeeping of the truth and of the trigger.
\<close>

definition cooling :: "alert_definition \<Rightarrow> observation \<Rightarrow> definition_evaluation_state \<Rightarrow> bool" where
  "cooling d obs s \<longleftrightarrow> dfn_CooldownSeconds d > 0 \<and> \<not> is_zero (ds_LastTriggerAt s) \<and>
     time_sub (obs_OccurredAt obs) (ds_LastTriggerAt s) < duration_mul (dfn_CooldownSeconds d) second"

definition lastTruth :: "observation \<Rightarrow> definition_evaluation_state \<Rightarrow> bool" where
  "lastTruth obs s = (if obs_Status obs = ''provisional'' then ds_LastTruthIntrabar s else ds_LastTruthConfirmed s)"

definition trigger_now :: "alert_definition \<Rightarrow> bool \<Rightarrow> observation \<Rightarrow> definition_evaluation_state \<Rightarrow> bool" where
  "trigger_now d truth obs s \<longleftrightarrow>
     shouldTrigger (dfn_TriggerMode d) truth (Pulse (dfn_Rule d)) obs s (lastTruth obs s) \<and> \<not> cooling d obs s"

definition trigger_state ::
  "alert_definition \<Rightarrow> bool \<Rightarrow> observation \<Rightarrow> definition_evaluation_state \<Rightarrow> definition_evaluation_state" where
  "trigger_state d truth obs s =
    (let s1 = (if obs_Status obs = ''provisional'' then s\<lparr>ds_LastTruthIntrabar := truth\<rparr>
               else s\<lparr>ds_LastTruthConfirmed := truth\<rparr>)
     in if trigger_now d truth obs s
        then s1\<lparr>ds_LastTriggerAt := obs_OccurredAt obs, ds_LastAlertBar := cnd_OpenTime (obs_Candle obs)\<rparr>
        else s1)"

definition skipped :: "compiled_definition \<Rightarrow> observation \<Rightarrow> bool" where
  "skipped c obs \<longleftrightarrow>
     (obs_Status obs = ''provisional'' \<and> cmp_Dependencies (cd_rule c) AND (DependencyCandle OR DependencyIndicator) = 0)
     \<or> \<not> definitionEnabledAt (cd_definition c) (obs_OccurredAt obs)
     \<or> \<not> acceptsMode (dfn_EvaluationMode (cd_definition c)) (obs_Status obs)"

definition lookup_definition :: "partition_runtime \<Rightarrow> batch_state \<Rightarrow> string \<Rightarrow> string \<Rightarrow> definition_evaluation_state" where
  "lookup_definition p b seriesKey key =
    (case b_definitionStates b key of
       Some s \<Rightarrow> s
     | None \<Rightarrow> if seriesKey \<notin> set (b_resetSeries b) then get_or zero_definition_state (pr_definitions p) key
              else zero_definition_state)"

definition eval_definition ::
  "go_time \<Rightarrow> partition_runtime \<Rightarrow> observation \<Rightarrow> feature_state \<Rightarrow> compiled_definition \<Rightarrow> batch_state \<Rightarrow> batch_state option" where
  "eval_definition now p obs feature c b =
    (let d = cd_definition c; seriesKey = series_Key (obs_Series obs);
         key = DefinitionStateKey (dfn_ID d) seriesKey
     in if skipped c obs then Some b
        else case EvaluateDetailed (cd_rule c) obs feature of
          None \<Rightarrow> None
        | Some (truth, reasons, facts) \<Rightarrow>
            let s = lookup_definition p b seriesKey key
            in Some (b\<lparr>b_ruleEvals := b_ruleEvals b + 1,
                       b_alerts := b_alerts b @
                         (if trigger_now d truth obs s then [engine_alert now d obs reasons facts] else []),
                       b_definitionStates := (b_definitionStates b)(key \<mapsto> trigger_state d truth obs s)\<rparr>))"

definition process_live ::
  "go_time \<Rightarrow> engine \<Rightarrow> partition_runtime \<Rightarrow> observation \<Rightarrow> series_evaluation_state \<Rightarrow> batch_state \<Rightarrow> batch_state option" where
  "process_live now e p input s b =
    (let obs = with_zones input s
     in map_option (\<lambda>b1. b1\<lparr>b_seriesStates := (b_seriesStates b1)(series_Key (obs_Series input) \<mapsto> live_series_state obs s),
                            b_accepted := b_accepted b1 @ [obs]\<rparr>)
          (fold_opt (eval_definition now p obs (live_feature obs s)) (definitionsFor (obs_Series obs) e) b))"

subsection \<open>The loop and the commit\<close>

definition process_input ::
  "go_time \<Rightarrow> engine \<Rightarrow> partition_runtime \<Rightarrow> observation \<Rightarrow> batch_state \<Rightarrow> batch_state option" where
  "process_input now e p input b =
    (let s = lookup_series p b (series_Key (obs_Series input))
     in if (if obs_Reset input then reset_stale input s else engine_stale input s)
        then Some (b\<lparr>b_staleEvents := b_staleEvents b + 1\<rparr>)
        else if obs_Reset input then process_reset e p input b
        else process_live now e p input s b)"

fun process_inputs ::
  "go_time \<Rightarrow> engine \<Rightarrow> int \<Rightarrow> partition_runtime \<Rightarrow> observation list \<Rightarrow> batch_state
     \<Rightarrow> (engine_error option \<times> batch_state) option" where
  "process_inputs now e pid p [] b = Some (None, b)"
| "process_inputs now e pid p (input # inputs) b =
    (if Partition e (obs_Series input) \<noteq> pid then Some (Some (WrongPartition (series_Key (obs_Series input))), b)
     else case process_input now e p input b of
       None \<Rightarrow> None
     | Some b' \<Rightarrow> process_inputs now e pid p inputs b')"

definition count_events :: "batch_state \<Rightarrow> engine \<Rightarrow> engine" where
  "count_events b e = e\<lparr>e_staleEvents := b_staleEvents b, e_resetEvents := b_resetEvents b, e_ruleEvals := b_ruleEvals b\<rparr>"

definition batch_of :: "int \<Rightarrow> batch_state \<Rightarrow> runtime_batch" where
  "batch_of pid b = \<lparr>rb_PartitionID = pid, rb_Observations = b_accepted b, rb_SeriesStates = b_seriesStates b,
     rb_DefinitionStates = b_definitionStates b, rb_ResetSeriesKeys = sort (b_resetSeries b), rb_Alerts = b_alerts b\<rparr>"

definition install_batch :: "batch_state \<Rightarrow> partition_runtime \<Rightarrow> partition_runtime" where
  "install_batch b p =
     \<lparr>pr_series = pr_series p ++ (map_option cloneSeriesState \<circ> b_seriesStates b),
      pr_definitions =
        delete_keys (\<lambda>k. definitionSeriesKey k \<in> set (sort (b_resetSeries b))) (pr_definitions p) ++ b_definitionStates b\<rparr>"

definition EvaluateBatch ::
  "(runtime_batch \<Rightarrow> 'r \<Rightarrow> (store_error + alert list) \<times> 'r) \<Rightarrow> go_time \<Rightarrow> int \<Rightarrow> observation list \<Rightarrow> engine \<Rightarrow> 'r
     \<Rightarrow> ((engine_error + alert list) \<times> engine \<times> 'r) option" where
  "EvaluateBatch commit now pid observations e r =
    (if pid < 0 \<or> pid \<ge> int (length (e_partitions e)) then Some (Inl PartitionOutOfRange, e, r)
     else if \<not> owns e pid then Some (Inl PartitionNotOwned, e, r)
     else let p = e_partitions e ! nat pid
       in case process_inputs now e pid p observations (start_batch e) of
            None \<Rightarrow> None
          | Some (Some err, b) \<Rightarrow> Some (Inl err, count_events b e, r)
          | Some (None, b) \<Rightarrow>
              if b_accepted b = [] then Some (Inr [], count_events b e, r)
              else case commit (batch_of pid b) r of
                     (Inl err, r') \<Rightarrow> Some (Inl (StoreError err), count_events b e, r')
                   | (Inr committed, r') \<Rightarrow>
                       Some (Inr committed,
                             (count_events b e)\<lparr>e_partitions := (e_partitions e)[nat pid := install_batch b p]\<rparr>, r'))"

section \<open>Initialize\<close>

text \<open>
  Each loop over a snapshot map writes every key to its own place, so the result is given
  pointwise: partition \<open>i\<close> receives the keys that hash to it, if the worker owns it.
\<close>

definition load_partition :: "engine \<Rightarrow> runtime_snapshot \<Rightarrow> nat \<times> partition_runtime \<Rightarrow> partition_runtime" where
  "load_partition e snap ip =
    (let (i, p) = ip
     in if \<not> owns e (int i) then p
        else \<lparr>pr_series = pr_series p ++
                (\<lambda>k. if PartitionForKey e k = int i then map_option cloneSeriesState (snap_Series snap k) else None),
              pr_definitions = pr_definitions p ++
                (\<lambda>k. if PartitionForKey e (definitionSeriesKey k) = int i then snap_Definitions snap k else None)\<rparr>)"

definition Initialize ::
  "go_time \<Rightarrow> store_error + alert_definition list \<Rightarrow> (int list \<Rightarrow> store_error + runtime_snapshot) \<Rightarrow> engine
     \<Rightarrow> engine_error option \<times> engine" where
  "Initialize now definitions loadRuntimeStates e =
    (case definitions of
       Inl err \<Rightarrow> (Some (StoreError err), e)
     | Inr ds \<Rightarrow>
        (case ReplaceDefinitions now ds e of
           (Some err, e1) \<Rightarrow> (Some err, e1)
         | (None, e1) \<Rightarrow>
            (case loadRuntimeStates (ownedPartitions e1) of
               Inl err \<Rightarrow> (Some (StoreError err), e1)
             | Inr snap \<Rightarrow>
                (None, e1\<lparr>e_partitions := map (load_partition e1 snap) (List.enumerate 0 (e_partitions e1))\<rparr>))))"

end
