(* ===== verification/Engine_Routing.thy ===== *)
theory Engine_Routing
  imports Engine "HOL-Library.Multiset"
begin

text \<open>
  The routing table and the partition function of the engine: the index kept by route
  serves exactly the definitions that the selector \<open>matchSeries\<close> of the store accepts, it
  only ever holds compiled rules, every partition has one owner, and a key names the
  partition of its series as long as the parts of the series contain no slash.
\<close>

section \<open>Route keys\<close>

definition nul_free :: "series \<Rightarrow> bool" where
  "nul_free s \<longleftrightarrow> CHR 0x00 \<notin> set (ser_Dataset s) \<and> CHR 0x00 \<notin> set (ser_Symbol s)"

lemma append_sep_eq:
  assumes "(c :: char) \<notin> set a" and "c \<notin> set a'"
  shows "a @ c # b = a' @ c # b' \<longleftrightarrow> a = a' \<and> b = b'"
proof
  assume "a @ c # b = a' @ c # b'"
  then have "cut c (a @ c # b) = cut c (a' @ c # b')" by (rule arg_cong)
  then show "a = a' \<and> b = b'" by (simp add: cut_append assms)
qed simp

lemma routeKey_inj [key_simps]: "nul_free s \<Longrightarrow> nul_free t \<Longrightarrow> routeKey s = routeKey t \<longleftrightarrow> s = t"
  by (auto simp: nul_free_def routeKey_def append_sep_eq)

definition wildcard_of :: "series \<Rightarrow> series" where
  "wildcard_of s = \<lparr>ser_Dataset = '''', ser_Symbol = ser_Symbol s, ser_Timeframe = ser_Timeframe s\<rparr>"

lemma nul_free_wildcard [simp]: "nul_free s \<Longrightarrow> nul_free (wildcard_of s)"
  by (simp add: nul_free_def wildcard_of_def)

lemma matchSeries_iff: "matchSeries sel s \<longleftrightarrow> sel = s \<or> sel = wildcard_of s"
  by (cases sel; cases s) (auto simp: matchSeries_def wildcard_of_def)

section \<open>Compiled definitions\<close>

definition compile_definition :: "alert_definition \<Rightarrow> compiled_definition" where
  "compile_definition d =
     \<lparr>cd_definition = d, cd_rule = \<lparr>cmp_Rule = dfn_Rule d, cmp_Dependencies = dependencies (dfn_Rule d)\<rparr>\<rparr>"

lemma Compile_Inr_iff:
  "Compile r = Inr c \<longleftrightarrow> Validate r = None \<and> c = \<lparr>cmp_Rule = r, cmp_Dependencies = dependencies r\<rparr>"
  by (auto simp: Compile_def split: option.splits)

lemma cd_definition_compile [simp]: "cd_definition (compile_definition d) = d"
  by (simp add: compile_definition_def)

text \<open>The invariant of the table: what it holds is compiled, and filed under its own route.\<close>

definition compiled_ok :: "compiled_definition \<Rightarrow> bool" where
  "compiled_ok c \<longleftrightarrow> Compile (dfn_Rule (cd_definition c)) = Inr (cd_rule c)"

definition routes_ok :: "engine \<Rightarrow> bool" where
  "routes_ok e \<longleftrightarrow>
     (\<forall>k. \<forall>c \<in> set (get_route (e_byRoute e) k). compiled_ok c \<and> routeKey (dfn_Series (cd_definition c)) = k)"

lemma compiled_ok_eq: "compiled_ok c \<longleftrightarrow> Validate (dfn_Rule (cd_definition c)) = None \<and> c = compile_definition (cd_definition c)"
  by (cases c) (auto simp: compiled_ok_def Compile_Inr_iff compile_definition_def)

lemma definitionsFor_ok: "routes_ok e \<Longrightarrow> c \<in> set (definitionsFor s e) \<Longrightarrow> compiled_ok c"
  by (auto simp: routes_ok_def definitionsFor_def Let_def split: if_splits)

lemma build_routes_spec:
  "build_routes ds m = Inr m' \<Longrightarrow>
     (\<forall>d \<in> set ds. Validate (dfn_Rule d) = None) \<and>
     (\<forall>k. get_route m' k = get_route m k @ map compile_definition (filter (\<lambda>d. routeKey (dfn_Series d) = k) ds))"
proof (induction ds arbitrary: m)
  case Nil
  then show ?case by simp
next
  case (Cons d ds)
  then obtain c where c: "Compile (dfn_Rule d) = Inr c" by (auto split: sum.splits)
  then have cd: "\<lparr>cd_definition = d, cd_rule = c\<rparr> = compile_definition d"
    by (simp add: Compile_Inr_iff compile_definition_def)
  from Cons.prems c have rest: "build_routes ds (m(routeKey (dfn_Series d) \<mapsto>
      get_route m (routeKey (dfn_Series d)) @ [compile_definition d])) = Inr m'" by (simp add: cd)
  from Cons.IH [OF rest] c show ?case by (auto simp: Compile_Inr_iff get_route_def get_or_def)
qed

lemma build_routes_total:
  "\<forall>d \<in> set ds. Validate (dfn_Rule d) = None \<Longrightarrow> \<exists>m'. build_routes ds m = Inr m'"
  by (induction ds arbitrary: m) (auto simp: Compile_def split: option.splits)

lemma ReplaceDefinitions_route:
  assumes "ReplaceDefinitions now ds e = (None, e')"
  shows "get_route (e_byRoute e') k =
           sort_route (map compile_definition (filter (\<lambda>d. routeKey (dfn_Series d) = k) ds))"
    and "\<forall>d \<in> set ds. Validate (dfn_Rule d) = None"
proof -
  from assms obtain m where m: "build_routes ds Map.empty = Inr m" "e_byRoute e' = map_option sort_route \<circ> m"
    by (auto simp: ReplaceDefinitions_def split: sum.splits)
  have "get_route (e_byRoute e') k = sort_route (get_route m k)"
    by (simp add: m(2) get_route_def get_or_def sort_route_def split: option.splits)
  then show "get_route (e_byRoute e') k =
      sort_route (map compile_definition (filter (\<lambda>d. routeKey (dfn_Series d) = k) ds))"
    using build_routes_spec [OF m(1)] by (simp add: get_route_def)
  show "\<forall>d \<in> set ds. Validate (dfn_Rule d) = None" using build_routes_spec [OF m(1)] by simp
qed

lemma ReplaceDefinitions_cases:
  "(\<exists>e'. ReplaceDefinitions now ds e = (None, e')) \<or> (\<exists>err. ReplaceDefinitions now ds e = (Some err, e))"
  by (auto simp: ReplaceDefinitions_def split: sum.splits)

lemma routes_ok_Replace: "routes_ok e \<Longrightarrow> routes_ok (snd (ReplaceDefinitions now ds e))"
  using ReplaceDefinitions_cases [of now ds e] ReplaceDefinitions_route [of now ds e]
  by (auto simp: routes_ok_def sort_route_def compiled_ok_eq)

lemma replace_route_set:
  "replace_route c ds = Some ds' \<Longrightarrow> set ds' \<subseteq> insert c (set ds)"
  by (induction ds arbitrary: ds') (auto split: if_splits)

text \<open>The route of an upserted definition afterwards, and that no other route changes.\<close>

lemma get_route_Upsert:
  assumes "UpsertDefinition d e = (None, e')"
  shows "get_route (e_byRoute e') k =
           (if k = routeKey (dfn_Series d)
            then (case replace_route (compile_definition d) (get_route (e_byRoute e) k) of
                    Some ds \<Rightarrow> ds
                  | None \<Rightarrow> sort_route (get_route (e_byRoute e) k @ [compile_definition d]))
            else get_route (e_byRoute e) k)"
    and "compiled_ok (compile_definition d)"
  using assms
  by (auto simp: UpsertDefinition_def Let_def get_route_def get_or_def Compile_Inr_iff compile_definition_def
      compiled_ok_eq split: sum.splits option.splits)

lemma UpsertDefinition_cases:
  "(\<exists>e'. UpsertDefinition d e = (None, e')) \<or> (\<exists>err. UpsertDefinition d e = (Some err, e))"
  by (auto simp: UpsertDefinition_def Let_def split: sum.splits)

lemma upsert_route_set:
  "set (case replace_route c ds of Some ds' \<Rightarrow> ds' | None \<Rightarrow> sort_route (ds @ [c])) \<subseteq> insert c (set ds)"
  using replace_route_set [of c ds] by (auto simp: sort_route_def split: option.splits)

lemma routes_ok_Upsert:
  assumes "routes_ok e" shows "routes_ok (snd (UpsertDefinition d e))"
  using UpsertDefinition_cases [of d e]
proof
  assume "\<exists>e'. UpsertDefinition d e = (None, e')"
  then obtain e' where e': "UpsertDefinition d e = (None, e')" ..
  have "compiled_ok c \<and> routeKey (dfn_Series (cd_definition c)) = k" if "c \<in> set (get_route (e_byRoute e') k)" for c k
  proof (cases "c \<in> set (get_route (e_byRoute e) k)")
    case True
    with assms show ?thesis by (simp add: routes_ok_def)
  next
    case False
    with that upsert_route_set [of "get_route (e_byRoute e) k" "compile_definition d"]
    have "c = compile_definition d \<and> k = routeKey (dfn_Series d)"
      by (auto simp: get_route_Upsert(1) [OF e'] split: if_splits)
    then show ?thesis using get_route_Upsert(2) [OF e'] by simp
  qed
  with e' show ?thesis by (simp add: routes_ok_def)
qed (use assms in auto)

lemma get_route_Remove:
  "get_route (e_byRoute (RemoveDefinition i e)) k =
     filter (\<lambda>c. dfn_ID (cd_definition c) \<noteq> i) (get_route (e_byRoute e) k)"
  by (auto simp: RemoveDefinition_def get_route_def get_or_def Let_def split: option.splits)

lemma routes_ok_Remove: "routes_ok e \<Longrightarrow> routes_ok (RemoveDefinition i e)"
  by (auto simp: routes_ok_def get_route_Remove)

section \<open>Routing is matching\<close>

lemma mset_sort_route: "mset (sort_route cs) = mset cs"
  by (simp add: sort_route_def)

lemma filter_or_mset:
  "\<forall>x. \<not> (P x \<and> Q x) \<Longrightarrow> mset (filter (\<lambda>x. P x \<or> Q x) xs) = mset (filter P xs) + mset (filter Q xs)"
  by (induction xs) auto

text \<open>
  C14. The index by route is an implementation of the store's selector: after the definitions have been
  replaced, the definitions looked up for a series are, with their multiplicities, those of the list whose
  selector matches it, the wildcard selectors with an empty dataset included (no NUL byte in a dataset or symbol).
\<close>

theorem definitionsFor_refines_matchSeries:
  assumes "ReplaceDefinitions now ds e = (None, e')"
    and "\<forall>d \<in> set ds. nul_free (dfn_Series d)" and "nul_free s"
  shows "mset (map cd_definition (definitionsFor s e')) = mset (filter (\<lambda>d. matchSeries (dfn_Series d) s) ds)"
proof -
  note route = ReplaceDefinitions_route(1) [OF assms(1)]
  have pick: "mset (map cd_definition (get_route (e_byRoute e') (routeKey t))) = mset (filter (\<lambda>d. dfn_Series d = t) ds)"
    if "nul_free t" for t
  proof -
    have "filter (\<lambda>d. routeKey (dfn_Series d) = routeKey t) ds = filter (\<lambda>d. dfn_Series d = t) ds"
      using assms(2) that by (intro filter_cong) (auto simp: routeKey_inj)
    then show ?thesis by (simp add: route mset_sort_route multiset.map_comp comp_def)
  qed
  show ?thesis
  proof (cases "ser_Dataset s = ''''")
    case True
    then have w: "wildcard_of s = s" by (cases s) (simp add: wildcard_of_def)
    show ?thesis using pick [OF assms(3)] True by (simp add: definitionsFor_def matchSeries_iff w)
  next
    case False
    then have "s \<noteq> wildcard_of s" by (cases s) (auto simp: wildcard_of_def)
    then have "mset (filter (\<lambda>d. matchSeries (dfn_Series d) s) ds) =
        mset (filter (\<lambda>d. dfn_Series d = s) ds) + mset (filter (\<lambda>d. dfn_Series d = wildcard_of s) ds)"
      using filter_or_mset [of "\<lambda>d. dfn_Series d = s" "\<lambda>d. dfn_Series d = wildcard_of s" ds]
      by (simp add: matchSeries_iff)
    then show ?thesis using pick [OF assms(3)] pick [OF nul_free_wildcard [OF assms(3)]] False
      by (simp add: definitionsFor_def wildcard_of_def)
  qed
qed

definition btc_1m :: series where
  "btc_1m = \<lparr>ser_Dataset = ''live'', ser_Symbol = ''BTCUSDT'', ser_Timeframe = ''1m''\<rparr>"

definition red_definition :: "string \<Rightarrow> series \<Rightarrow> alert_definition" where
  "red_definition i s = legacy_sample\<lparr>dfn_ID := i, dfn_Series := s\<rparr>"

lemma red_definition_valid: "Validate (dfn_Rule (red_definition i s)) = None"
  using red_rule_compiles by (simp add: red_definition_def legacy_sample_def Compile_Inr_iff)

theorem definitionsFor_refines_matchSeries_witness:
  "\<exists>e'. ReplaceDefinitions 0 [red_definition ''a'' btc_1m, red_definition ''b'' (wildcard_of btc_1m)] (New 4) = (None, e')
     \<and> length (definitionsFor btc_1m e') = 2"
proof -
  let ?ds = "[red_definition ''a'' btc_1m, red_definition ''b'' (wildcard_of btc_1m)]"
  obtain e' where e': "ReplaceDefinitions 0 ?ds (New 4) = (None, e')"
    using build_routes_total [of ?ds Map.empty] red_definition_valid by (auto simp: ReplaceDefinitions_def)
  have "mset (map cd_definition (definitionsFor btc_1m e')) = mset ?ds"
    using definitionsFor_refines_matchSeries [OF e', of btc_1m]
    by (simp add: red_definition_def nul_free_def btc_1m_def wildcard_of_def matchSeries_def)
  from arg_cong [OF this, of size] show ?thesis using e' by simp
qed

section \<open>Updating the table\<close>

definition route_ids :: "compiled_definition list \<Rightarrow> string list" where
  "route_ids cs = map (\<lambda>c. dfn_ID (cd_definition c)) cs"

text \<open>IDs are distinct in every route, and an ID has one route only.\<close>

definition ids_ok :: "engine \<Rightarrow> bool" where
  "ids_ok e \<longleftrightarrow> (\<forall>k. distinct (route_ids (get_route (e_byRoute e) k))) \<and>
     (\<forall>k l. k \<noteq> l \<longrightarrow> set (route_ids (get_route (e_byRoute e) k)) \<inter> set (route_ids (get_route (e_byRoute e) l)) = {})"

lemma route_ids_notin: "i \<notin> set (route_ids cs) \<longleftrightarrow> (\<forall>c \<in> set cs. dfn_ID (cd_definition c) \<noteq> i)"
  by (induction cs) (auto simp: route_ids_def)

lemma replace_route_None: "replace_route c ds = None \<longleftrightarrow> dfn_ID (cd_definition c) \<notin> set (route_ids ds)"
  by (induction ds) (auto simp: route_ids_def)

lemma replace_route_members:
  "replace_route c ds = Some ds' \<Longrightarrow> distinct (route_ids ds) \<Longrightarrow>
   set ds' = insert c {x \<in> set ds. dfn_ID (cd_definition x) \<noteq> dfn_ID (cd_definition c)}"
proof (induction ds arbitrary: ds')
  case Nil
  then show ?case by simp
next
  case (Cons x ds)
  show ?case
  proof (cases "dfn_ID (cd_definition x) = dfn_ID (cd_definition c)")
    case True
    with Cons.prems have "dfn_ID (cd_definition c) \<notin> set (route_ids ds)" by (auto simp: route_ids_def)
    with True Cons.prems show ?thesis by (auto simp: route_ids_notin)
  next
    case False
    with Cons.prems obtain ds'' where "replace_route c ds = Some ds''" "ds' = x # ds''" by auto
    with False Cons show ?thesis by (auto simp: route_ids_def)
  qed
qed

lemma definitionsFor_members:
  "c \<in> set (definitionsFor s e) \<longleftrightarrow>
     c \<in> set (get_route (e_byRoute e) (routeKey s)) \<or>
     (ser_Dataset s \<noteq> '''' \<and> c \<in> set (get_route (e_byRoute e) (routeKey (wildcard_of s))))"
  by (simp add: definitionsFor_def wildcard_of_def)

lemma upsert_members:
  assumes "UpsertDefinition d e = (None, e')" and "ids_ok e"
    and "\<forall>k. dfn_ID d \<in> set (route_ids (get_route (e_byRoute e) k)) \<longrightarrow> k = routeKey (dfn_Series d)"
  shows "set (get_route (e_byRoute e') k) =
     (if k = routeKey (dfn_Series d) then {compile_definition d} else {}) \<union>
     {c \<in> set (get_route (e_byRoute e) k). dfn_ID (cd_definition c) \<noteq> dfn_ID d}"
proof (cases "k = routeKey (dfn_Series d)")
  case True
  show ?thesis
  proof (cases "replace_route (compile_definition d) (get_route (e_byRoute e) k)")
    case None
    then have "\<forall>c \<in> set (get_route (e_byRoute e) k). dfn_ID (cd_definition c) \<noteq> dfn_ID d"
      by (simp add: replace_route_None route_ids_notin)
    with None True show ?thesis by (auto simp: get_route_Upsert(1) [OF assms(1)] sort_route_def)
  next
    case (Some ds)
    with True assms(2) replace_route_members [OF Some] show ?thesis
      by (simp add: get_route_Upsert(1) [OF assms(1)] ids_ok_def)
  qed
next
  case False
  with assms(3) have "dfn_ID d \<notin> set (route_ids (get_route (e_byRoute e) k))" by blast
  then have "\<forall>c \<in> set (get_route (e_byRoute e) k). dfn_ID (cd_definition c) \<noteq> dfn_ID d"
    by (simp add: route_ids_notin)
  with False show ?thesis by (auto simp: get_route_Upsert(1) [OF assms(1)])
qed

text \<open>
  An upsert followed by lookups behaves as the update of a set of definitions: for every series the
  definitions served afterwards are the old ones with another ID, and the new version exactly when its
  selector matches the series; removing the ID then takes it out of every route and nothing else.
\<close>

theorem upsert_remove_definition:
  assumes "UpsertDefinition d e = (None, e')" and "ids_ok e"
    and "\<forall>k. dfn_ID d \<in> set (route_ids (get_route (e_byRoute e) k)) \<longrightarrow> k = routeKey (dfn_Series d)"
    and "nul_free (dfn_Series d)" and "nul_free s"
  shows "set (definitionsFor s e') =
           (if matchSeries (dfn_Series d) s then {compile_definition d} else {}) \<union>
           {c \<in> set (definitionsFor s e). dfn_ID (cd_definition c) \<noteq> dfn_ID d} \<and>
         definitionsFor s (RemoveDefinition (dfn_ID d) e') =
           filter (\<lambda>c. dfn_ID (cd_definition c) \<noteq> dfn_ID d) (definitionsFor s e')"
proof -
  have exact: "routeKey s = routeKey (dfn_Series d) \<longleftrightarrow> dfn_Series d = s"
    and wild: "routeKey (wildcard_of s) = routeKey (dfn_Series d) \<longleftrightarrow> dfn_Series d = wildcard_of s"
    using assms(4,5) routeKey_inj by auto
  have empty: "ser_Dataset s = '''' \<Longrightarrow> wildcard_of s = s" by (cases s) (simp add: wildcard_of_def)
  have "set (definitionsFor s e') =
           (if matchSeries (dfn_Series d) s then {compile_definition d} else {}) \<union>
           {c \<in> set (definitionsFor s e). dfn_ID (cd_definition c) \<noteq> dfn_ID d}"
    by (intro set_eqI)
       (auto simp: definitionsFor_members upsert_members [OF assms(1-3)] matchSeries_iff exact wild empty)
  moreover have "definitionsFor s (RemoveDefinition (dfn_ID d) e') =
           filter (\<lambda>c. dfn_ID (cd_definition c) \<noteq> dfn_ID d) (definitionsFor s e')"
    by (simp add: definitionsFor_def get_route_Remove)
  ultimately show ?thesis ..
qed

lemma get_route_New [simp]: "get_route (e_byRoute (New n)) k = []"
  by (simp add: New_def NewWithOwnership_def get_route_def Let_def)

theorem upsert_remove_definition_witness:
  "\<exists>e'. UpsertDefinition (red_definition ''a'' btc_1m) (New 4) = (None, e') \<and>
        set (definitionsFor btc_1m e') = {compile_definition (red_definition ''a'' btc_1m)} \<and>
        definitionsFor btc_1m (RemoveDefinition ''a'' e') = []"
proof -
  let ?d = "red_definition ''a'' btc_1m"
  obtain e' where e': "UpsertDefinition ?d (New 4) = (None, e')"
    using red_definition_valid [of "''a''" btc_1m] by (simp add: UpsertDefinition_def Compile_def Let_def)
  have ids: "ids_ok (New 4)" by (simp add: ids_ok_def route_ids_def)
  have d: "dfn_ID ?d = ''a''" "dfn_Series ?d = btc_1m" by (simp_all add: red_definition_def)
  have nf: "nul_free btc_1m" by (simp add: nul_free_def btc_1m_def)
  have one: "set (definitionsFor btc_1m e') = {compile_definition ?d}"
    using upsert_remove_definition [OF e' ids, of btc_1m] nf
    by (simp add: d route_ids_def definitionsFor_def matchSeries_iff)
  have "definitionsFor btc_1m (RemoveDefinition ''a'' e') = []"
    using upsert_remove_definition [OF e' ids, of btc_1m] nf one
    by (simp add: d route_ids_def filter_empty_conv)
  with one e' show ?thesis by blast
qed

section \<open>Partitions\<close>

definition partitions_ok :: "engine \<Rightarrow> bool" where
  "partitions_ok e \<longleftrightarrow> 0 < length (e_partitions e) \<and> length (e_partitions e) < 2 ^ 32"

lemma hash_partition_range:
  assumes "partitions_ok e"
  shows "0 \<le> hash_partition e bs \<and> hash_partition e bs < int (length (e_partitions e))"
proof -
  have "uint (word_of_nat (length (e_partitions e)) :: u32) = int (length (e_partitions e))"
    using assms by (simp add: partitions_ok_def unsigned_of_nat take_bit_nat_eq_self)
  then show ?thesis using assms by (simp add: hash_partition_def uint_mod partitions_ok_def)
qed

lemma PartitionForKey_hash: "\<exists>bs. PartitionForKey e k = hash_partition e bs"
  by (auto simp: PartitionForKey_def Partition_def split: list.splits)

lemma PartitionForKey_range:
  "partitions_ok e \<Longrightarrow> 0 \<le> PartitionForKey e k \<and> PartitionForKey e k < int (length (e_partitions e))"
  using hash_partition_range PartitionForKey_hash by metis

definition slash_free :: "series \<Rightarrow> bool" where
  "slash_free s \<longleftrightarrow> CHR ''/'' \<notin> set (ser_Dataset s) \<and> CHR ''/'' \<notin> set (ser_Symbol s)"

lemma split_series_Key [key_simps]:
  "slash_free s \<Longrightarrow> split_n 3 CHR ''/'' (series_Key s) = [ser_Dataset s, ser_Symbol s, ser_Timeframe s]"
  by (simp add: slash_free_def series_Key_def numeral_3_eq_3 cut_append)

lemma series_Key_inj [key_simps]: "slash_free s \<Longrightarrow> slash_free t \<Longrightarrow> series_Key s = series_Key t \<longleftrightarrow> s = t"
  by (cases s; cases t) (auto simp: slash_free_def series_Key_def append_sep_eq)

text \<open>
  C18. The partition a restored key is loaded into is the partition its observations are routed to: for a
  series whose dataset and symbol contain no slash, \<open>PartitionForKey\<close> of its key is \<open>Partition\<close> of the
  series, and both are indices of the partition table.
\<close>

theorem partition_of_key:
  assumes "slash_free s" and "partitions_ok e"
  shows "PartitionForKey e (series_Key s) = Partition e s \<and>
         0 \<le> Partition e s \<and> Partition e s < int (length (e_partitions e))"
  using split_series_Key [OF assms(1)] PartitionForKey_range [OF assms(2), of "series_Key s"]
  by (cases s) (simp add: PartitionForKey_def)

theorem partition_of_key_witness:
  "PartitionForKey (New 256) (series_Key btc_1m) = Partition (New 256) btc_1m \<and> Partition (New 256) btc_1m < 256"
  using partition_of_key [of btc_1m "New 256"]
  by (simp add: slash_free_def btc_1m_def partitions_ok_def New_def NewWithOwnership_def)

definition btc_slash_1m :: series where
  "btc_slash_1m = \<lparr>ser_Dataset = ''live'', ser_Symbol = ''BTC/USDT'', ser_Timeframe = ''1m''\<rparr>"

text \<open>
  A slash in the symbol breaks the correspondence: the state of the series \<open>live\<close>, \<open>BTC/USDT\<close>, \<open>1m\<close> is
  restored into another partition than the one its observations are evaluated in, so a restart forgets it.
\<close>

theorem slash_symbol_restored_elsewhere:
  "PartitionForKey (New 256) (series_Key btc_slash_1m) \<noteq> Partition (New 256) btc_slash_1m"
proof -
  have "length (e_partitions (New 256)) = 256" by (simp add: New_def NewWithOwnership_def)
  then have h: "hash_partition (New 256) bs = uint (fnv1a bs mod 256)" for bs by (simp add: hash_partition_def)
  have "uint (fnv1a ((''live'' @ [CHR 0x00]) @ ''BTC'' @ [CHR 0x00] @ ''USDT/1m'') mod 256) \<noteq>
        uint (fnv1a ((''live'' @ [CHR 0x00]) @ ''BTC/USDT'' @ [CHR 0x00] @ ''1m'') mod 256)"
    by code_simp
  then show ?thesis
    by (simp add: PartitionForKey_def Partition_def btc_slash_1m_def series_Key_def numeral_3_eq_3 h)
qed

text \<open>
  The workers of a deployment divide the partitions among them: with \<open>n\<close> workers numbered from zero,
  every partition is in the owned list of exactly one of them.
\<close>

theorem partitions_divided_among_workers:
  assumes "0 < n" and "0 \<le> p" and "p < k"
  shows "\<exists>!w. 0 \<le> w \<and> w < n \<and> p \<in> set (ownedPartitions (NewWithOwnership k w n))"
proof -
  have "p \<in> set (ownedPartitions (NewWithOwnership k w n)) \<longleftrightarrow> p mod n = w" for w
  proof -
    have "p \<in> int ` {0..<nat k}" using assms by (simp add: image_int_atLeastLessThan)
    then show ?thesis using assms by (auto simp: ownedPartitions_def NewWithOwnership_def owns_def Let_def)
  qed
  then show ?thesis using assms by auto
qed

theorem partitions_divided_among_workers_witness:
  "\<exists>!w. 0 \<le> w \<and> w < (3::int) \<and> (7::int) \<in> set (ownedPartitions (NewWithOwnership 256 w 3))"
  using partitions_divided_among_workers [of 3 7 256] by simp

end
