(* ===== verification/Engine_Batch.thy ===== *)
theory Engine_Batch
  imports Engine_Routing
begin

text \<open>
  What one \<open>EvaluateBatch\<close> does: it never panics on an engine built by its own operations, a
  batch that fails leaves the partitions as they were, the series states follow a
  definition-independent fold over the observations of the series, a redelivered batch
  changes nothing, a reset rebuilds the state of its series from the corrected history
  alone, and every alert has a reason in the batch.
\<close>

section \<open>Frames of the inner loops\<close>

lemma eval_definition_frame:
  "eval_definition now p obs f c b = Some b' \<Longrightarrow>
     b_seriesStates b' = b_seriesStates b \<and> b_resetSeries b' = b_resetSeries b \<and> b_accepted b' = b_accepted b \<and>
     b_staleEvents b' = b_staleEvents b \<and> b_resetEvents b' = b_resetEvents b"
  by (auto simp: eval_definition_def Let_def split: if_splits option.splits)

lemma reset_definition_frame:
  "reset_definition p obs c b = Some b' \<Longrightarrow>
     b_seriesStates b' = b_seriesStates b \<and> b_resetSeries b' = b_resetSeries b \<and> b_accepted b' = b_accepted b \<and>
     b_staleEvents b' = b_staleEvents b \<and> b_resetEvents b' = b_resetEvents b \<and> b_alerts b' = b_alerts b"
  by (auto simp: reset_definition_def Let_def split: if_splits option.splits)

lemma eval_definitions_frame:
  assumes "fold_opt (eval_definition now p obs f) cs b = Some b'"
  shows "b_seriesStates b' = b_seriesStates b \<and> b_resetSeries b' = b_resetSeries b \<and> b_accepted b' = b_accepted b \<and>
     b_staleEvents b' = b_staleEvents b \<and> b_resetEvents b' = b_resetEvents b"
  by (rule fold_opt_invariant [OF assms]) (auto dest: eval_definition_frame)

lemma reset_definitions_frame:
  assumes "fold_opt (reset_definition p obs) cs b = Some b'"
  shows "b_seriesStates b' = b_seriesStates b \<and> b_resetSeries b' = b_resetSeries b \<and> b_accepted b' = b_accepted b \<and>
     b_staleEvents b' = b_staleEvents b \<and> b_resetEvents b' = b_resetEvents b \<and> b_alerts b' = b_alerts b"
  by (rule fold_opt_invariant [OF assms]) (auto dest: reset_definition_frame)

lemma with_zones_frame [simp]:
  "obs_Series (with_zones obs s) = obs_Series obs" "obs_Candle (with_zones obs s) = obs_Candle obs"
  "obs_Status (with_zones obs s) = obs_Status obs" "obs_Revision (with_zones obs s) = obs_Revision obs"
  "obs_OccurredAt (with_zones obs s) = obs_OccurredAt obs" "obs_SourceEventID (with_zones obs s) = obs_SourceEventID obs"
  "obs_Reset (with_zones obs s) = obs_Reset obs" "obs_Indicators (with_zones obs s) = obs_Indicators obs"
  by (simp_all add: with_zones_def)

section \<open>No panics\<close>

lemma compiled_evaluates: "compiled_ok c \<Longrightarrow> EvaluateDetailed (cd_rule c) obs f \<noteq> None"
  using EvaluateDetailed_compiled unfolding compiled_ok_def by fastforce

lemma eval_definition_total: "compiled_ok c \<Longrightarrow> eval_definition now p obs f c b \<noteq> None"
  using compiled_evaluates [of c obs f] by (auto simp: eval_definition_def Let_def split: option.splits)

lemma reset_definition_total: "compiled_ok c \<Longrightarrow> reset_definition p obs c b \<noteq> None"
  using compiled_evaluates [of c obs "history_feature (obs_History obs)"]
  by (auto simp: reset_definition_def Let_def split: option.splits)

lemma process_input_total:
  assumes "routes_ok e" shows "process_input now e p input b \<noteq> None"
proof -
  have "fold_opt (eval_definition now p obs f) (definitionsFor s e) b' \<noteq> None" for obs f s b'
    by (intro fold_opt_total eval_definition_total) (rule definitionsFor_ok [OF assms])
  moreover have "fold_opt (reset_definition p obs) (definitionsFor s e) b' \<noteq> None" for obs s b'
    by (intro fold_opt_total reset_definition_total) (rule definitionsFor_ok [OF assms])
  ultimately show ?thesis by (simp add: process_input_def process_reset_def process_live_def Let_def del: not_None_eq)
qed

lemma process_inputs_total: "routes_ok e \<Longrightarrow> process_inputs now e pid p os b \<noteq> None"
  by (induction os arbitrary: b) (auto split: option.splits dest: process_input_total)

lemma EvaluateBatch_total: "routes_ok e \<Longrightarrow> \<exists>res e' r'. EvaluateBatch commit now pid os e r = Some (res, e', r')"
  using process_inputs_total [of e now pid "e_partitions e ! nat pid" os "start_batch e"]
  by (auto simp: EvaluateBatch_def Let_def split: option.splits prod.splits sum.splits)

lemma EvaluateBatch_routes:
  "EvaluateBatch commit now pid os e r = Some (res, e', r') \<Longrightarrow> e_byRoute e' = e_byRoute e"
  by (auto simp: EvaluateBatch_def Let_def count_events_def
      split: if_splits option.splits prod.splits sum.splits)

text \<open>The engine and the repository under every operation of the program, in any order.\<close>

inductive engine_reachable ::
  "(runtime_batch \<Rightarrow> 'r \<Rightarrow> (store_error + alert list) \<times> 'r) \<Rightarrow> engine \<Rightarrow> 'r \<Rightarrow> bool"
  for commit :: "runtime_batch \<Rightarrow> 'r \<Rightarrow> (store_error + alert list) \<times> 'r" where
  start: "engine_reachable commit (NewWithOwnership k w n) r"
| initialize: "engine_reachable commit e r \<Longrightarrow> engine_reachable commit (snd (Initialize now ds load e)) r"
| replace: "engine_reachable commit e r \<Longrightarrow> engine_reachable commit (snd (ReplaceDefinitions now ds e)) r"
| upsert: "engine_reachable commit e r \<Longrightarrow> engine_reachable commit (snd (UpsertDefinition d e)) r"
| remove: "engine_reachable commit e r \<Longrightarrow> engine_reachable commit (RemoveDefinition i e) r"
| evaluate: "engine_reachable commit e r \<Longrightarrow> EvaluateBatch commit now pid os e r = Some (res, e', r') \<Longrightarrow>
    engine_reachable commit e' r'"
| repository: "engine_reachable commit e r \<Longrightarrow> engine_reachable commit e r'"

lemma routes_ok_Initialize:
  assumes "routes_ok e" shows "routes_ok (snd (Initialize now ds load e))"
proof (cases ds)
  case (Inl err)
  with assms show ?thesis by (simp add: Initialize_def)
next
  case (Inr xs)
  obtain err e1 where r: "ReplaceDefinitions now xs e = (err, e1)" by fastforce
  with routes_ok_Replace [OF assms, of now xs] have "routes_ok e1" by simp
  with Inr r show ?thesis by (auto simp: Initialize_def routes_ok_def split: option.splits sum.splits)
qed

lemma reachable_routes_ok: "engine_reachable commit e r \<Longrightarrow> routes_ok e"
proof (induction rule: engine_reachable.induct)
  case (start k w n r)
  then show ?case by (simp add: routes_ok_def NewWithOwnership_def get_route_def Let_def)
next
  case (evaluate e r now pid os res e' r')
  then show ?case by (simp add: routes_ok_def EvaluateBatch_routes [OF evaluate.hyps(2)])
qed (simp_all add: routes_ok_Initialize routes_ok_Replace routes_ok_Upsert routes_ok_Remove)

text \<open>
  C12. No batch crashes the evaluator: on an engine reached from its constructor by any sequence of
  initialisations, definition updates and batches, with any repository, \<open>EvaluateBatch\<close> returns, whatever
  the observations.
\<close>

theorem evaluate_batch_never_panics:
  assumes "engine_reachable commit e r"
  shows "\<exists>res e' r'. EvaluateBatch commit now pid os e r = Some (res, e', r')"
  by (rule EvaluateBatch_total [OF reachable_routes_ok [OF assms]])

theorem evaluate_batch_never_panics_witness:
  "\<exists>res e' r'. EvaluateBatch mem_CommitRuntimeBatch 0 0 [red_at 5]
     (snd (UpsertDefinition (red_definition ''a'' zero_series) (New 1))) NewMemory = Some (res, e', r')"
  using evaluate_batch_never_panics
    [OF engine_reachable.upsert [OF engine_reachable.start [of mem_CommitRuntimeBatch 1 0 1 NewMemory]]]
  unfolding New_def by blast

section \<open>Failed batches\<close>

text \<open>
  C13. A batch is all or nothing in memory: whenever \<open>EvaluateBatch\<close> returns an error (a bad or foreign
  partition, a misrouted observation in the middle of the batch, a failed commit) the partitions and the
  routing table are as before, and unless the commit itself failed the repository was not called at all.
\<close>

theorem failed_batch_changes_nothing:
  assumes "EvaluateBatch commit now pid os e r = Some (Inl err, e', r')"
  shows "e_partitions e' = e_partitions e \<and> e_byRoute e' = e_byRoute e \<and>
         (r' = r \<or> (\<exists>b serr. commit b r = (Inl serr, r') \<and> err = StoreError serr))"
  using assms
  by (auto simp: EvaluateBatch_def Let_def count_events_def
      split: if_splits option.splits prod.splits sum.splits)

theorem failed_batch_changes_nothing_witness:
  "\<exists>e'. EvaluateBatch mem_CommitRuntimeBatch 0 1 [] (NewWithOwnership 4 0 2) NewMemory = Some (Inl PartitionNotOwned, e', NewMemory)
     \<and> e_partitions e' = e_partitions (NewWithOwnership 4 0 2)"
proof -
  have "EvaluateBatch mem_CommitRuntimeBatch 0 1 [] (NewWithOwnership 4 0 2) NewMemory =
      Some (Inl PartitionNotOwned, NewWithOwnership 4 0 2, NewMemory)"
    by (simp add: EvaluateBatch_def NewWithOwnership_def owns_def)
  with failed_batch_changes_nothing [OF this] show ?thesis by blast
qed

section \<open>Series states\<close>

text \<open>The state of a series after one observation of it: no definition takes part.\<close>

definition engine_observe :: "observation \<Rightarrow> series_evaluation_state \<Rightarrow> series_evaluation_state" where
  "engine_observe obs s = (if engine_stale obs s then s else live_series_state (with_zones obs s) s)"

definition series_step :: "series_evaluation_state \<Rightarrow> observation \<Rightarrow> series_evaluation_state" where
  "series_step s obs =
    (if obs_Reset obs then (if reset_stale obs s then s else reset_series_state obs) else engine_observe obs s)"

definition engine_cursor :: "series_evaluation_state \<Rightarrow> stamp" where
  "engine_cursor s = (ss_LastOpenTime s, ss_LastRevision s, statusRank (ss_LastStatus s))"

lemma engine_stale_iff: "engine_stale obs s \<longleftrightarrow> fst (engine_cursor s) \<noteq> 0 \<and> obs_stamp obs \<le> engine_cursor s"
  by (auto simp: engine_stale_def engine_cursor_def obs_stamp_def is_zero_def less_eq_prod_def less_prod_def)

interpretation live: revision_cursor engine_stale engine_observe engine_cursor
proof
  show "engine_stale obs s = (fst (engine_cursor s) \<noteq> 0 \<and> obs_stamp obs \<le> engine_cursor s)" for obs s
    by (rule engine_stale_iff)
qed (simp_all add: engine_observe_def live_series_state_def engine_cursor_def obs_stamp_def Let_def)

lemma engine_cursor_clone [simp]: "engine_cursor (cloneSeriesState s) = engine_cursor s"
  by (simp add: engine_cursor_def cloneSeriesState_def)

lemma engine_stale_clone [simp]: "engine_stale obs (cloneSeriesState s) = engine_stale obs s"
  by (simp add: engine_stale_iff)

lemma process_input_series:
  assumes "process_input now e p input b = Some b'"
  shows "lookup_series p b' k =
     (if k = series_Key (obs_Series input) then series_step (lookup_series p b k) input else lookup_series p b k)"
  using assms
  by (auto simp: process_input_def process_reset_def process_live_def lookup_series_def series_step_def
      engine_observe_def Let_def split: if_splits option.splits
      dest!: eval_definitions_frame reset_definitions_frame)

lemma process_inputs_series:
  "process_inputs now e pid p os b = Some (None, b') \<Longrightarrow>
   lookup_series p b' k = foldl series_step (lookup_series p b k) (filter (\<lambda>obs. series_Key (obs_Series obs) = k) os)"
proof (induction os arbitrary: b)
  case Nil
  then show ?case by simp
next
  case (Cons input os)
  then obtain b1 where b1: "process_input now e p input b = Some b1"
    and rest: "process_inputs now e pid p os b1 = Some (None, b')"
    by (auto split: if_splits option.splits)
  show ?case using Cons.IH [OF rest] process_input_series [OF b1, of k] by auto
qed

lemma process_inputs_routed:
  "process_inputs now e pid p os b = Some (None, b') \<Longrightarrow> obs \<in> set os \<Longrightarrow> Partition e (obs_Series obs) = pid"
  by (induction os arbitrary: b) (auto split: if_splits option.splits)

text \<open>The series a batch touches are those of the observations it accepted.\<close>

lemma process_input_dom:
  assumes "process_input now e p input b = Some b'"
  shows "(\<exists>obs. b_accepted b' = b_accepted b @ [obs] \<and> obs_Series obs = obs_Series input \<and>
            b_staleEvents b' = b_staleEvents b \<and>
            dom (b_seriesStates b') = insert (series_Key (obs_Series obs)) (dom (b_seriesStates b))) \<or>
         b' = b\<lparr>b_staleEvents := b_staleEvents b + 1\<rparr>"
  using assms
  by (auto simp: process_input_def process_reset_def process_live_def Let_def split: if_splits
      dest!: eval_definitions_frame reset_definitions_frame)

lemma process_inputs_dom:
  "process_inputs now e pid p os b = Some (err, b') \<Longrightarrow>
   dom (b_seriesStates b) = (\<lambda>obs. series_Key (obs_Series obs)) ` set (b_accepted b) \<Longrightarrow>
   dom (b_seriesStates b') = (\<lambda>obs. series_Key (obs_Series obs)) ` set (b_accepted b')"
proof (induction os arbitrary: b)
  case (Cons input os)
  show ?case
  proof (cases "Partition e (obs_Series input) = pid")
    case True
    with Cons.prems obtain b1 where b1: "process_input now e p input b = Some b1"
      and rest: "process_inputs now e pid p os b1 = Some (err, b')" by (auto split: option.splits)
    have "dom (b_seriesStates b1) = (\<lambda>obs. series_Key (obs_Series obs)) ` set (b_accepted b1)"
      using process_input_dom [OF b1] Cons.prems(2) by - (elim disjE exE conjE; simp)
    with Cons.IH [OF rest] show ?thesis .
  next
    case False
    with Cons.prems show ?thesis by auto
  qed
qed simp

section \<open>Redelivery\<close>

lemma process_inputs_stale:
  assumes "\<forall>obs \<in> set os. Partition e (obs_Series obs) = pid \<and> \<not> obs_Reset obs \<and>
             engine_stale obs (lookup_series p b (series_Key (obs_Series obs)))"
  shows "process_inputs now e pid p os b = Some (None, b\<lparr>b_staleEvents := b_staleEvents b + word_of_nat (length os)\<rparr>)"
  using assms
proof (induction os arbitrary: b)
  case Nil
  then show ?case by simp
next
  case (Cons obs os)
  have "lookup_series p (b\<lparr>b_staleEvents := n\<rparr>) k = lookup_series p b k" for n k
    by (simp add: lookup_series_def)
  with Cons.prems Cons.IH [of "b\<lparr>b_staleEvents := b_staleEvents b + 1\<rparr>"] show ?case
    by (simp add: process_input_def Let_def add.assoc)
qed

lemma foldl_series_step_live:
  "\<forall>obs \<in> set os. \<not> obs_Reset obs \<Longrightarrow> foldl series_step s os = live.run os s"
  unfolding live.run_def by (intro foldl_cong) (auto simp: series_step_def)

text \<open>What the installed partition answers for a series: the final state of the batch, cloned.\<close>

lemma clone_feature_idem [simp]: "cloneFeatureState (cloneFeatureState f) = cloneFeatureState f"
  by (cases "fs_Indicators f") (simp_all add: cloneFeatureState_def)

lemma clone_series_idem [simp]: "cloneSeriesState (cloneSeriesState s) = cloneSeriesState s"
  by (simp add: cloneSeriesState_def)

lemma clone_zero_series [simp]: "cloneSeriesState zero_series_state = zero_series_state"
  by (simp add: cloneSeriesState_def cloneFeatureState_def zero_series_state_def zero_feature_def)

lemma lookup_series_start: "lookup_series p (start_batch e) k = cloneSeriesState (get_or zero_series_state (pr_series p) k)"
  by (simp add: lookup_series_def start_batch_def)

lemma lookup_series_installed:
  "lookup_series (install_batch b p) (start_batch e) k = cloneSeriesState (lookup_series p b k)"
  by (auto simp: install_batch_def lookup_series_def start_batch_def get_or_def map_add_def split: option.splits)

definition valid_pid :: "engine \<Rightarrow> int \<Rightarrow> bool" where
  "valid_pid e pid \<longleftrightarrow> 0 \<le> pid \<and> pid < int (length (e_partitions e)) \<and> owns e pid"

text \<open>The two successful outcomes of a batch: nothing accepted, or committed and installed.\<close>

lemma EvaluateBatch_ok:
  assumes "EvaluateBatch commit now pid os e r = Some (Inr created, e', r')"
  obtains b where "valid_pid e pid"
    "process_inputs now e pid (e_partitions e ! nat pid) os (start_batch e) = Some (None, b)"
    "(b_accepted b = [] \<and> created = [] \<and> e' = count_events b e \<and> r' = r) \<or>
     (b_accepted b \<noteq> [] \<and> commit (batch_of pid b) r = (Inr created, r') \<and>
      e' = (count_events b e)\<lparr>e_partitions := (e_partitions e)[nat pid := install_batch b (e_partitions e ! nat pid)]\<rparr>)"
proof -
  from assms have pid: "valid_pid e pid" by (auto simp: EvaluateBatch_def valid_pid_def split: if_splits)
  with assms show thesis
    by (auto simp: EvaluateBatch_def valid_pid_def Let_def split: if_splits option.splits prod.splits sum.splits
        intro!: that)
qed

lemma process_inputs_accepted_none:
  assumes "process_inputs now e pid p os (start_batch e) = Some (None, b)" and "b_accepted b = []"
  shows "lookup_series p b k = lookup_series p (start_batch e) k"
proof -
  have "dom (b_seriesStates b) = {}"
    using process_inputs_dom [OF assms(1)] assms(2) by (simp add: start_batch_def)
  then show ?thesis by (simp add: lookup_series_def start_batch_def)
qed

lemma Partition_frame: "length (e_partitions e') = length (e_partitions e) \<Longrightarrow> Partition e' s = Partition e s"
  by (simp add: Partition_def hash_partition_def)

lemma EvaluateBatch_lookup:
  assumes "EvaluateBatch commit now pid os e r = Some (Inr created, e', r')"
  shows "valid_pid e' pid" and "length (e_partitions e') = length (e_partitions e)"
    and "\<forall>obs \<in> set os. Partition e (obs_Series obs) = pid"
    and "lookup_series (e_partitions e' ! nat pid) (start_batch e') k = cloneSeriesState
           (foldl series_step (lookup_series (e_partitions e ! nat pid) (start_batch e) k)
              (filter (\<lambda>obs. series_Key (obs_Series obs) = k) os))"
proof -
  let ?p = "e_partitions e ! nat pid"
  obtain b where b: "valid_pid e pid" "process_inputs now e pid ?p os (start_batch e) = Some (None, b)"
    "(b_accepted b = [] \<and> created = [] \<and> e' = count_events b e \<and> r' = r) \<or>
     (b_accepted b \<noteq> [] \<and> commit (batch_of pid b) r = (Inr created, r') \<and>
      e' = (count_events b e)\<lparr>e_partitions := (e_partitions e)[nat pid := install_batch b ?p]\<rparr>)"
    using EvaluateBatch_ok [OF assms] by blast
  show len: "length (e_partitions e') = length (e_partitions e)" using b(3) by (auto simp: count_events_def)
  show "valid_pid e' pid" using b len by (auto simp: valid_pid_def owns_def count_events_def)
  show "\<forall>obs \<in> set os. Partition e (obs_Series obs) = pid" using process_inputs_routed [OF b(2)] by blast
  have "lookup_series (e_partitions e' ! nat pid) (start_batch e') k = cloneSeriesState (lookup_series ?p b k)"
    using b(3)
  proof
    assume "b_accepted b \<noteq> [] \<and> commit (batch_of pid b) r = (Inr created, r') \<and>
      e' = (count_events b e)\<lparr>e_partitions := (e_partitions e)[nat pid := install_batch b ?p]\<rparr>"
    then show ?thesis using b(1) lookup_series_installed by (auto simp: valid_pid_def nat_less_iff)
  next
    assume "b_accepted b = [] \<and> created = [] \<and> e' = count_events b e \<and> r' = r"
    then show ?thesis using process_inputs_accepted_none [OF b(2)]
      by (simp add: count_events_def lookup_series_start)
  qed
  with process_inputs_series [OF b(2)] show "lookup_series (e_partitions e' ! nat pid) (start_batch e') k = cloneSeriesState
           (foldl series_step (lookup_series ?p (start_batch e) k)
              (filter (\<lambda>obs. series_Key (obs_Series obs) = k) os))" by simp
qed

text \<open>
  C7. Redelivery is harmless: once a batch without resets has been evaluated, delivering it again raises no
  alert, commits nothing, and leaves partitions and repository as they are; every observation of it is
  counted as stale.
\<close>

theorem redelivered_batch_is_noop:
  assumes "EvaluateBatch commit now pid os e r = Some (Inr created, e', r')"
    and "\<forall>obs \<in> set os. \<not> obs_Reset obs \<and> cnd_OpenTime (obs_Candle obs) \<noteq> 0"
  shows "EvaluateBatch commit now' pid os e' r' =
           Some (Inr [], e'\<lparr>e_staleEvents := e_staleEvents e' + word_of_nat (length os)\<rparr>, r')"
proof -
  note l = EvaluateBatch_lookup [OF assms(1)]
  let ?p' = "e_partitions e' ! nat pid"
  have "engine_stale obs (lookup_series ?p' (start_batch e') (series_Key (obs_Series obs)))" if "obs \<in> set os" for obs
  proof -
    let ?os = "filter (\<lambda>o'. series_Key (obs_Series o') = series_Key (obs_Series obs)) os"
    have "engine_stale obs (live.run ?os s)" for s
      using assms(2) that by (intro live.run_replay_stale) auto
    then show ?thesis using assms(2) by (simp add: l(4) foldl_series_step_live)
  qed
  moreover have "\<forall>obs \<in> set os. Partition e' (obs_Series obs) = pid"
    using l(2,3) by (simp add: Partition_frame [of e' e])
  ultimately have "process_inputs now' e' pid ?p' os (start_batch e') =
      Some (None, (start_batch e')\<lparr>b_staleEvents := e_staleEvents e' + word_of_nat (length os)\<rparr>)"
    using assms(2) by (subst process_inputs_stale) (auto simp: start_batch_def)
  then show ?thesis using l(1)
    by (simp add: EvaluateBatch_def valid_pid_def count_events_def start_batch_def)
qed

text \<open>A small engine for examples: one partition, one definition that holds on red candles.\<close>

definition sample_definition :: alert_definition where
  "sample_definition = red_definition ''a'' zero_series"

definition sample_engine :: engine where
  "sample_engine = (New 1)\<lparr>e_byRoute := [routeKey zero_series \<mapsto> [compile_definition sample_definition]]\<rparr>"

lemma Partition_one: "length (e_partitions e) = 1 \<Longrightarrow> Partition e s = 0"
  by (simp add: Partition_def hash_partition_def)

lemma sample_engine_simps [simp]:
  "e_partitions sample_engine = [empty_partition]" "owns sample_engine 0"
  "Partition sample_engine s = 0"
  "definitionsFor zero_series sample_engine = [compile_definition sample_definition]"
  "e_staleEvents sample_engine = 0" "e_resetEvents sample_engine = 0" "e_ruleEvals sample_engine = 0"
  by (simp_all add: sample_engine_def New_def NewWithOwnership_def owns_def Partition_one definitionsFor_def
      get_route_def zero_series_def)

lemma sample_evaluates:
  "EvaluateDetailed (cd_rule (compile_definition sample_definition)) (red_at t) f = Some (True, [''red'' @ '' candle closed''], [])"
  using red_at_color [of t]
  by (simp add: EvaluateDetailed_def evaluate.simps eval_color_def sample_definition_def red_definition_def legacy_sample_def
      compile_definition_def color_rule_def Let_def)

lemma red_at_simps [simp]:
  "obs_Series (red_at t) = zero_series" "obs_Reset (red_at t) = False" "obs_Status (red_at t) = ''confirmed''"
  "obs_OccurredAt (red_at t) = t" "cnd_OpenTime (obs_Candle (red_at t)) = t" "with_zones (red_at t) s = red_at t"
  by (simp_all add: red_at_def zero_observation_def with_zones_def)

lemma sample_not_skipped: "0 \<le> t \<Longrightarrow> \<not> skipped (compile_definition sample_definition) (red_at t)"
  by (simp add: skipped_def definitionEnabledAt_def effectiveAt_def is_zero_def acceptsMode_def sample_definition_def
      red_definition_def legacy_sample_def)

lemma sample_triggers: "trigger_now sample_definition True (red_at t) zero_definition_state"
  by (simp add: trigger_now_def shouldTrigger_def cooling_def sample_definition_def red_definition_def legacy_sample_def
      lastTruth_def zero_definition_state_def)

definition sample_alert_at :: "go_time \<Rightarrow> alert" where
  "sample_alert_at t = engine_alert 0 sample_definition (red_at t) [''red'' @ '' candle closed''] []"

lemma sample_batch:
  "0 \<le> t \<Longrightarrow> \<exists>b. process_inputs 0 sample_engine 0 empty_partition [red_at t] (start_batch sample_engine) = Some (None, b) \<and>
     b_alerts b = [sample_alert_at t] \<and> b_accepted b = [red_at t]"
  using sample_not_skipped [of t] sample_evaluates [of t] sample_triggers [of t]
  by (simp add: process_input_def process_live_def engine_stale_def lookup_series_def start_batch_def empty_partition_def
      is_zero_def zero_series_state_def cloneSeriesState_def eval_definition_def lookup_definition_def
      sample_alert_at_def Let_def)

lemma sample_evaluated:
  "0 \<le> t \<Longrightarrow> \<exists>created e' r'. EvaluateBatch mem_CommitRuntimeBatch 0 0 [red_at t] sample_engine NewMemory = Some (Inr created, e', r')
     \<and> map alr_ID created = [alr_ID (sample_alert_at t)]"
  using sample_batch [of t]
  by (auto simp: EvaluateBatch_def mem_CommitRuntimeBatch_def batch_of_def NewMemory_def add_alert_cases alert_ids_def Let_def)

theorem redelivered_batch_is_noop_witness:
  "\<exists>created e' r'. EvaluateBatch mem_CommitRuntimeBatch 0 0 [red_at 5] sample_engine NewMemory = Some (Inr created, e', r')
     \<and> length created = 1
     \<and> EvaluateBatch mem_CommitRuntimeBatch 9 0 [red_at 5] e' r' = Some (Inr [], e'\<lparr>e_staleEvents := e_staleEvents e' + 1\<rparr>, r')"
proof -
  obtain created e' r' where
    "EvaluateBatch mem_CommitRuntimeBatch 0 0 [red_at 5] sample_engine NewMemory = Some (Inr created, e', r')"
    and "map alr_ID created = [alr_ID (sample_alert_at 5)]" using sample_evaluated [of 5] by auto
  moreover from this(2) have "length created = 1" by (metis length_map length_Cons list.size(3) One_nat_def)
  ultimately show ?thesis using redelivered_batch_is_noop [of mem_CommitRuntimeBatch 0 0 "[red_at 5]"] by fastforce
qed

section \<open>Where alerts come from\<close>

text \<open>
  An alert is justified by an observation and a served definition: the definition is active at the time of
  the event, accepts its status, and its rule holds on the observation and some feature state.
\<close>

definition justified :: "go_time \<Rightarrow> engine \<Rightarrow> observation list \<Rightarrow> alert \<Rightarrow> bool" where
  "justified now e accepted a \<longleftrightarrow>
     (\<exists>obs \<in> set accepted. \<exists>c \<in> set (definitionsFor (obs_Series obs) e). \<exists>f reasons facts.
        \<not> obs_Reset obs \<and> definitionEnabledAt (cd_definition c) (obs_OccurredAt obs) \<and>
        acceptsMode (dfn_EvaluationMode (cd_definition c)) (obs_Status obs) \<and>
        EvaluateDetailed (cd_rule c) obs f = Some (True, reasons, facts) \<and>
        a = engine_alert now (cd_definition c) obs reasons facts)"

lemma trigger_truth: "trigger_now d truth obs s \<Longrightarrow> truth"
  by (auto simp: trigger_now_def shouldTrigger_def split: if_splits)

lemma eval_definition_justified:
  assumes "eval_definition now p obs f c b = Some b'" and "c \<in> set (definitionsFor (obs_Series obs) e)" and "\<not> obs_Reset obs"
  shows "\<forall>a \<in> set (b_alerts b'). a \<in> set (b_alerts b) \<or> justified now e [obs] a"
  using assms trigger_truth
  by (fastforce simp: eval_definition_def skipped_def justified_def Let_def split: if_splits option.splits)

lemma eval_definitions_justified:
  assumes "fold_opt (eval_definition now p obs f) (definitionsFor (obs_Series obs) e) b = Some b'" and "\<not> obs_Reset obs"
  shows "\<forall>a \<in> set (b_alerts b'). a \<in> set (b_alerts b) \<or> justified now e [obs] a"
proof (rule fold_opt_invariant [OF assms(1)])
  fix c b1 b2
  assume "c \<in> set (definitionsFor (obs_Series obs) e)" and "eval_definition now p obs f c b1 = Some b2"
    and "\<forall>a \<in> set (b_alerts b1). a \<in> set (b_alerts b) \<or> justified now e [obs] a"
  with eval_definition_justified [of now p obs f c b1 b2 e] assms(2)
  show "\<forall>a \<in> set (b_alerts b2). a \<in> set (b_alerts b) \<or> justified now e [obs] a" by blast
qed simp

lemma justified_mono: "justified now e os a \<Longrightarrow> set os \<subseteq> set os' \<Longrightarrow> justified now e os' a"
  unfolding justified_def by blast

lemma justified_append: "justified now e os a \<Longrightarrow> justified now e (os @ os') a"
  by (rule justified_mono) auto

lemma process_input_justified:
  assumes "process_input now e p input b = Some b'" and "\<forall>a \<in> set (b_alerts b). justified now e (b_accepted b) a"
  shows "\<forall>a \<in> set (b_alerts b'). justified now e (b_accepted b') a"
proof (cases "obs_Reset input")
  case True
  with assms(1) have "b_alerts b' = b_alerts b" and "\<exists>os. b_accepted b' = b_accepted b @ os"
    by (auto simp: process_input_def process_reset_def Let_def split: if_splits dest!: reset_definitions_frame)
  with assms(2) show ?thesis by (auto simp: justified_append)
next
  case False
  let ?s = "lookup_series p b (series_Key (obs_Series input))"
  let ?obs = "with_zones input ?s"
  show ?thesis
  proof (cases "engine_stale input ?s")
    case True
    with assms False show ?thesis by (auto simp: process_input_def)
  next
    case not_stale: False
    with assms(1) False obtain b1 where
      b1: "fold_opt (eval_definition now p ?obs (live_feature ?obs ?s)) (definitionsFor (obs_Series ?obs) e) b = Some b1"
      and b': "b_alerts b' = b_alerts b1" "b_accepted b' = b_accepted b1 @ [?obs]"
      by (auto simp: process_input_def process_live_def Let_def)
    have "b_accepted b1 = b_accepted b" using eval_definitions_frame [OF b1] by simp
    moreover have "justified now e (b_accepted b @ [?obs]) a" if "a \<in> set (b_alerts b1)" for a
    proof (cases "a \<in> set (b_alerts b)")
      case True
      with assms(2) show ?thesis by (simp add: justified_append)
    next
      case new: False
      with bspec [OF eval_definitions_justified [OF b1] that] False have "justified now e [?obs] a" by simp
      then show ?thesis by (rule justified_mono) simp
    qed
    ultimately show ?thesis using b' by simp
  qed
qed

lemma process_inputs_justified:
  "process_inputs now e pid p os b = Some (err, b') \<Longrightarrow> \<forall>a \<in> set (b_alerts b). justified now e (b_accepted b) a \<Longrightarrow>
   \<forall>a \<in> set (b_alerts b'). justified now e (b_accepted b') a"
proof (induction os arbitrary: b)
  case (Cons input os)
  show ?case
  proof (cases "Partition e (obs_Series input) = pid")
    case True
    with Cons.prems obtain b1 where b1: "process_input now e p input b = Some b1"
      and rest: "process_inputs now e pid p os b1 = Some (err, b')" by (auto split: option.splits)
    from Cons.IH [OF rest process_input_justified [OF b1 Cons.prems(2)]] show ?thesis .
  next
    case False
    with Cons.prems show ?thesis by auto
  qed
qed simp

text \<open>
  C11. No alert without cause: every alert of the batch that the evaluator hands to the repository is the
  alert of an accepted, non-reset observation of that batch under a definition served for its series, which
  is active at the event time and accepts the status, and whose compiled rule holds on the observation.
\<close>

theorem batch_alerts_justified:
  assumes "process_inputs now e pid p os (start_batch e) = Some (None, b)"
  shows "\<forall>a \<in> set (rb_Alerts (batch_of pid b)). justified now e (rb_Observations (batch_of pid b)) a"
  using process_inputs_justified [OF assms] by (simp add: batch_of_def start_batch_def)

theorem batch_alerts_justified_witness:
  "\<exists>b. process_inputs 0 sample_engine 0 empty_partition [red_at 5] (start_batch sample_engine) = Some (None, b) \<and>
     justified 0 sample_engine [red_at 5] (sample_alert_at 5)"
proof -
  obtain b where b: "process_inputs 0 sample_engine 0 empty_partition [red_at 5] (start_batch sample_engine) = Some (None, b)"
    "b_alerts b = [sample_alert_at 5]" "b_accepted b = [red_at 5]" using sample_batch [of 5] by auto
  with batch_alerts_justified [OF b(1)] show ?thesis by (simp add: batch_of_def)
qed

section \<open>Resets\<close>

text \<open>The definition state a reset leaves: the truth on the corrected history, and of the past only the trigger times.\<close>

definition reset_definition_state ::
  "partition_runtime \<Rightarrow> observation \<Rightarrow> compiled_definition \<Rightarrow> definition_evaluation_state" where
  "reset_definition_state p obs c =
    (get_or zero_definition_state (pr_definitions p)
       (DefinitionStateKey (dfn_ID (cd_definition c)) (series_Key (obs_Series obs))))
      \<lparr>ds_LastTruthConfirmed := (case EvaluateDetailed (cd_rule c) obs (history_feature (obs_History obs)) of
          Some (truth, _, _) \<Rightarrow> truth | None \<Rightarrow> False),
       ds_LastTruthIntrabar := False\<rparr>"

lemma history_feature_fold:
  "history_feature h = foldl Advance zero_feature (map (\<lambda>bar. zero_observation\<lparr>obs_Status := ''confirmed'', obs_Candle := bar\<rparr>) h)"
  unfolding history_feature_def by (induction h rule: rev_induct) simp_all

text \<open>
  C15. A reset rebuilds its series from the corrected snapshot alone: an accepted reset raises no alert, and
  the state of the series afterwards is a function of the reset observation; with a confirmed status its
  histories are the last 500 candles, and the colours of the last 100, of \<open>History\<close> followed by its candle.
\<close>

theorem reset_rebuilds_series:
  assumes "process_input now e p input b = Some b'" and "obs_Reset input"
    and "\<not> reset_stale input (lookup_series p b (series_Key (obs_Series input)))" and "obs_Status input = ''confirmed''"
  shows "b_alerts b' = b_alerts b \<and>
         b_seriesStates b' = (b_seriesStates b)(series_Key (obs_Series input) \<mapsto> reset_series_state input) \<and>
         fs_Candles (ss_Confirmed (reset_series_state input)) = last_n 500 (obs_History input @ [obs_Candle input]) \<and>
         fs_CandleColors (ss_Confirmed (reset_series_state input)) =
           last_n 100 (map candleColor (obs_History input @ [obs_Candle input]))"
proof -
  let ?os = "map (\<lambda>bar. zero_observation\<lparr>obs_Status := ''confirmed'', obs_Candle := bar\<rparr>) (obs_History input) @ [input]"
  have "filter confirmed ?os = ?os" using assms(4) by (auto simp: filter_id_conv confirmed_def)
  moreover have "ss_Confirmed (reset_series_state input) = foldl Advance zero_feature ?os"
    by (simp add: reset_series_state_def history_feature_fold Let_def)
  ultimately have "fs_Candles (ss_Confirmed (reset_series_state input)) = last_n 500 (map obs_Candle ?os)"
    and "fs_CandleColors (ss_Confirmed (reset_series_state input)) = last_n 100 (map (candleColor \<circ> obs_Candle) ?os)"
    by (simp_all only: Advance_fold_candles Advance_fold_colors)
  with assms show ?thesis
    by (auto simp: process_input_def process_reset_def Let_def comp_def dest!: reset_definitions_frame)
qed

definition red_reset :: "go_time \<Rightarrow> observation" where
  "red_reset t = (red_at t)\<lparr>obs_Reset := True, obs_SourceEventID := ''reset-1'', obs_History := [red_candle]\<rparr>"

lemma red_reset_simps [simp]:
  "obs_Series (red_reset t) = zero_series" "obs_Reset (red_reset t)" "obs_Status (red_reset t) = ''confirmed''"
  "obs_History (red_reset t) = [red_candle]" "obs_Candle (red_reset t) = obs_Candle (red_at t)"
  by (simp_all add: red_reset_def)

lemma sample_routes_ok: "routes_ok sample_engine"
  using red_definition_valid [of "''a''" zero_series]
  by (simp add: routes_ok_def sample_engine_def get_route_def get_or_def compiled_ok_eq sample_definition_def
      red_definition_def legacy_sample_def)

lemma sample_reset:
  obtains b' where "process_input 0 sample_engine empty_partition (red_reset 5) (start_batch sample_engine) = Some b'"
    and "\<not> reset_stale (red_reset 5) (lookup_series empty_partition (start_batch sample_engine) (series_Key zero_series))"
proof -
  have "\<not> reset_stale (red_reset 5) (lookup_series empty_partition (start_batch sample_engine) (series_Key zero_series))"
    by (simp add: lookup_series_start empty_partition_def red_reset_def reset_stale_def zero_series_state_def is_zero_def
        cloneSeriesState_def)
  with process_input_total [OF sample_routes_ok] that show thesis by blast
qed

theorem reset_rebuilds_series_witness:
  "\<exists>b'. process_input 0 sample_engine empty_partition (red_reset 5) (start_batch sample_engine) = Some b' \<and>
     b_alerts b' = [] \<and>
     fs_CandleColors (ss_Confirmed (reset_series_state (red_reset 5))) = [''red'', ''red'']"
proof -
  obtain b' where b': "process_input 0 sample_engine empty_partition (red_reset 5) (start_batch sample_engine) = Some b'"
    "\<not> reset_stale (red_reset 5) (lookup_series empty_partition (start_batch sample_engine) (series_Key zero_series))"
    by (rule sample_reset)
  with reset_rebuilds_series [OF b'(1)] show ?thesis
    using red_at_color [of 5] red_candle_color by (simp add: last_n_def start_batch_def)
qed

lemma reset_definition_states_step:
  assumes "reset_definition p obs c b = Some b'"
  shows "\<forall>k s. b_definitionStates b' k = Some s \<longrightarrow> b_definitionStates b k = Some s \<or>
    (acceptsMode (dfn_EvaluationMode (cd_definition c)) ''confirmed'' \<and>
     k = DefinitionStateKey (dfn_ID (cd_definition c)) (series_Key (obs_Series obs)) \<and> s = reset_definition_state p obs c)"
  using assms
  by (auto simp: reset_definition_def reset_definition_state_def Let_def split: if_splits option.splits)

text \<open>
  A reset forgets the truths of its series: every definition state of the series that the batch holds
  after an accepted reset is that of a served definition accepting confirmed bars, its confirmed truth is the
  rule's value on the corrected history, its intrabar truth is cleared, and only the times of the last
  trigger are taken over from the partition; a later lookup of any other definition starts from zero.
\<close>

theorem reset_definition_states_recomputed:
  assumes "process_input now e p input b = Some b'" and "obs_Reset input"
    and "\<not> reset_stale input (lookup_series p b (series_Key (obs_Series input)))"
    and "definitionSeriesKey k = series_Key (obs_Series input)"
  shows "(\<exists>c \<in> set (definitionsFor (obs_Series input) e).
            acceptsMode (dfn_EvaluationMode (cd_definition c)) ''confirmed'' \<and>
            k = DefinitionStateKey (dfn_ID (cd_definition c)) (series_Key (obs_Series input)) \<and>
            b_definitionStates b' k = Some (reset_definition_state p input c)) \<or>
         lookup_definition p b' (series_Key (obs_Series input)) k = zero_definition_state"
proof -
  let ?key = "series_Key (obs_Series input)"
  let ?cs = "definitionsFor (obs_Series input) e"
  let ?b0 = "b\<lparr>b_resetEvents := b_resetEvents b + 1, b_resetSeries := List.insert ?key (b_resetSeries b),
     b_definitionStates := delete_keys (\<lambda>k. definitionSeriesKey k = ?key) (b_definitionStates b)\<rparr>"
  from assms obtain b1 where b1: "fold_opt (reset_definition p input) ?cs ?b0 = Some b1"
    and b': "b_definitionStates b' = b_definitionStates b1" "b_resetSeries b' = b_resetSeries b1"
    by (auto simp: process_input_def process_reset_def Let_def)
  have "\<forall>s. b_definitionStates b1 k = Some s \<longrightarrow>
      (\<exists>c \<in> set ?cs. acceptsMode (dfn_EvaluationMode (cd_definition c)) ''confirmed'' \<and>
         k = DefinitionStateKey (dfn_ID (cd_definition c)) ?key \<and> s = reset_definition_state p input c)"
  proof (rule fold_opt_invariant [OF b1])
    show "\<forall>s. b_definitionStates ?b0 k = Some s \<longrightarrow>
      (\<exists>c \<in> set ?cs. acceptsMode (dfn_EvaluationMode (cd_definition c)) ''confirmed'' \<and>
         k = DefinitionStateKey (dfn_ID (cd_definition c)) ?key \<and> s = reset_definition_state p input c)"
      using assms(4) by simp
  qed (use reset_definition_states_step in blast)
  moreover have "?key \<in> set (b_resetSeries b')" using reset_definitions_frame [OF b1] b' by simp
  ultimately show ?thesis using b'(1)
    by (cases "b_definitionStates b' k") (auto simp: lookup_definition_def)
qed

lemma definitionSeriesKey_sample: "definitionSeriesKey (DefinitionStateKey ''a'' k) = k"
  by (rule definitionSeriesKey_key) simp

theorem reset_definition_states_recomputed_witness:
  "\<exists>b'. process_input 0 sample_engine empty_partition (red_reset 5) (start_batch sample_engine) = Some b' \<and>
     (b_definitionStates b' (DefinitionStateKey ''a'' (series_Key zero_series)) =
        Some (reset_definition_state empty_partition (red_reset 5) (compile_definition sample_definition)) \<or>
      lookup_definition empty_partition b' (series_Key zero_series) (DefinitionStateKey ''a'' (series_Key zero_series)) =
        zero_definition_state)"
proof -
  obtain b' where b': "process_input 0 sample_engine empty_partition (red_reset 5) (start_batch sample_engine) = Some b'"
    "\<not> reset_stale (red_reset 5) (lookup_series empty_partition (start_batch sample_engine) (series_Key zero_series))"
    by (rule sample_reset)
  with reset_definition_states_recomputed [OF b'(1), of "DefinitionStateKey ''a'' (series_Key zero_series)"]
  show ?thesis by (auto simp: definitionSeriesKey_sample)
qed

end
