(* ===== verification/Engine_Trigger.thy ===== *)
theory Engine_Trigger
  imports Engine_Batch
begin

text \<open>
  The trigger discipline. The state of a definition on a series is an automaton driven by the
  truth of its rule on the observations of the series; a batch runs that automaton and its alerts are the
  automaton's triggers. Cooldown, one alert per bar and the rising edge are
  properties of the automaton, and through it of every batch.
\<close>

section \<open>The trigger automaton\<close>

type_synonym sample = "bool \<times> observation"

abbreviation bar_of :: "observation \<Rightarrow> go_time" where
  "bar_of obs \<equiv> cnd_OpenTime (obs_Candle obs)"

fun trig_run ::
  "alert_definition \<Rightarrow> sample list \<Rightarrow> definition_evaluation_state \<Rightarrow> observation list \<times> definition_evaluation_state" where
  "trig_run d [] s = ([], s)"
| "trig_run d ((truth, obs) # xs) s =
    (let (fired, s') = trig_run d xs (trigger_state d truth obs s)
     in (if trigger_now d truth obs s then obs # fired else fired, s'))"

lemma trig_run_append:
  "trig_run d (xs @ ys) s =
     (fst (trig_run d xs s) @ fst (trig_run d ys (snd (trig_run d xs s))), snd (trig_run d ys (snd (trig_run d xs s))))"
  by (induction xs arbitrary: s) (auto simp: Let_def split: prod.splits)

lemma trig_run_snoc:
  "trig_run d (xs @ [(truth, obs)]) s =
    (let (fired, s') = trig_run d xs s
     in (if trigger_now d truth obs s' then fired @ [obs] else fired, trigger_state d truth obs s'))"
  by (simp add: trig_run_append Let_def split: prod.splits)

lemma trig_run_fired: "set (fst (trig_run d xs s)) \<subseteq> snd ` set xs"
  by (induction xs rule: rev_induct) (auto simp: trig_run_snoc Let_def split: prod.splits if_splits)

lemma trigger_state_marks:
  "trigger_now d truth obs s \<Longrightarrow> ds_LastTriggerAt (trigger_state d truth obs s) = obs_OccurredAt obs \<and>
     ds_LastAlertBar (trigger_state d truth obs s) = cnd_OpenTime (obs_Candle obs)"
  "\<not> trigger_now d truth obs s \<Longrightarrow> ds_LastTriggerAt (trigger_state d truth obs s) = ds_LastTriggerAt s \<and>
     ds_LastAlertBar (trigger_state d truth obs s) = ds_LastAlertBar s"
  by (auto simp: trigger_state_def Let_def)

text \<open>The marks after a run are those of the last trigger.\<close>

lemma trig_run_marks:
  "ds_LastTriggerAt (snd (trig_run d xs s)) = last (ds_LastTriggerAt s # map obs_OccurredAt (fst (trig_run d xs s)))"
  "ds_LastAlertBar (snd (trig_run d xs s)) =
     last (ds_LastAlertBar s # map bar_of (fst (trig_run d xs s)))"
  by (induction xs rule: rev_induct) (auto simp: trig_run_snoc trigger_state_marks Let_def split: prod.splits if_splits)

subsection \<open>Cooldown\<close>

definition cooldown_ok :: "alert_definition \<Rightarrow> bool" where
  "cooldown_ok d \<longleftrightarrow> 0 < dfn_CooldownSeconds d \<and> dfn_CooldownSeconds d * second < 2 ^ 63"

definition apart :: "alert_definition \<Rightarrow> go_time \<Rightarrow> go_time \<Rightarrow> bool" where
  "apart d t u \<longleftrightarrow> t + dfn_CooldownSeconds d * second \<le> u"

lemma apart_trans: "cooldown_ok d \<Longrightarrow> apart d t u \<Longrightarrow> apart d u v \<Longrightarrow> apart d t v"
  by (auto simp: apart_def cooldown_ok_def)

lemma trigger_now_apart:
  assumes "trigger_now d truth obs s" and "cooldown_ok d" and "ds_LastTriggerAt s \<noteq> 0"
  shows "apart d (ds_LastTriggerAt s) (obs_OccurredAt obs)"
proof -
  from assms have "\<not> time_sub (obs_OccurredAt obs) (ds_LastTriggerAt s) < dfn_CooldownSeconds d * second"
    by (simp add: trigger_now_def cooling_def cooldown_ok_def is_zero_def duration_mul_def)
  with assms(2) show ?thesis
    using time_sub_less_iff [of "dfn_CooldownSeconds d * second" "obs_OccurredAt obs" "ds_LastTriggerAt s"]
    by (simp add: apart_def cooldown_ok_def)
qed

lemma sorted_wrt_snoc_trans:
  assumes "\<And>x y z. R x y \<Longrightarrow> R y z \<Longrightarrow> R x z" and "sorted_wrt R (xs @ [y])" and "R y z"
  shows "sorted_wrt R (xs @ [y, z])"
  using assms by (auto simp: sorted_wrt_append)

lemma trig_run_cooldown:
  assumes "cooldown_ok d" and "\<forall>x \<in> set xs. obs_OccurredAt (snd x) \<noteq> 0"
  shows "sorted_wrt (apart d) ((if ds_LastTriggerAt s = 0 then [] else [ds_LastTriggerAt s])
           @ map obs_OccurredAt (fst (trig_run d xs s)))"
  using assms(2)
proof (induction xs rule: rev_induct)
  case Nil
  then show ?case by simp
next
  case (snoc x xs)
  obtain truth obs where x: "x = (truth, obs)" by fastforce
  let ?s = "snd (trig_run d xs s)" and ?pre = "if ds_LastTriggerAt s = 0 then [] else [ds_LastTriggerAt s]"
  let ?ts = "map obs_OccurredAt (fst (trig_run d xs s))"
  have IH: "sorted_wrt (apart d) (?pre @ ?ts)" using snoc by simp
  show ?case
  proof (cases "trigger_now d truth obs ?s")
    case False
    with IH x show ?thesis by (simp add: trig_run_snoc split_beta Let_def)
  next
    case True
    have "sorted_wrt (apart d) (?pre @ ?ts @ [obs_OccurredAt obs])"
    proof (cases "?pre @ ?ts = []")
      case True
      then show ?thesis by (metis append.assoc append_Nil sorted_wrt1)
    next
      case False
      then obtain zs z where zs: "?pre @ ?ts = zs @ [z]" by (metis rev_exhaust)
      have nz: "\<forall>t \<in> set ?ts. t \<noteq> 0" using snoc.prems trig_run_fired [of d xs s] by fastforce
      have "z = last (ds_LastTriggerAt s # ?ts)" using zs by (cases "?ts = []") (auto split: if_splits dest: arg_cong [of _ _ last])
      then have z: "z = ds_LastTriggerAt ?s" by (simp add: trig_run_marks)
      have "z \<in> set (?pre @ ?ts)" using zs by simp
      with nz have "z \<noteq> 0" by (auto split: if_splits)
      with trigger_now_apart [OF True assms(1)] z have "apart d z (obs_OccurredAt obs)" by simp
      with sorted_wrt_snoc_trans [of "apart d" zs z] IH zs apart_trans [OF assms(1)] show ?thesis
        by (metis append.assoc append_Cons append_Nil)
    qed
    with True x show ?thesis by (simp add: trig_run_snoc split_beta Let_def)
  qed
qed

subsection \<open>Once per bar\<close>

lemma trig_run_once_per_bar:
  assumes "dfn_TriggerMode d = ''once_per_bar''"
    and "sorted (ds_LastAlertBar s # map (\<lambda>x. cnd_OpenTime (obs_Candle (snd x))) xs)"
    and "\<forall>x \<in> set xs. 0 < cnd_OpenTime (obs_Candle (snd x))"
  shows "sorted_wrt (<) (map bar_of (fst (trig_run d xs s))) \<and>
         (\<forall>obs \<in> set (fst (trig_run d xs s)). ds_LastAlertBar s \<noteq> 0 \<longrightarrow> ds_LastAlertBar s < cnd_OpenTime (obs_Candle obs))"
  using assms(2,3)
proof (induction xs rule: rev_induct)
  case Nil
  then show ?case by simp
next
  case (snoc x xs)
  obtain truth obs where x: "x = (truth, obs)" by fastforce
  let ?s = "snd (trig_run d xs s)" and ?fired = "fst (trig_run d xs s)" and ?bar = "cnd_OpenTime (obs_Candle obs)"
  from snoc have IH: "sorted_wrt (<) (map bar_of ?fired)"
    "\<forall>obs \<in> set ?fired. ds_LastAlertBar s \<noteq> 0 \<longrightarrow> ds_LastAlertBar s < cnd_OpenTime (obs_Candle obs)"
    by (auto simp: sorted_append)
  have le: "\<forall>o' \<in> set ?fired. cnd_OpenTime (obs_Candle o') \<le> ?bar" "ds_LastAlertBar s \<le> ?bar"
    using trig_run_fired [of d xs s] snoc.prems(1) x by (auto simp: sorted_append)
  have pos: "\<forall>o' \<in> set ?fired. 0 < cnd_OpenTime (obs_Candle o')"
    using trig_run_fired [of d xs s] snoc.prems(2) by fastforce
  show ?case
  proof (cases "trigger_now d truth obs ?s")
    case False
    with IH x show ?thesis by (simp add: trig_run_snoc split_beta Let_def)
  next
    case True
    with assms(1) have fresh: "ds_LastAlertBar ?s = 0 \<or> ds_LastAlertBar ?s \<noteq> ?bar"
      by (auto simp: trigger_now_def shouldTrigger_def is_zero_def split: if_splits)
    have "(\<forall>o' \<in> set ?fired. cnd_OpenTime (obs_Candle o') < ?bar) \<and> (ds_LastAlertBar s \<noteq> 0 \<longrightarrow> ds_LastAlertBar s < ?bar)"
    proof (cases "?fired = []")
      case True
      with fresh le show ?thesis by (auto simp: trig_run_marks)
    next
      case False
      then obtain ys y where ys: "?fired = ys @ [y]" by (metis rev_exhaust)
      with fresh pos have "cnd_OpenTime (obs_Candle y) \<noteq> ?bar" by (auto simp: trig_run_marks)
      with le ys have "cnd_OpenTime (obs_Candle y) < ?bar" by auto
      with IH ys show ?thesis by (force simp: sorted_wrt_append)
    qed
    with IH True x show ?thesis by (auto simp: trig_run_snoc split_beta Let_def sorted_wrt_append)
  qed
qed

subsection \<open>Rising edges\<close>

text \<open>The observations at which a sequence of truths rises, starting from a previous truth.\<close>

fun rising :: "bool \<Rightarrow> sample list \<Rightarrow> observation list" where
  "rising previous [] = []"
| "rising previous ((truth, obs) # xs) = (if truth \<and> \<not> previous then obs # rising truth xs else rising truth xs)"

lemma trig_run_rising:
  assumes "dfn_TriggerMode d = ''on_occurrence''" and "dfn_CooldownSeconds d = 0" and "\<not> Pulse (dfn_Rule d)"
    and "\<forall>x \<in> set xs. obs_Status (snd x) = ''confirmed''"
  shows "fst (trig_run d xs s) = rising (ds_LastTruthConfirmed s) xs"
  using assms(4)
proof (induction xs arbitrary: s)
  case (Cons x xs)
  obtain truth obs where x: "x = (truth, obs)" by fastforce
  have t: "trigger_now d truth obs s \<longleftrightarrow> truth \<and> \<not> ds_LastTruthConfirmed s"
    using assms(1-3) Cons.prems x by (auto simp: trigger_now_def shouldTrigger_def cooling_def lastTruth_def)
  have "ds_LastTruthConfirmed (trigger_state d truth obs s) = truth"
    using Cons.prems x by (simp add: trigger_state_def Let_def)
  with Cons t x show ?case by (cases truth) (simp_all add: split_beta Let_def)
qed simp

section \<open>Batches run the automaton\<close>

definition alerts_for :: "alert_definition \<Rightarrow> string \<Rightarrow> alert list \<Rightarrow> alert list" where
  "alerts_for d k as = filter (\<lambda>a. alr_DefinitionID a = dfn_ID d \<and> series_Key (alr_Series a) = k) as"

definition alert_of :: "go_time \<Rightarrow> alert_definition \<Rightarrow> alert \<Rightarrow> observation \<Rightarrow> bool" where
  "alert_of now d a obs \<longleftrightarrow> (\<exists>reasons facts. a = engine_alert now d obs reasons facts)"

definition dstate :: "partition_runtime \<Rightarrow> alert_definition \<Rightarrow> string \<Rightarrow> batch_state \<Rightarrow> definition_evaluation_state" where
  "dstate p d k b = lookup_definition p b k (DefinitionStateKey (dfn_ID d) k)"

text \<open>Between two states of a batch, definition \<open>d\<close> on series key \<open>k\<close> has run the automaton over \<open>xs\<close>.\<close>

definition traced ::
  "go_time \<Rightarrow> partition_runtime \<Rightarrow> alert_definition \<Rightarrow> string \<Rightarrow> batch_state \<Rightarrow> batch_state \<Rightarrow> sample list \<Rightarrow> bool" where
  "traced now p d k b b' xs \<longleftrightarrow>
     dstate p d k b' = snd (trig_run d xs (dstate p d k b)) \<and>
     (\<exists>new. alerts_for d k (b_alerts b') = alerts_for d k (b_alerts b) @ new \<and>
            list_all2 (alert_of now d) new (fst (trig_run d xs (dstate p d k b))))"

lemma traced_refl: "dstate p d k b' = dstate p d k b \<Longrightarrow> alerts_for d k (b_alerts b') = alerts_for d k (b_alerts b) \<Longrightarrow>
   traced now p d k b b' []"
  by (simp add: traced_def)

lemma traced_trans: "traced now p d k b b1 xs \<Longrightarrow> traced now p d k b1 b2 ys \<Longrightarrow> traced now p d k b b2 (xs @ ys)"
  unfolding traced_def trig_run_append by (auto intro: list_all2_appendI)

text \<open>Definitions are told apart by their IDs, and no ID contains the separator of the state keys.\<close>

definition sole :: "alert_definition \<Rightarrow> engine \<Rightarrow> bool" where
  "sole d e \<longleftrightarrow> CHR ''|'' \<notin> set (dfn_ID d) \<and>
     (\<forall>s. \<forall>c \<in> set (definitionsFor s e).
        CHR ''|'' \<notin> set (dfn_ID (cd_definition c)) \<and> (dfn_ID (cd_definition c) = dfn_ID d \<longrightarrow> cd_definition c = d))"

text \<open>An entry of a run is an evaluation of the definition's rule on a served observation that was not skipped.\<close>

definition sampled :: "engine \<Rightarrow> alert_definition \<Rightarrow> string \<Rightarrow> observation \<Rightarrow> sample \<Rightarrow> bool" where
  "sampled e d k obs x \<longleftrightarrow> snd x = obs \<and> series_Key (obs_Series obs) = k \<and>
     (\<exists>c \<in> set (definitionsFor (obs_Series obs) e). \<exists>f reasons facts. cd_definition c = d \<and> \<not> skipped c obs \<and>
        EvaluateDetailed (cd_rule c) obs f = Some (fst x, reasons, facts))"

lemma eval_definition_traced:
  assumes ev: "eval_definition now p obs f c b = Some b'" and "sole d e" and "c \<in> set (definitionsFor (obs_Series obs) e)"
  shows "\<exists>xs. traced now p d k b b' xs \<and> (\<forall>x \<in> set xs. sampled e d k obs x)"
proof -
  let ?c = "cd_definition c" and ?key = "series_Key (obs_Series obs)"
  have bars: "CHR ''|'' \<notin> set (dfn_ID d)" "CHR ''|'' \<notin> set (dfn_ID ?c)" and same: "dfn_ID ?c = dfn_ID d \<longrightarrow> ?c = d"
    using assms(2,3) by (auto simp: sole_def)
  show ?thesis
  proof (cases "skipped c obs")
    case True
    with ev have "b' = b" by (simp add: eval_definition_def Let_def)
    then show ?thesis using traced_refl by fastforce
  next
    case not_skipped: False
    with ev obtain truth reasons facts where
      res: "EvaluateDetailed (cd_rule c) obs f = Some (truth, reasons, facts)"
      by (auto simp: eval_definition_def Let_def split: option.splits)
    define s0 where "s0 = lookup_definition p b ?key (DefinitionStateKey (dfn_ID ?c) ?key)"
    with ev not_skipped res have b': "b' = b\<lparr>b_ruleEvals := b_ruleEvals b + 1,
        b_alerts := b_alerts b @ (if trigger_now ?c truth obs s0 then [engine_alert now ?c obs reasons facts] else []),
        b_definitionStates := (b_definitionStates b)(DefinitionStateKey (dfn_ID ?c) ?key \<mapsto> trigger_state ?c truth obs s0)\<rparr>"
      by (simp add: eval_definition_def Let_def)
    show ?thesis
    proof (cases "dfn_ID ?c = dfn_ID d \<and> ?key = k")
      case True
      with same have d: "?c = d" by simp
      have "traced now p d k b b' [(truth, obs)]"
        using True by (auto simp: traced_def dstate_def b' d s0_def alerts_for_def engine_alert_def alert_of_def
            lookup_definition_def)
      moreover have "sampled e d k obs (truth, obs)"
        using True d assms(3) res not_skipped by (auto simp: sampled_def)
      ultimately show ?thesis by fastforce
    next
      case False
      then have "DefinitionStateKey (dfn_ID d) k \<noteq> DefinitionStateKey (dfn_ID ?c) ?key"
        using bars by (auto simp: DefinitionStateKey_inj)
      moreover have "alerts_for d k (b_alerts b') = alerts_for d k (b_alerts b)"
        using False by (auto simp: b' alerts_for_def engine_alert_def)
      ultimately have "traced now p d k b b' []"
        by (intro traced_refl) (simp_all add: b' dstate_def lookup_definition_def)
      then show ?thesis by fastforce
    qed
  qed
qed

lemma eval_definitions_traced:
  assumes "fold_opt (eval_definition now p obs f) cs b = Some b'" and "sole d e" and "set cs \<subseteq> set (definitionsFor (obs_Series obs) e)"
  shows "\<exists>xs. traced now p d k b b' xs \<and> (\<forall>x \<in> set xs. sampled e d k obs x)"
  using assms(1,3)
proof (induction cs arbitrary: b)
  case Nil
  then show ?case using traced_refl by fastforce
next
  case (Cons c cs)
  then obtain b1 where b1: "eval_definition now p obs f c b = Some b1"
    and rest: "fold_opt (eval_definition now p obs f) cs b1 = Some b'" by (auto split: option.splits)
  obtain xs where xs: "traced now p d k b b1 xs" "\<forall>x \<in> set xs. sampled e d k obs x"
    using eval_definition_traced [OF b1 assms(2), of k] Cons.prems(2) by auto
  obtain ys where ys: "traced now p d k b1 b' ys" "\<forall>x \<in> set ys. sampled e d k obs x"
    using Cons.IH [OF rest] Cons.prems(2) by auto
  have "traced now p d k b b' (xs @ ys)" using xs ys by (intro traced_trans)
  moreover have "\<forall>x \<in> set (xs @ ys). sampled e d k obs x" using xs ys by auto
  ultimately show ?case by blast
qed

text \<open>One observation: what it samples is itself, and it is not stale when it is sampled.\<close>

lemma process_input_traced:
  assumes "process_input now e p input b = Some b'" and "sole d e" and "\<not> obs_Reset input"
  shows "\<exists>xs s. traced now p d k b b' xs \<and> (\<forall>x \<in> set xs. sampled e d k (with_zones input s) x) \<and>
           (xs \<noteq> [] \<longrightarrow> \<not> engine_stale input (lookup_series p b k))"
proof -
  let ?s = "lookup_series p b (series_Key (obs_Series input))"
  let ?obs = "with_zones input ?s"
  show ?thesis
  proof (cases "engine_stale input ?s")
    case True
    with assms have "b' = b\<lparr>b_staleEvents := b_staleEvents b + 1\<rparr>" by (simp add: process_input_def)
    then have "traced now p d k b b' []" by (intro traced_refl) (simp_all add: dstate_def lookup_definition_def)
    then show ?thesis by fastforce
  next
    case False
    with assms(1,3) obtain b1 where
      b1: "fold_opt (eval_definition now p ?obs (live_feature ?obs ?s)) (definitionsFor (obs_Series ?obs) e) b = Some b1"
      and b': "b' = b1\<lparr>b_seriesStates := (b_seriesStates b1)(series_Key (obs_Series input) \<mapsto> live_series_state ?obs ?s),
                        b_accepted := b_accepted b1 @ [?obs]\<rparr>"
      by (auto simp: process_input_def process_live_def Let_def)
    obtain xs where xs: "traced now p d k b b1 xs" "\<forall>x \<in> set xs. sampled e d k ?obs x"
      using eval_definitions_traced [OF b1 assms(2) order_refl, of k] by blast
    have "dstate p d k b' = dstate p d k b1" "b_alerts b' = b_alerts b1"
      by (simp_all add: b' dstate_def lookup_definition_def)
    with xs(1) have "traced now p d k b b' xs" by (simp add: traced_def)
    moreover have "xs \<noteq> [] \<longrightarrow> series_Key (obs_Series input) = k" using xs(2) by (cases xs) (auto simp: sampled_def)
    ultimately show ?thesis using xs(2) False by blast
  qed
qed

definition sampled_in :: "engine \<Rightarrow> alert_definition \<Rightarrow> string \<Rightarrow> observation list \<Rightarrow> sample \<Rightarrow> bool" where
  "sampled_in e d k os x \<longleftrightarrow> (\<exists>input \<in> set os. \<exists>s. sampled e d k (with_zones input s) x)"

abbreviation series_bar :: "partition_runtime \<Rightarrow> string \<Rightarrow> batch_state \<Rightarrow> go_time" where
  "series_bar p k b \<equiv> ss_LastOpenTime (lookup_series p b k)"

lemma series_bar_step:
  assumes "process_input now e p input b = Some b'" and "\<not> obs_Reset input" and "0 < bar_of input"
  shows "series_bar p k b \<le> series_bar p k b'"
    and "series_Key (obs_Series input) = k \<Longrightarrow> \<not> engine_stale input (lookup_series p b k) \<Longrightarrow> series_bar p k b' = bar_of input"
  using assms
  by (auto simp: process_input_series [OF assms(1)] series_step_def engine_observe_def live_series_state_def
      engine_stale_def is_zero_def Let_def)

lemma process_inputs_traced:
  assumes "process_inputs now e pid p os b = Some (err, b')" and "sole d e"
    and "\<forall>obs \<in> set os. \<not> obs_Reset obs \<and> 0 < bar_of obs"
  shows "\<exists>xs. traced now p d k b b' xs \<and> (\<forall>x \<in> set xs. sampled_in e d k os x) \<and>
           sorted (series_bar p k b # map (\<lambda>x. bar_of (snd x)) xs @ [series_bar p k b'])"
  using assms(1,3)
proof (induction os arbitrary: b)
  case Nil
  then show ?case using traced_refl by fastforce
next
  case (Cons input os)
  show ?case
  proof (cases "Partition e (obs_Series input) = pid")
    case False
    with Cons.prems(1) have "b' = b" by simp
    then show ?thesis using traced_refl by fastforce
  next
    case True
    with Cons.prems(1) obtain b1 where b1: "process_input now e p input b = Some b1"
      and rest: "process_inputs now e pid p os b1 = Some (err, b')" by (auto split: option.splits)
    from Cons.prems(2) have input: "\<not> obs_Reset input" "0 < bar_of input" by simp_all
    obtain xs s where xs: "traced now p d k b b1 xs" "\<forall>x \<in> set xs. sampled e d k (with_zones input s) x"
      "xs \<noteq> [] \<longrightarrow> \<not> engine_stale input (lookup_series p b k)"
      using process_input_traced [OF b1 assms(2) input(1)] by blast
    obtain ys where ys: "traced now p d k b1 b' ys" "\<forall>x \<in> set ys. sampled_in e d k os x"
      "sorted (series_bar p k b1 # map (\<lambda>x. bar_of (snd x)) ys @ [series_bar p k b'])"
      using Cons.IH [OF rest] Cons.prems(2) by auto
    have all: "\<forall>x \<in> set xs. bar_of (snd x) = series_bar p k b1"
      using xs(2,3) series_bar_step(2) [OF b1 input] by (cases xs) (auto simp: sampled_def)
    then have "map (\<lambda>x. bar_of (snd x)) xs = replicate (length xs) (series_bar p k b1)"
      by (metis (mono_tags, lifting) map_cong map_replicate_const)
    with ys(3) series_bar_step(1) [OF b1 input, of k]
    have "sorted (series_bar p k b # map (\<lambda>x. bar_of (snd x)) (xs @ ys) @ [series_bar p k b'])"
      by (auto simp: sorted_append)
    moreover have "traced now p d k b b' (xs @ ys)" using xs ys by (intro traced_trans)
    moreover have "\<forall>x \<in> set (xs @ ys). sampled_in e d k (input # os) x"
      using xs(2) ys(2) by (auto simp: sampled_in_def)
    ultimately show ?thesis by blast
  qed
qed

section \<open>The discipline of a batch\<close>

definition stored_state :: "partition_runtime \<Rightarrow> alert_definition \<Rightarrow> string \<Rightarrow> definition_evaluation_state" where
  "stored_state p d k = get_or zero_definition_state (pr_definitions p) (DefinitionStateKey (dfn_ID d) k)"

lemma dstate_start [simp]: "dstate p d k (start_batch e) = stored_state p d k"
  by (simp add: dstate_def stored_state_def lookup_definition_def start_batch_def)

lemma alerts_start [simp]: "b_alerts (start_batch e) = []"
  by (simp add: start_batch_def)

lemma process_inputs_no_reset:
  "process_inputs now e pid p os b = Some (err, b') \<Longrightarrow> \<forall>obs \<in> set os. \<not> obs_Reset obs \<Longrightarrow> b_resetSeries b' = b_resetSeries b"
proof (induction os arbitrary: b)
  case (Cons input os)
  show ?case
  proof (cases "Partition e (obs_Series input) = pid")
    case True
    with Cons.prems(1) obtain b1 where b1: "process_input now e p input b = Some b1"
      and rest: "process_inputs now e pid p os b1 = Some (err, b')" by (auto split: option.splits)
    have "b_resetSeries b1 = b_resetSeries b"
      using b1 Cons.prems(2)
      by (auto simp: process_input_def process_live_def Let_def split: if_splits dest!: eval_definitions_frame)
    with Cons.IH [OF rest] Cons.prems(2) show ?thesis by simp
  next
    case False
    with Cons.prems show ?thesis by simp
  qed
qed simp

lemma stored_state_installed:
  "b_resetSeries b = [] \<Longrightarrow> stored_state (install_batch b p) d k = dstate p d k b"
  by (auto simp: stored_state_def dstate_def lookup_definition_def install_batch_def get_or_def map_add_def split: option.splits)

lemma batch_runs_automaton:
  assumes "process_inputs now e pid p os (start_batch e) = Some (None, b)" and "sole d e"
    and "\<forall>obs \<in> set os. \<not> obs_Reset obs \<and> 0 < bar_of obs"
  obtains xs where "list_all2 (alert_of now d) (alerts_for d k (b_alerts b)) (fst (trig_run d xs (stored_state p d k)))"
    and "stored_state (install_batch b p) d k = snd (trig_run d xs (stored_state p d k))"
    and "\<forall>x \<in> set xs. sampled_in e d k os x"
    and "sorted (series_bar p k (start_batch e) # map (\<lambda>x. bar_of (snd x)) xs @ [series_bar p k b])"
proof -
  obtain xs where xs: "traced now p d k (start_batch e) b xs" "\<forall>x \<in> set xs. sampled_in e d k os x"
    "sorted (series_bar p k (start_batch e) # map (\<lambda>x. bar_of (snd x)) xs @ [series_bar p k b])"
    using process_inputs_traced [OF assms] by blast
  have "b_resetSeries b = []" using process_inputs_no_reset [OF assms(1)] assms(3) by (simp add: start_batch_def)
  with xs(1) have "stored_state (install_batch b p) d k = snd (trig_run d xs (stored_state p d k))"
    by (simp add: stored_state_installed traced_def)
  moreover have "list_all2 (alert_of now d) (alerts_for d k (b_alerts b)) (fst (trig_run d xs (stored_state p d k)))"
    using xs(1) by (auto simp: traced_def alerts_for_def)
  ultimately show thesis using that xs(2,3) by blast
qed

lemma alert_of_time: "list_all2 (alert_of now d) as fired \<Longrightarrow> map alr_TriggeredAt as = map obs_OccurredAt fired"
  by (induction rule: list_all2_induct) (auto simp: alert_of_def engine_alert_def)

lemma sampled_in_input: "sampled_in e d k os x \<Longrightarrow> \<exists>input \<in> set os. \<exists>s. snd x = with_zones input s"
  by (auto simp: sampled_in_def sampled_def)




subsection \<open>Examples\<close>

definition engine_with :: "alert_definition \<Rightarrow> engine" where
  "engine_with d = (New 1)\<lparr>e_byRoute := [routeKey (dfn_Series d) \<mapsto> [compile_definition d]]\<rparr>"

lemma get_route_engine_with:
  "get_route (e_byRoute (engine_with d)) k = (if k = routeKey (dfn_Series d) then [compile_definition d] else [])"
  by (simp add: engine_with_def get_route_def)

lemma definitionsFor_engine_with: "c \<in> set (definitionsFor s (engine_with d)) \<Longrightarrow> c = compile_definition d"
  by (auto simp: definitionsFor_members get_route_engine_with split: if_splits)

lemma sole_engine_with: "CHR ''|'' \<notin> set (dfn_ID d) \<Longrightarrow> sole d (engine_with d)"
  by (auto simp: sole_def dest: definitionsFor_engine_with)

lemma process_inputs_one_partition:
  assumes "routes_ok e" and "length (e_partitions e) = 1"
  shows "\<exists>b'. process_inputs now e 0 p os b = Some (None, b')"
proof (induction os arbitrary: b)
  case (Cons input os)
  obtain b1 where "process_input now e p input b = Some b1" using process_input_total [OF assms(1)] by blast
  with Cons.IH show ?case by (simp add: Partition_one [OF assms(2)])
qed simp

lemma engine_with_runs:
  assumes "Validate (dfn_Rule d) = None"
  shows "\<exists>b. process_inputs now (engine_with d) 0 p os (start_batch (engine_with d)) = Some (None, b)"
proof (rule process_inputs_one_partition)
  show "routes_ok (engine_with d)"
    using assms by (simp add: routes_ok_def get_route_engine_with compiled_ok_eq)
qed (simp add: engine_with_def New_def NewWithOwnership_def)

definition cooling_definition :: alert_definition where
  "cooling_definition = sample_definition\<lparr>dfn_TriggerMode := ''every_match'', dfn_CooldownSeconds := 60\<rparr>"

definition bar_definition :: alert_definition where
  "bar_definition = sample_definition\<lparr>dfn_TriggerMode := ''once_per_bar''\<rparr>"

definition edge_definition :: alert_definition where
  "edge_definition = sample_definition\<lparr>dfn_EvaluationMode := ''confirmed_close''\<rparr>"

lemmas sample_definitions = cooling_definition_def bar_definition_def edge_definition_def sample_definition_def
  red_definition_def legacy_sample_def

lemma sample_definitions_valid:
  "Validate (dfn_Rule cooling_definition) = None" "Validate (dfn_Rule bar_definition) = None"
  "Validate (dfn_Rule edge_definition) = None"
  using red_definition_valid [of "''a''" zero_series] by (simp_all add: sample_definitions)




end
