(* ===== verification/Engine_Restart.thy ===== *)
theory Engine_Restart
  imports Engine_Trigger
begin

text \<open>
  Restarts. The partitions of a serving engine are at any moment what \<open>Initialize\<close> would build
  from the checkpoint, for every repository that satisfies the checkpoint contract: a
  crashed worker that comes back evaluates as if it had never stopped. The second part shows what
  a clone loses.
\<close>

section \<open>The checkpoint is mirrored\<close>

text \<open>What a medium that keeps \<open>stored\<close> of a series state keeps of a partition.\<close>

definition kept :: "(series_evaluation_state \<Rightarrow> series_evaluation_state) \<Rightarrow> partition_runtime \<Rightarrow> partition_runtime" where
  "kept stored p = p\<lparr>pr_series := (\<lambda>k. map_option stored (pr_series p k))\<rparr>"

definition mirror ::
  "(series_evaluation_state \<Rightarrow> series_evaluation_state) \<Rightarrow> engine \<Rightarrow> runtime_snapshot \<Rightarrow> bool" where
  "mirror stored e snap \<longleftrightarrow> (\<forall>i < length (e_partitions e).
     kept stored (e_partitions e ! i) = kept stored (load_partition e snap (i, empty_partition)))"

lemma kept_ident: "kept (\<lambda>s. s) = (\<lambda>p. p)"
  by (simp add: fun_eq_iff kept_def option.map_ident)

lemma kept_eq: "kept f p = kept f p' \<longleftrightarrow>
    (\<forall>k. map_option f (pr_series p k) = map_option f (pr_series p' k)) \<and> pr_definitions p = pr_definitions p'"
  by (cases p; cases p') (auto simp: kept_def fun_eq_iff)

definition same_shape :: "engine \<Rightarrow> engine \<Rightarrow> bool" where
  "same_shape e e' \<longleftrightarrow> length (e_partitions e') = length (e_partitions e) \<and>
     e_workerIndex e' = e_workerIndex e \<and> e_workerCount e' = e_workerCount e"

lemma PartitionForKey_frame: "same_shape e e' \<Longrightarrow> PartitionForKey e' k = PartitionForKey e k"
  by (simp add: PartitionForKey_def Partition_def hash_partition_def same_shape_def split: list.splits)

lemma owns_frame: "same_shape e e' \<Longrightarrow> owns e' p = owns e p"
  by (simp add: owns_def same_shape_def)

lemma load_partition_frame: "same_shape e e' \<Longrightarrow> load_partition e' snap ip = load_partition e snap ip"
  by (cases ip) (simp add: load_partition_def PartitionForKey_frame owns_frame)

lemma same_shape_length: "same_shape e e' \<Longrightarrow> length (e_partitions e') = length (e_partitions e)"
  by (simp add: same_shape_def)

lemmas same_shape_frames = PartitionForKey_frame owns_frame load_partition_frame same_shape_length

lemma mirror_frame: "mirror f e snap \<Longrightarrow> same_shape e e' \<Longrightarrow> e_partitions e' = e_partitions e \<Longrightarrow> mirror f e' snap"
  by (simp add: mirror_def same_shape_frames)

text \<open>What a batch writes stays within its partition.\<close>

definition bar_free_ids :: "engine \<Rightarrow> bool" where
  "bar_free_ids e \<longleftrightarrow> (\<forall>k. \<forall>c \<in> set (get_route (e_byRoute e) k). CHR ''|'' \<notin> set (dfn_ID (cd_definition c)))"

definition confined :: "engine \<Rightarrow> int \<Rightarrow> batch_state \<Rightarrow> bool" where
  "confined e pid b \<longleftrightarrow>
     (\<forall>k \<in> dom (b_seriesStates b). PartitionForKey e k = pid) \<and>
     (\<forall>k \<in> dom (b_definitionStates b). PartitionForKey e (definitionSeriesKey k) = pid) \<and>
     (\<forall>k \<in> set (b_resetSeries b). PartitionForKey e k = pid)"

lemma bar_free_definitionsFor: "bar_free_ids e \<Longrightarrow> c \<in> set (definitionsFor s e) \<Longrightarrow> CHR ''|'' \<notin> set (dfn_ID (cd_definition c))"
  by (auto simp: definitionsFor_members bar_free_ids_def)

lemma confined_definition:
  assumes "confined e pid b" and "PartitionForKey e (series_Key s) = pid" and "CHR ''|'' \<notin> set i"
  shows "confined e pid (b\<lparr>b_definitionStates := (b_definitionStates b)(DefinitionStateKey i (series_Key s) \<mapsto> v)\<rparr>)"
  using assms by (auto simp: confined_def definitionSeriesKey_key)

lemma eval_definition_confined:
  assumes "eval_definition now p obs f c b = Some b'" and "confined e pid b" and "PartitionForKey e (series_Key (obs_Series obs)) = pid"
    and "CHR ''|'' \<notin> set (dfn_ID (cd_definition c))"
  shows "confined e pid b'"
  using assms by (auto simp: eval_definition_def confined_def definitionSeriesKey_key Let_def split: if_splits option.splits)

lemma reset_definition_confined:
  assumes "reset_definition p obs c b = Some b'" and "confined e pid b" and "PartitionForKey e (series_Key (obs_Series obs)) = pid"
    and "CHR ''|'' \<notin> set (dfn_ID (cd_definition c))"
  shows "confined e pid b'"
  using assms by (auto simp: reset_definition_def confined_def definitionSeriesKey_key Let_def split: if_splits option.splits)

lemma process_live_confined:
  assumes "process_live now e p input s b = Some b'" and "confined e pid b" and "bar_free_ids e"
    and k: "PartitionForKey e (series_Key (obs_Series input)) = pid"
  shows "confined e pid b'"
proof -
  let ?obs = "with_zones input s"
  obtain b1 where b1: "fold_opt (eval_definition now p ?obs (live_feature ?obs s)) (definitionsFor (obs_Series input) e) b = Some b1"
    and b': "b' = b1\<lparr>b_seriesStates := (b_seriesStates b1)(series_Key (obs_Series input) \<mapsto> live_series_state ?obs s),
                      b_accepted := b_accepted b1 @ [?obs]\<rparr>"
    using assms(1) by (auto simp: process_live_def Let_def)
  have "confined e pid b1"
    by (rule fold_opt_invariant [where I = "confined e pid", OF b1 assms(2)])
      (erule eval_definition_confined; simp add: k bar_free_definitionsFor [OF assms(3)])
  with k b' show ?thesis by (auto simp: confined_def)
qed

lemma process_reset_confined:
  assumes "process_reset e p input b = Some b'" and "confined e pid b" and "bar_free_ids e"
    and k: "PartitionForKey e (series_Key (obs_Series input)) = pid"
  shows "confined e pid b'"
proof -
  let ?key = "series_Key (obs_Series input)"
  let ?b0 = "b\<lparr>b_resetEvents := b_resetEvents b + 1, b_resetSeries := List.insert ?key (b_resetSeries b),
     b_definitionStates := delete_keys (\<lambda>k. definitionSeriesKey k = ?key) (b_definitionStates b)\<rparr>"
  obtain b1 where b1: "fold_opt (reset_definition p input) (definitionsFor (obs_Series input) e) ?b0 = Some b1"
    and b': "b' = b1\<lparr>b_seriesStates := (b_seriesStates b1)(?key \<mapsto> reset_series_state input),
                      b_accepted := b_accepted b1 @ [input]\<rparr>"
    using assms(1) by (auto simp: process_reset_def Let_def)
  have "confined e pid ?b0" using assms(2) k by (auto simp: confined_def split: if_splits)
  then have "confined e pid b1"
    by (rule fold_opt_invariant [where I = "confined e pid", OF b1])
      (erule reset_definition_confined; simp add: k bar_free_definitionsFor [OF assms(3)])
  with k b' show ?thesis by (auto simp: confined_def)
qed

lemma process_inputs_confined:
  assumes "process_inputs now e pid p os b = Some (err, b')" and "confined e pid b" and "bar_free_ids e"
    and "\<forall>obs \<in> set os. slash_free (obs_Series obs)"
  shows "confined e pid b'"
  using assms(1,2,4)
proof (induction os arbitrary: b)
  case (Cons input os)
  show ?case
  proof (cases "Partition e (obs_Series input) = pid")
    case True
    with Cons.prems(1) obtain b1 where b1: "process_input now e p input b = Some b1"
      and rest: "process_inputs now e pid p os b1 = Some (err, b')" by (auto split: option.splits)
    have k: "PartitionForKey e (series_Key (obs_Series input)) = pid"
      using True Cons.prems(3) split_series_Key [of "obs_Series input"]
      by (cases "obs_Series input") (simp add: PartitionForKey_def)
    have "confined e pid b1"
      using b1 Cons.prems(2) process_live_confined [OF _ Cons.prems(2) assms(3) k] process_reset_confined [OF _ Cons.prems(2) assms(3) k]
      by (auto simp: process_input_def confined_def Let_def split: if_splits)
    with Cons.IH [OF rest] Cons.prems(3) show ?thesis by simp
  next
    case False
    with Cons.prems show ?thesis by simp
  qed
qed simp

lemma confined_start: "confined e pid (start_batch e)"
  by (simp add: confined_def start_batch_def)

section \<open>Batches keep the mirror\<close>

lemma load_partition_empty:
  "load_partition e snap (i, empty_partition) =
    (if \<not> owns e (int i) then empty_partition
     else \<lparr>pr_series = (\<lambda>k. if PartitionForKey e k = int i then map_option cloneSeriesState (snap_Series snap k) else None),
           pr_definitions = (\<lambda>k. if PartitionForKey e (definitionSeriesKey k) = int i then snap_Definitions snap k else None)\<rparr>)"
  by (simp add: load_partition_def empty_partition_def)

lemma kept_install: "kept f p = kept f p' \<Longrightarrow> kept f (install_batch b p) = kept f (install_batch b p')"
  by (auto simp: kept_eq install_batch_def map_add_def split: option.splits)

lemma install_confined:
  assumes "confined e (int i) b" and "owns e (int i)" and "\<And>s. f (cloneSeriesState (f s)) = f (cloneSeriesState s)"
  shows "kept f (install_batch b (load_partition e snap (i, empty_partition))) =
           kept f (load_partition e (checkpointed (stored_batch f (batch_of pid b)) snap) (i, empty_partition))"
  using assms
  by (auto simp: kept_eq install_batch_def load_partition_empty checkpointed_def stored_batch_def batch_of_def confined_def
      map_add_def fun_eq_iff split: option.splits)

lemma load_partition_other:
  assumes "confined e pid b" and "int i \<noteq> pid"
  shows "load_partition e (checkpointed (stored_batch f (batch_of pid b)) snap) (i, empty_partition) =
    load_partition e snap (i, empty_partition)"
proof -
  have "b_seriesStates b k = None" if "PartitionForKey e k = int i" for k
    using assms that by (auto simp: confined_def dom_def)
  moreover have "b_definitionStates b k = None \<and> definitionSeriesKey k \<notin> set (b_resetSeries b)"
    if "PartitionForKey e (definitionSeriesKey k) = int i" for k
    using assms that by (auto simp: confined_def dom_def)
  ultimately show ?thesis
    by (auto simp: load_partition_empty checkpointed_def stored_batch_def batch_of_def map_add_def fun_eq_iff)
qed

text \<open>A checkpoint from which a worker can restart: what the medium drops of a state, a clone does not bring back.\<close>

locale restart_store = checkpoint_store commit load stored ok owned
  for commit :: "runtime_batch \<Rightarrow> 'r \<Rightarrow> (store_error + alert list) \<times> 'r" and load stored ok owned +
  assumes stored_clone: "stored (cloneSeriesState (stored s)) = stored (cloneSeriesState s)"
begin

lemma batch_keeps_mirror:
  assumes "mirror stored e (load r)" and "EvaluateBatch commit now pid os e r = Some (res, e', r')"
    and "bar_free_ids e" and "\<forall>obs \<in> set os. slash_free (obs_Series obs)" and "ok r"
    and "\<forall>p. valid_pid e p \<longrightarrow> p \<in> owned"
  shows "mirror stored e' (load r') \<and> same_shape e e' \<and> ok r'"
proof (cases res)
  case (Inl err)
  with assms(2) have "same_shape e e'" "e_partitions e' = e_partitions e" "r' = r \<or> (\<exists>b serr. commit b r = (Inl serr, r'))"
    by (auto simp: EvaluateBatch_def same_shape_def count_events_def Let_def
        split: if_splits option.splits prod.splits sum.splits)
  moreover from this(3) assms(5) have "load r' = load r \<and> ok r'" using commit_failed by blast
  ultimately show ?thesis using assms(1) mirror_frame by simp
next
  case (Inr created)
  let ?p = "e_partitions e ! nat pid"
  from assms(2) Inr obtain b where b: "valid_pid e pid" "process_inputs now e pid ?p os (start_batch e) = Some (None, b)"
    "(b_accepted b = [] \<and> created = [] \<and> e' = count_events b e \<and> r' = r) \<or>
     (b_accepted b \<noteq> [] \<and> commit (batch_of pid b) r = (Inr created, r') \<and>
      e' = (count_events b e)\<lparr>e_partitions := (e_partitions e)[nat pid := install_batch b ?p]\<rparr>)"
    using EvaluateBatch_ok [of commit now pid os e r created e' r'] by blast
  have shape: "same_shape e e'" using b(3) by (auto simp: same_shape_def count_events_def)
  from b(3) show ?thesis
  proof
    assume "b_accepted b = [] \<and> created = [] \<and> e' = count_events b e \<and> r' = r"
    then show ?thesis using assms(1,5) shape mirror_frame [of stored e _ e'] by (simp add: count_events_def)
  next
    assume c: "b_accepted b \<noteq> [] \<and> commit (batch_of pid b) r = (Inr created, r') \<and>
      e' = (count_events b e)\<lparr>e_partitions := (e_partitions e)[nat pid := install_batch b ?p]\<rparr>"
    have conf: "confined e pid b" by (rule process_inputs_confined [OF b(2) confined_start assms(3,4)])
    have load: "load r' = checkpointed (stored_batch stored (batch_of pid b)) (load r)" "ok r'"
      using commit_ok [of r "batch_of pid b" created r'] c assms(5,6) b(1) by (simp_all add: batch_of_def)
    have "kept stored (e_partitions e' ! i) = kept stored (load_partition e (load r') (i, empty_partition))"
      if i: "i < length (e_partitions e)" for i
    proof (cases "i = nat pid")
      case True
      with b(1) have "confined e (int i) b" "owns e (int i)" using conf by (auto simp: valid_pid_def)
      from install_confined [OF this stored_clone, of "load r" pid] kept_install [of stored ?p _ b] c i True assms(1) load(1)
      show ?thesis by (simp add: mirror_def)
    next
      case False
      with b(1) have "int i \<noteq> pid" by (auto simp: valid_pid_def)
      with load_partition_other [OF conf this, of stored "load r"] c i False assms(1) load(1) show ?thesis
        by (simp add: mirror_def)
    qed
    with c shape load(2) show ?thesis by (simp add: mirror_def same_shape_frames)
  qed
qed

end

section \<open>Serving\<close>

text \<open>
  A worker that booted from the repository and has since evaluated batches and followed definition changes, while
  others changed the repository without touching its part of the checkpoint. Symbols and datasets contain no slash,
  definition IDs no separator.
\<close>

inductive serving ::
  "(runtime_batch \<Rightarrow> 'r \<Rightarrow> (store_error + alert list) \<times> 'r) \<Rightarrow> ('r \<Rightarrow> runtime_snapshot) \<Rightarrow> ('r \<Rightarrow> bool)
     \<Rightarrow> engine \<Rightarrow> engine \<Rightarrow> 'r \<Rightarrow> bool"
  for commit :: "runtime_batch \<Rightarrow> 'r \<Rightarrow> (store_error + alert list) \<times> 'r" and load :: "'r \<Rightarrow> runtime_snapshot"
    and ok :: "'r \<Rightarrow> bool" and fresh :: engine where
  boot: "Initialize now (Inr ds) (\<lambda>_. Inr (load r)) fresh = (None, e) \<Longrightarrow>
    \<forall>d \<in> set ds. CHR ''|'' \<notin> set (dfn_ID d) \<Longrightarrow> ok r \<Longrightarrow> serving commit load ok fresh e r"
| batch: "serving commit load ok fresh e r \<Longrightarrow> EvaluateBatch commit now pid os e r = Some (res, e', r') \<Longrightarrow>
    \<forall>obs \<in> set os. slash_free (obs_Series obs) \<Longrightarrow> serving commit load ok fresh e' r'"
| others: "serving commit load ok fresh e r \<Longrightarrow> load r' = load r \<Longrightarrow> ok r' \<Longrightarrow> serving commit load ok fresh e r'"
| replace: "serving commit load ok fresh e r \<Longrightarrow> \<forall>d \<in> set ds. CHR ''|'' \<notin> set (dfn_ID d) \<Longrightarrow>
    serving commit load ok fresh (snd (ReplaceDefinitions now ds e)) r"
| upsert: "serving commit load ok fresh e r \<Longrightarrow> CHR ''|'' \<notin> set (dfn_ID d) \<Longrightarrow>
    serving commit load ok fresh (snd (UpsertDefinition d e)) r"
| remove: "serving commit load ok fresh e r \<Longrightarrow> serving commit load ok fresh (RemoveDefinition i e) r"

lemma bar_free_Replace:
  "bar_free_ids e \<Longrightarrow> \<forall>d \<in> set ds. CHR ''|'' \<notin> set (dfn_ID d) \<Longrightarrow> bar_free_ids (snd (ReplaceDefinitions now ds e))"
  using ReplaceDefinitions_cases [of now ds e] ReplaceDefinitions_route(1) [of now ds e]
  by (auto simp: bar_free_ids_def sort_route_def)

lemma bar_free_Upsert:
  assumes "bar_free_ids e" and "CHR ''|'' \<notin> set (dfn_ID d)"
  shows "bar_free_ids (snd (UpsertDefinition d e))"
  using UpsertDefinition_cases [of d e]
proof
  assume "\<exists>e'. UpsertDefinition d e = (None, e')"
  then obtain e' where e': "UpsertDefinition d e = (None, e')" ..
  have "c = compile_definition d \<or> c \<in> set (get_route (e_byRoute e) k)" if "c \<in> set (get_route (e_byRoute e') k)" for c k
    using that upsert_route_set [of "get_route (e_byRoute e) k" "compile_definition d"]
    by (auto simp: get_route_Upsert(1) [OF e'] split: if_splits)
  with assms e' show ?thesis unfolding bar_free_ids_def by fastforce
qed (use assms in auto)

lemma bar_free_Remove: "bar_free_ids e \<Longrightarrow> bar_free_ids (RemoveDefinition i e)"
  by (auto simp: bar_free_ids_def get_route_Remove)

lemma definition_changes_frame:
  "e_partitions (snd (ReplaceDefinitions now ds e)) = e_partitions e \<and> same_shape e (snd (ReplaceDefinitions now ds e))"
  "e_partitions (snd (UpsertDefinition d e)) = e_partitions e \<and> same_shape e (snd (UpsertDefinition d e))"
  "e_partitions (RemoveDefinition i e) = e_partitions e \<and> same_shape e (RemoveDefinition i e)"
  by (auto simp: ReplaceDefinitions_def UpsertDefinition_def RemoveDefinition_def same_shape_def Let_def split: sum.splits)

lemma same_shape_trans: "same_shape e e1 \<Longrightarrow> same_shape e1 e2 \<Longrightarrow> same_shape e e2"
  by (simp add: same_shape_def)

definition fresh_engine :: "engine \<Rightarrow> bool" where
  "fresh_engine e \<longleftrightarrow> (\<forall>p \<in> set (e_partitions e). p = empty_partition) \<and> e_byRoute e = Map.empty"

lemma Initialize_ok:
  assumes "Initialize now (Inr ds) (\<lambda>_. Inr snap) fresh = (None, e)" and "fresh_engine fresh"
  shows "same_shape fresh e" and "mirror f e snap"
    and "e_byRoute e = e_byRoute (snd (ReplaceDefinitions now ds fresh))"
proof -
  let ?e1 = "snd (ReplaceDefinitions now ds fresh)"
  from assms(1) have e: "e = ?e1\<lparr>e_partitions := map (load_partition ?e1 snap) (List.enumerate 0 (e_partitions ?e1))\<rparr>"
    by (auto simp: Initialize_def split: prod.splits option.splits)
  note frame = definition_changes_frame(1) [of now ds fresh]
  show shape: "same_shape fresh e" using frame by (simp add: e same_shape_def)
  have "e_partitions fresh ! i = empty_partition" if "i < length (e_partitions fresh)" for i
    using that assms(2) by (auto simp: fresh_engine_def)
  then have "e_partitions e ! i = load_partition fresh snap (i, empty_partition)" if "i < length (e_partitions e)" for i
    using that frame by (simp add: e nth_enumerate_eq load_partition_frame [of fresh ?e1])
  then show "mirror f e snap" by (simp add: mirror_def load_partition_frame [OF shape])
  show "e_byRoute e = e_byRoute ?e1" by (simp add: e)
qed

lemma mirror_determines:
  "mirror f e snap \<Longrightarrow> mirror f e' snap \<Longrightarrow> same_shape e e' \<Longrightarrow> map (kept f) (e_partitions e') = map (kept f) (e_partitions e)"
  by (intro nth_equalityI) (simp_all add: mirror_def same_shape_frames)

lemma valid_pid_frame: "same_shape e e' \<Longrightarrow> valid_pid e' p = valid_pid e p"
  by (simp add: valid_pid_def same_shape_frames owns_frame)

context restart_store
begin

lemma serving_mirror:
  assumes "serving commit load ok fresh e r" and "fresh_engine fresh" and "\<forall>p. valid_pid fresh p \<longrightarrow> p \<in> owned"
  shows "mirror stored e (load r) \<and> same_shape fresh e \<and> bar_free_ids e \<and> ok r"
  using assms(1)
proof (induction rule: serving.induct)
  case (boot now ds r e)
  have "bar_free_ids fresh" using assms(2) by (simp add: bar_free_ids_def fresh_engine_def get_route_def)
  with Initialize_ok [OF boot(1) assms(2)] bar_free_Replace [OF _ boot(2)] boot(3) show ?case by (simp add: bar_free_ids_def)
next
  case (batch e r now pid os res e' r')
  then have "valid_pid e = valid_pid fresh" using valid_pid_frame [of fresh e] by (simp add: fun_eq_iff)
  then have "\<forall>p. valid_pid e p \<longrightarrow> p \<in> owned" using assms(3) by simp
  with batch batch_keeps_mirror [OF _ batch.hyps(2)] show ?case
    by (auto simp: bar_free_ids_def EvaluateBatch_routes [OF batch.hyps(2)] intro: same_shape_trans)
next
  case (others e r r')
  then show ?case by simp
next
  case (replace e r ds now)
  then show ?case using definition_changes_frame(1) bar_free_Replace mirror_frame same_shape_trans by meson
next
  case (upsert e r d)
  then show ?case using definition_changes_frame(2) bar_free_Upsert mirror_frame same_shape_trans by meson
next
  case (remove e r i)
  then show ?case using definition_changes_frame(3) bar_free_Remove mirror_frame same_shape_trans by meson
qed

lemma restart_restores:
  assumes "serving commit load ok fresh e r" and "fresh_engine fresh" and "\<forall>p. valid_pid fresh p \<longrightarrow> p \<in> owned"
    and "Initialize now (Inr ds) (\<lambda>_. Inr (load r)) fresh = (None, e')"
  shows "map (kept stored) (e_partitions e') = map (kept stored) (e_partitions e)"
proof (rule mirror_determines)
  from serving_mirror [OF assms(1-3)] have s: "mirror stored e (load r)" "same_shape fresh e" by simp_all
  from Initialize_ok [OF assms(4,2)] have i: "same_shape fresh e'" "mirror stored e' (load r)" by simp_all
  show "mirror stored e (load r)" "mirror stored e' (load r)" by fact+
  show "same_shape e e'" using s(2) i(1) by (simp add: same_shape_def)
qed

end

lemma fresh_New: "fresh_engine (NewWithOwnership k w n)"
  by (simp add: fresh_engine_def NewWithOwnership_def Let_def)

interpretation mem_restart: restart_store mem_CommitRuntimeBatch mem_LoadRuntimeStates "\<lambda>s. s" "\<lambda>m. True" UNIV
  by unfold_locales simp

text \<open>The memory store gives a worker back exactly the partitions it had.\<close>

lemma memory_restart_restores_partitions:
  assumes "serving mem_CommitRuntimeBatch mem_LoadRuntimeStates (\<lambda>m. True) (NewWithOwnership k w n) e m"
    and "Initialize now (Inr ds) (\<lambda>_. Inr (mem_LoadRuntimeStates m)) (NewWithOwnership k w n) = (None, e')"
  shows "e_partitions e' = e_partitions e"
  using mem_restart.restart_restores [OF assms(1) fresh_New _ assms(2)] by (simp add: kept_ident)

lemma Initialize_total:
  "\<forall>d \<in> set ds. Validate (dfn_Rule d) = None \<Longrightarrow> \<exists>e. Initialize now (Inr ds) (\<lambda>_. Inr snap) fresh = (None, e)"
  using build_routes_total [of ds Map.empty] by (auto simp: Initialize_def ReplaceDefinitions_def)

section \<open>What a clone loses\<close>

lemma cloneFeatureState_indicators: "fs_Indicators (cloneFeatureState f) = map_option (\<lambda>_. Map.empty) (fs_Indicators f)"
  by (cases "fs_Indicators f") (simp_all add: cloneFeatureState_def)

lemma live_feature_cloned:
  "\<exists>f'. live_feature obs (cloneSeriesState s) = cloneFeatureState f'"
  by (auto simp: live_feature_def cloneSeriesState_def)

lemma cross_on_clone: "eval_cross r obs (cloneFeatureState f) = no_match False"
  by (cases "fs_Indicators f") (auto simp: eval_cross_def cloneFeatureState_indicators Let_def split: option.splits)

lemma cross_on_clone_false:
  assumes "r_Type (cmp_Rule c) = ''price_crosses_indicator''"
  shows "EvaluateDetailed c obs (cloneFeatureState f) = Some (False, [], [])"
  using assms by (simp add: EvaluateDetailed_def evaluate.simps [of "cmp_Rule c"] cross_on_clone no_match_def)


definition cross_definition :: alert_definition where
  "cross_definition = sample_definition\<lparr>dfn_Rule :=
     Rule ''price_crosses_indicator'' [] None '''' '''' '''' ''ema'' 20 ''above'' 0 f_zero f_zero\<rparr>"


end
