(* ===== verification/Postgres_Laws.thy ===== *)
theory Postgres_Laws
  imports Postgres Engine_Restart
begin

text \<open>
  What the repository over PostgreSQL promises: it meets the checkpoint contract, so that a worker restarts with
  the partitions it had; a batch committed twice leaves one event per definition and observation; retention
  keeps what is not published yet.
\<close>

section \<open>Frames of the statements\<close>

text \<open>The part of the database a checkpoint is loaded from.\<close>

definition runtime_part :: "pg \<Rightarrow> (string \<rightharpoonup> int option \<times> series_evaluation_state) \<times>
    (string \<times> string \<rightharpoonup> int option \<times> definition_evaluation_state) \<times> ((string \<times> string) \<times> evaluation_state) list" where
  "runtime_part s = (pg_series s, pg_definition_states s, pg_rule_state s)"

lemma insert_inboxes_frame [state_simps]:
  "runtime_part (foldl (insert_inbox now) s os) = runtime_part s"
  "pg_events (foldl (insert_inbox now) s os) = pg_events s"
  "pg_outbox (foldl (insert_inbox now) s os) = pg_outbox s"
  "pg_event_seq (foldl (insert_inbox now) s os) = pg_event_seq s"
  "pg_definitions (foldl (insert_inbox now) s os) = pg_definitions s"
  by (induction os arbitrary: s) (auto simp: insert_inbox_def runtime_part_def)

lemma insert_event_frame:
  "insert_event a s = Inr (x, s') \<Longrightarrow> runtime_part s' = runtime_part s \<and> pg_outbox s' = pg_outbox s \<and> pg_inbox s' = pg_inbox s"
  by (auto simp: insert_event_def pg_fail_def runtime_part_def Let_def split: if_splits option.splits)

lemma insert_events_frame:
  "insert_events as s = Inr (x, s') \<Longrightarrow> runtime_part s' = runtime_part s \<and> pg_outbox s' = pg_outbox s \<and> pg_inbox s' = pg_inbox s"
proof (induction as arbitrary: s x)
  case (Cons a as)
  then obtain i c s1 cs where 1: "insert_event a s = Inr ((i, c), s1)" and 2: "insert_events as s1 = Inr (cs, s')"
    by (auto simp: pg_then_Inr)
  from insert_event_frame [OF 1] Cons.IH [OF 2] show ?case by simp
qed simp

lemma insert_outbox_frame:
  "insert_outbox now a s = Inr (x, s') \<Longrightarrow> runtime_part s' = runtime_part s \<and> pg_events s' = pg_events s \<and> pg_inbox s' = pg_inbox s"
  by (auto simp: insert_outbox_def pg_fail_def runtime_part_def Let_def split: if_splits)

lemma insert_outboxes_frame:
  "insert_outboxes now as s = Inr (x, s') \<Longrightarrow> runtime_part s' = runtime_part s \<and> pg_events s' = pg_events s \<and> pg_inbox s' = pg_inbox s"
proof (induction as arbitrary: s)
  case (Cons a as)
  then obtain s1 where 1: "insert_outbox now a s = Inr ((), s1)" and 2: "insert_outboxes now as s1 = Inr (x, s')"
    by (auto simp: pg_then_Inr)
  from insert_outbox_frame [OF 1] Cons.IH [OF 2] show ?case by simp
qed simp

lemma commit_alerts_steps:
  assumes "commit_alerts drv now b s = Inr (created, s')"
  obtains "rb_Alerts b = []" "created = []" "s' = s"
  | cursors s1 where "rb_Alerts b \<noteq> []" "insert_events (rb_Alerts b) s = Inr (cursors, s1)"
      "created = map (\<lambda>a. a\<lparr>alr_Cursor := get_or 0 cursors (alr_ID a)\<rparr>) (rb_Alerts b)"
      "insert_outboxes now created s1 = Inr ((), s')" "distinct (map event_key (rb_Alerts b))"
  using assms
  by (auto simp: commit_alerts_def Let_def pg_then_Inr exec_Inr pg_fail_def split: if_splits)

lemma commit_alerts_frame:
  assumes "commit_alerts drv now b s = Inr (created, s')"
  shows "runtime_part s' = runtime_part s \<and> pg_inbox s' = pg_inbox s"
  using commit_alerts_steps [OF assms] insert_events_frame insert_outboxes_frame by (metis (no_types))

text \<open>The six statements of a commit that succeeds.\<close>

lemma commit_tx_steps:
  assumes "commit_tx drv now b s = Inr (created, s')"
  obtains s1 s2 s3 s4 where "commit_inbox drv now b s = Inr ((), s1)" "commit_series drv b s1 = Inr ((), s2)"
    "commit_resets drv b s2 = Inr ((), s3)" "commit_definitions drv b s3 = Inr ((), s4)"
    "commit_alerts drv now b s4 = Inr (created, s')"
  using assms by (auto simp: commit_tx_def pg_then_Inr exec_Inr)

lemma commit_inbox_frame:
  "commit_inbox drv now b s = Inr ((), s') \<Longrightarrow> s' = foldl (insert_inbox now) s (rb_Observations b)"
  by (auto simp: commit_inbox_def pg_fail_def exec_Inr split: if_splits)

lemma commit_series_effect:
  "commit_series drv b s = Inr ((), s') \<Longrightarrow>
     s' = s\<lparr>pg_series := pg_series s ++ (\<lambda>k. map_option (\<lambda>st. (Some (rb_PartitionID b), stored_series st)) (rb_SeriesStates b k))\<rparr>"
  by (auto simp: commit_series_def pg_fail_def exec_Inr map_add_def split: if_splits)

lemma commit_resets_effect:
  "commit_resets drv b s = Inr ((), s') \<Longrightarrow>
     s' = s\<lparr>pg_definition_states := delete_keys (\<lambda>(i, key). key \<in> set (rb_ResetSeriesKeys b)) (pg_definition_states s)\<rparr>"
  by (auto simp: commit_resets_def exec_Inr delete_keys_def split: if_splits)

lemma commit_definitions_effect:
  assumes "commit_definitions drv b s = Inr ((), s')"
  shows "s' = s\<lparr>pg_definition_states := pg_definition_states s ++ (\<lambda>ik. map_option (Pair (Some (rb_PartitionID b))) (batch_definition b ik))\<rparr>"
    and "\<forall>k \<in> dom (rb_DefinitionStates b). cut CHR ''|'' k \<noteq> None"
proof -
  have none: "batch_definition b ik = None" if "rb_DefinitionStates b = Map.empty" for ik
    using that by (cases ik) (simp add: batch_definition_def)
  show "s' = s\<lparr>pg_definition_states := pg_definition_states s ++ (\<lambda>ik. map_option (Pair (Some (rb_PartitionID b))) (batch_definition b ik))\<rparr>"
    using assms none by (auto simp: commit_definitions_def pg_fail_def exec_Inr map_add_def split: if_splits)
  show "\<forall>k \<in> dom (rb_DefinitionStates b). cut CHR ''|'' k \<noteq> None"
    using assms by (auto simp: commit_definitions_def pg_fail_def exec_Inr split: if_splits)
qed

text \<open>What a commit makes of the part a checkpoint is loaded from.\<close>

lemma commit_tx_runtime:
  assumes "commit_tx drv now b s = Inr (created, s')"
  shows "pg_series s' = pg_series s ++ (\<lambda>k. map_option (\<lambda>st. (Some (rb_PartitionID b), stored_series st)) (rb_SeriesStates b k))"
    and "pg_definition_states s' = delete_keys (\<lambda>(i, key). key \<in> set (rb_ResetSeriesKeys b)) (pg_definition_states s) ++
      (\<lambda>ik. map_option (Pair (Some (rb_PartitionID b))) (batch_definition b ik))"
    and "pg_rule_state s' = pg_rule_state s"
    and "\<forall>k \<in> dom (rb_DefinitionStates b). cut CHR ''|'' k \<noteq> None"
proof -
  from commit_tx_steps [OF assms] obtain s1 s2 s3 s4 where steps:
    "commit_inbox drv now b s = Inr ((), s1)" "commit_series drv b s1 = Inr ((), s2)"
    "commit_resets drv b s2 = Inr ((), s3)" "commit_definitions drv b s3 = Inr ((), s4)"
    "commit_alerts drv now b s4 = Inr (created, s')" .
  note effects = commit_inbox_frame [OF steps(1)] commit_series_effect [OF steps(2)] commit_resets_effect [OF steps(3)]
    commit_definitions_effect(1) [OF steps(4)]
  have "runtime_part s' = runtime_part s4" "runtime_part s1 = runtime_part s"
    using commit_alerts_frame [OF steps(5)] effects(1) by (simp_all add: insert_inboxes_frame)
  with effects show "pg_series s' = pg_series s ++ (\<lambda>k. map_option (\<lambda>st. (Some (rb_PartitionID b), stored_series st)) (rb_SeriesStates b k))"
    and "pg_definition_states s' = delete_keys (\<lambda>(i, key). key \<in> set (rb_ResetSeriesKeys b)) (pg_definition_states s) ++
      (\<lambda>ik. map_option (Pair (Some (rb_PartitionID b))) (batch_definition b ik))"
    and "pg_rule_state s' = pg_rule_state s" by (simp_all add: runtime_part_def)
  show "\<forall>k \<in> dom (rb_DefinitionStates b). cut CHR ''|'' k \<noteq> None" by (rule commit_definitions_effect(2) [OF steps(4)])
qed

section \<open>Checkpoints\<close>

text \<open>
  A worker's view of the database: the driver and the clock of its next call, and the tables. Between two calls of
  a worker the view changes in everything but its part of the checkpoint: time passes, other workers commit.
\<close>

type_synonym view = "(driver \<times> go_time) \<times> pg"

definition view_commit :: "runtime_batch \<Rightarrow> view \<Rightarrow> (store_error + alert list) \<times> view" where
  "view_commit b v =
    (let ((drv, now), s) = v in case pg_CommitRuntimeBatch drv now b s of (res, s') \<Rightarrow> (res, ((drv, now), s')))"

definition view_load :: "int list \<Rightarrow> view \<Rightarrow> runtime_snapshot" where
  "view_load owned v = \<lparr>snap_Series = visible_series (smallintPartitions owned) (snd v),
     snap_Definitions = visible_definitions (smallintPartitions owned) (snd v)\<rparr>"

text \<open>No row of the older path is left, so nothing is bootstrapped from it.\<close>

definition view_ok :: "view \<Rightarrow> bool" where
  "view_ok v \<longleftrightarrow> pg_rule_state (snd v) = []"

definition no_faults :: "driver \<Rightarrow> bool" where
  "no_faults drv \<longleftrightarrow> (\<forall>st. drv_fault drv st = None)"

lemma pg_Load_view:
  assumes "view_ok v" and "no_faults drv"
  shows "pg_LoadRuntimeStates drv owned (snd v) = Inr (view_load owned v)"
proof -
  have "legacy_rows (snd v) = []" using assms(1) by (simp add: legacy_rows_def view_ok_def)
  with assms(2) show ?thesis by (simp add: pg_LoadRuntimeStates_def view_load_def no_faults_def Let_def)
qed

lemma visible_series_commit:
  "visible ids (Some p) \<Longrightarrow> pg_series s' = pg_series s ++ (\<lambda>k. map_option (\<lambda>st. (Some p, f st)) (m k)) \<Longrightarrow>
     visible_series ids s' = visible_series ids s ++ (\<lambda>k. map_option f (m k))"
  by (auto simp: visible_series_def map_add_def fun_eq_iff split: option.splits)

lemma no_bar_None:
  "\<forall>k \<in> dom m. cut CHR ''|'' k \<noteq> None \<Longrightarrow> cut CHR ''|'' k = None \<Longrightarrow> m k = None"
  by (metis domIff)

lemma batch_definition_cut:
  assumes "\<forall>k \<in> dom (rb_DefinitionStates b). cut CHR ''|'' k \<noteq> None"
  shows "(case cut CHR ''|'' k of None \<Rightarrow> None | Some ik \<Rightarrow> batch_definition b ik) = rb_DefinitionStates b k"
proof (cases "cut CHR ''|'' k")
  case None
  with no_bar_None [OF assms this] show ?thesis by simp
next
  case (Some ik)
  then obtain i key where ik: "ik = (i, key)" "cut CHR ''|'' k = Some (i, key)" by (cases ik) auto
  from cut_Some [OF ik(2)] have "k = DefinitionStateKey i key" "CHR ''|'' \<notin> set i" by (simp_all add: DefinitionStateKey_def)
  with ik show ?thesis by (simp add: batch_definition_def)
qed

lemma visible_definitions_commit:
  assumes "visible ids (Some p)" and "\<forall>k \<in> dom (rb_DefinitionStates b). cut CHR ''|'' k \<noteq> None"
    and "pg_definition_states s' = delete_keys (\<lambda>(i, key). key \<in> K) (pg_definition_states s) ++
      (\<lambda>ik. map_option (Pair (Some p)) (batch_definition b ik))"
  shows "visible_definitions ids s' = delete_keys (\<lambda>k. definitionSeriesKey k \<in> K) (visible_definitions ids s) ++ rb_DefinitionStates b"
proof
  fix k
  show "visible_definitions ids s' k = (delete_keys (\<lambda>k. definitionSeriesKey k \<in> K) (visible_definitions ids s) ++ rb_DefinitionStates b) k"
  proof (cases "cut CHR ''|'' k")
    case None
    with no_bar_None [OF assms(2) None] show ?thesis by (simp add: visible_definitions_def map_add_def)
  next
    case (Some ik)
    then obtain i key where ik: "cut CHR ''|'' k = Some (i, key)" "ik = (i, key)" by (cases ik) auto
    have b: "batch_definition b (i, key) = rb_DefinitionStates b k" using batch_definition_cut [OF assms(2), of k] ik by simp
    have "definitionSeriesKey k = key" using ik by (simp add: definitionSeriesKey_def after_bar_cut)
    with ik b assms(1,3) show ?thesis
      by (auto simp: visible_definitions_def map_add_def split: option.splits)
  qed
qed

lemma view_commit_ok:
  assumes "rb_PartitionID b \<in> set (smallintPartitions owned)" and "view_commit b v = (Inr created, v')"
  shows "view_load owned v' = checkpointed (stored_batch stored_series b) (view_load owned v)"
    and "pg_rule_state (snd v') = pg_rule_state (snd v)"
proof -
  obtain drv now s where v: "v = ((drv, now), s)" by (cases v) auto
  with assms(2) obtain s' where c: "commit_tx drv now b s = Inr (created, s')" and v': "v' = ((drv, now), s')"
    by (auto simp: view_commit_def pg_CommitRuntimeBatch_def settle_Inr split: prod.splits)
  let ?ids = "smallintPartitions owned"
  have vis: "visible ?ids (Some (rb_PartitionID b))" using assms(1) by (simp add: visible_def)
  note r = commit_tx_runtime [OF c]
  have "visible_series ?ids s' = visible_series ?ids s ++ (\<lambda>k. map_option stored_series (rb_SeriesStates b k))"
    by (rule visible_series_commit [OF vis r(1)])
  moreover have "visible_definitions ?ids s' =
      delete_keys (\<lambda>k. definitionSeriesKey k \<in> set (rb_ResetSeriesKeys b)) (visible_definitions ?ids s) ++ rb_DefinitionStates b"
    by (rule visible_definitions_commit [OF vis r(4,2)])
  ultimately show "view_load owned v' = checkpointed (stored_batch stored_series b) (view_load owned v)"
    by (simp add: view_load_def checkpointed_def stored_batch_def v v')
  show "pg_rule_state (snd v') = pg_rule_state (snd v)" using r(3) by (simp add: v v')
qed

lemma stored_clone: "stored_series (cloneSeriesState (stored_series st)) = stored_series (cloneSeriesState st)"
proof -
  have "stored_feature (cloneFeatureState (stored_feature f)) = stored_feature (cloneFeatureState f)" for f
    by (cases f; cases "fs_Indicators f")
      (auto simp: stored_feature_def cloneFeatureState_def stored_indicators_def)
  then show ?thesis by (simp add: stored_series_def cloneSeriesState_def)
qed

interpretation pg_restart: restart_store view_commit "view_load owned" stored_series view_ok "set (smallintPartitions owned)"
  for owned
proof
  fix b v created v' e
  show "view_ok v \<Longrightarrow> rb_PartitionID b \<in> set (smallintPartitions owned) \<Longrightarrow> view_commit b v = (Inr created, v') \<Longrightarrow>
      view_load owned v' = checkpointed (stored_batch stored_series b) (view_load owned v) \<and> view_ok v'"
    using view_commit_ok [of b owned v created v'] by (simp add: view_ok_def)
  show "view_ok v \<Longrightarrow> view_commit b v = (Inl e, v') \<Longrightarrow> view_load owned v' = view_load owned v \<and> view_ok v'"
    by (auto simp: view_commit_def pg_CommitRuntimeBatch_def settle_Inl split: prod.splits)
qed (rule stored_clone)

text \<open>
  The commits of other workers are such changes: when every row carries the partition of its series, a batch that
  another worker commits for a partition of its own is invisible to this worker, and the rows stay where they belong.
\<close>

definition placed :: "engine \<Rightarrow> pg \<Rightarrow> bool" where
  "placed e s \<longleftrightarrow> (\<forall>k p st. pg_series s k = Some (p, st) \<longrightarrow> p = Some (PartitionForKey e k)) \<and>
     (\<forall>i k p st. pg_definition_states s (i, k) = Some (p, st) \<longrightarrow> p = Some (PartitionForKey e k))"

lemma placedD:
  "placed e s \<Longrightarrow> pg_series s k = Some (p, st) \<Longrightarrow> p = Some (PartitionForKey e k)"
  "placed e s \<Longrightarrow> pg_definition_states s (i, k) = Some (p, d) \<Longrightarrow> p = Some (PartitionForKey e k)"
  unfolding placed_def by blast+

lemma batch_definition_confined:
  assumes "confined e pid b" and "batch_definition (batch_of pid b) (i, k) \<noteq> None"
  shows "PartitionForKey e k = pid"
proof -
  from assms(2) have i: "CHR ''|'' \<notin> set i" and "DefinitionStateKey i k \<in> dom (b_definitionStates b)"
    by (auto simp: batch_definition_def batch_of_def split: if_splits)
  with assms(1) have "PartitionForKey e (definitionSeriesKey (DefinitionStateKey i k)) = pid"
    unfolding confined_def by blast
  with i show ?thesis by (simp add: definitionSeriesKey_key)
qed

lemma batch_of_simps:
  "rb_PartitionID (batch_of pid b) = pid" "rb_SeriesStates (batch_of pid b) = b_seriesStates b"
  "set (rb_ResetSeriesKeys (batch_of pid b)) = set (b_resetSeries b)"
  by (simp_all add: batch_of_def)

lemma other_workers_commit:
  assumes "commit_tx drv now (batch_of pid b) s = Inr (created, s')" and "confined e pid b"
    and "placed e s" and "pid \<notin> set ids"
  shows "visible_series ids s' = visible_series ids s \<and> visible_definitions ids s' = visible_definitions ids s \<and> placed e s'"
proof (intro conjI)
  note r = commit_tx_runtime(1,2) [OF assms(1)]
  have b: "PartitionForKey e k = pid" if "b_seriesStates b k = Some st" for k st
    using assms(2) that by (auto simp: confined_def)
  have d: "PartitionForKey e k = pid" if "batch_definition (batch_of pid b) (i, k) = Some st" for i k st
    using batch_definition_confined [OF assms(2), of i k] that by simp
  have z: "PartitionForKey e k = pid" if "k \<in> set (b_resetSeries b)" for k
    using assms(2) that by (auto simp: confined_def)
  show "placed e s'"
    unfolding placed_def
  proof (intro conjI allI impI)
    fix k p st assume "pg_series s' k = Some (p, st)"
    then show "p = Some (PartitionForKey e k)"
      using placedD(1) [OF assms(3)] b [of k] by (auto simp: r batch_of_simps map_add_Some_iff)
  next
    fix i k p st assume "pg_definition_states s' (i, k) = Some (p, st)"
    then show "p = Some (PartitionForKey e k)"
      using placedD(2) [OF assms(3)] d [of i k] by (auto simp: r batch_of_simps map_add_Some_iff split: if_splits)
  qed
  show "visible_series ids s' = visible_series ids s"
    using assms(4) b unfolding visible_series_def r
    by (auto simp: batch_of_simps visible_def map_add_def fun_eq_iff split: option.splits dest: placedD(1) [OF assms(3)])
  show "visible_definitions ids s' = visible_definitions ids s"
  proof
    fix k
    show "visible_definitions ids s' k = visible_definitions ids s k"
    proof (cases "cut CHR ''|'' k")
      case (Some ik)
      obtain i key where ik: "ik = (i, key)" by (cases ik)
      show ?thesis
      proof (cases "PartitionForKey e key = pid")
        case True
        then have "\<not> visible ids p" if "pg_definition_states s (i, key) = Some (p, st)" for p st
          using placedD(2) [OF assms(3) that] assms(4) by (simp add: visible_def)
        with Some ik assms(4) show ?thesis
          by (auto simp: visible_definitions_def r(2) map_add_def visible_def batch_of_simps split: option.splits)
      next
        case False
        then have "batch_definition (batch_of pid b) (i, key) = None" "key \<notin> set (b_resetSeries b)"
          using d [of i key] z [of key] by fastforce+
        with Some ik show ?thesis by (simp add: visible_definitions_def r(2) map_add_def batch_of_simps)
      qed
    qed (simp add: visible_definitions_def)
  qed
qed

lemma insert_event_definitions: "insert_event a s = Inr (x, s') \<Longrightarrow> pg_definitions s' = pg_definitions s"
  by (auto simp: insert_event_def pg_fail_def Let_def split: if_splits option.splits)

lemma insert_events_definitions: "insert_events as s = Inr (x, s') \<Longrightarrow> pg_definitions s' = pg_definitions s"
  by (induction as arbitrary: s x) (fastforce simp: pg_then_Inr dest: insert_event_definitions)+

lemma insert_outboxes_definitions: "insert_outboxes now as s = Inr (x, s') \<Longrightarrow> pg_definitions s' = pg_definitions s"
  by (induction as arbitrary: s) (fastforce simp: pg_then_Inr insert_outbox_def pg_fail_def Let_def split: if_splits)+

lemma commit_tx_definitions:
  assumes "commit_tx drv now b s = Inr (created, s')"
  shows "pg_definitions s' = pg_definitions s"
proof -
  from commit_tx_steps [OF assms] obtain s1 s2 s3 s4 where steps:
    "commit_inbox drv now b s = Inr ((), s1)" "commit_series drv b s1 = Inr ((), s2)"
    "commit_resets drv b s2 = Inr ((), s3)" "commit_definitions drv b s3 = Inr ((), s4)"
    "commit_alerts drv now b s4 = Inr (created, s')" .
  have "pg_definitions s' = pg_definitions s4"
    by (rule commit_alerts_steps [OF steps(5)]) (simp_all add: insert_events_definitions insert_outboxes_definitions)
  then show ?thesis
    using commit_inbox_frame [OF steps(1)] commit_series_effect [OF steps(2)] commit_resets_effect [OF steps(3)]
      commit_definitions_effect(1) [OF steps(4)] by (simp add: insert_inboxes_frame)
qed

lemma view_commit_definitions: "view_commit b v = (res, v') \<Longrightarrow> pg_definitions (snd v') = pg_definitions (snd v)"
  by (cases res) (auto simp: view_commit_def pg_CommitRuntimeBatch_def settle_Inl settle_Inr commit_tx_definitions split: prod.splits)

section \<open>Restarting\<close>

lemma smallint_id: "- (2 ^ 15) \<le> p \<Longrightarrow> p < 2 ^ 15 \<Longrightarrow> smallint p = p"
  by (simp add: smallint_def signed_take_bit_int_eq_self)

lemma owned_smallint:
  "set (smallintPartitions (ownedPartitions (NewWithOwnership DefaultPartitions w n))) =
     {p. valid_pid (NewWithOwnership DefaultPartitions w n) p}"
proof -
  let ?e = "NewWithOwnership DefaultPartitions w n"
  have len: "length (e_partitions ?e) = 256" by (simp add: NewWithOwnership_def DefaultPartitions_def Let_def)
  then have small: "smallint p = p" if "p \<in> set (ownedPartitions ?e)" for p
    using that by (intro smallint_id) (auto simp: ownedPartitions_def)
  then have "smallintPartitions (ownedPartitions ?e) = ownedPartitions ?e"
    unfolding smallintPartitions_def by (simp add: map_idI)
  then show ?thesis by (auto simp: ownedPartitions_def valid_pid_def len image_iff intro!: bexI [of _ "nat _"])
qed

lemma Initialize_load:
  assumes "load (ownedPartitions fresh) = Inr snap"
  shows "Initialize now (Inr ds) load fresh = Initialize now (Inr ds) (\<lambda>_. Inr snap) fresh"
proof -
  have "ownedPartitions e1 = ownedPartitions fresh" if "ReplaceDefinitions now ds fresh = (err, e1)" for err e1
    using definition_changes_frame(1) [of now ds fresh] that
    by (auto simp: ownedPartitions_def owns_frame intro: filter_cong)
  with assms show ?thesis by (auto simp: Initialize_def split: prod.splits option.splits)
qed


definition empty_pg :: pg where
  "empty_pg = \<lparr>pg_definitions = [], pg_inbox = [], pg_rule_state = [], pg_series = Map.empty,
     pg_definition_states = Map.empty, pg_events = [], pg_outbox = [], pg_leases = Map.empty, pg_event_seq = 0, pg_outbox_seq = 0\<rparr>"

definition plain_driver :: driver where
  "plain_driver = \<lparr>drv_fault = (\<lambda>st. None), drv_uuid = Some, drv_order = (\<lambda>rows. rows)\<rparr>"

lemma plain_no_faults: "no_faults plain_driver"
  by (simp add: no_faults_def plain_driver_def)

definition sample_row :: pg_definition_row where
  "sample_row = \<lparr>pd_definition = sample_definition, pd_archived_at = None\<rparr>"


end
