(* ===== verification/Service.thy ===== *)
theory Service
  imports Engine_Restart
begin

text \<open>
  \<open>internal/service/service.go\<close>: the life cycle of definitions, the ingestion of observations
  and the publisher of the outbox. The repository is a parameter \<open>ops\<close>, a record of the
  methods of the Go interface over a repository state; \<open>now\<close> is \<open>s.now()\<close>, \<open>elapsed\<close> the measured
  duration of a batch, and \<open>canonical\<close> the text \<open>json.Marshal\<close> gives for the canonical form of a
  definition (empty when it fails). Logging is left out. Loops over a ticker are given by
  their body; the publisher's inner loop has fuel.
\<close>

section \<open>State\<close>

record service_metrics =
  sm_Observations :: u64
  sm_Alerts :: u64
  sm_Published :: u64
  sm_PublishFails :: u64
  sm_Batches :: u64
  sm_IngestFails :: u64
  sm_EvalNanos :: u64
  sm_RefreshFails :: u64
  sm_InboxDeleted :: u64
  sm_AlertsDeleted :: u64
  sm_MaintenanceFails :: u64
  sm_EvalBuckets :: "u64 list"

record 'r service =
  sv_repo :: 'r
  sv_wake :: bool
  sv_metrics :: service_metrics
  sv_runtime :: engine
  sv_activationDelay :: duration
  sv_definitionMaxStaleness :: duration

datatype observation_error =
    InvalidEnvelope | InvalidStatus | ResetNotConfirmed | InvalidPrices | PriceNotFinite | InvalidIndicator | InvalidHistory

datatype service_error =
    MissingFields
  | NegativeCooldown
  | BadEvaluationMode
  | BadTriggerMode
  | BadRule rule_error
  | FlipNeedsIntrabar
  | Repository store_error
  | Runtime engine_error
  | CacheStale
  | BadObservation observation_error

definition evaluationBucketBounds :: "duration list" where
  "evaluationBucketBounds = map (\<lambda>n. n * millisecond) [1, 5, 10, 25, 50, 100, 250, 500, 1000]"

record service_options =
  so_ActivationDelay :: duration
  so_DefinitionMaxStaleness :: duration
  so_WorkerIndex :: int
  so_WorkerCount :: int

definition zero_metrics :: service_metrics where
  "zero_metrics = \<lparr>sm_Observations = 0, sm_Alerts = 0, sm_Published = 0, sm_PublishFails = 0, sm_Batches = 0,
     sm_IngestFails = 0, sm_EvalNanos = 0, sm_RefreshFails = 0, sm_InboxDeleted = 0, sm_AlertsDeleted = 0,
     sm_MaintenanceFails = 0, sm_EvalBuckets = replicate 9 0\<rparr>"

definition NewWithOptions :: "'r \<Rightarrow> service_options \<Rightarrow> 'r service" where
  "NewWithOptions repo options =
     \<lparr>sv_repo = repo, sv_wake = False, sv_metrics = zero_metrics,
      sv_runtime = NewWithOwnership DefaultPartitions (so_WorkerIndex options) (so_WorkerCount options),
      sv_activationDelay = so_ActivationDelay options,
      sv_definitionMaxStaleness = so_DefinitionMaxStaleness options\<rparr>"

definition service_Initialize :: "'r repository \<Rightarrow> go_time \<Rightarrow> 'r service \<Rightarrow> engine_error option \<times> 'r service" where
  "service_Initialize ops now s =
    (case Initialize now (repo_ListDefinitions ops now (sv_repo s))
            (\<lambda>ps. repo_LoadRuntimeStates ops ps (sv_repo s)) (sv_runtime s) of
       (err, e) \<Rightarrow> (err, s\<lparr>sv_runtime := e\<rparr>))"

section \<open>Definitions\<close>

definition RefreshDefinitions :: "'r repository \<Rightarrow> go_time \<Rightarrow> 'r service \<Rightarrow> service_error option \<times> 'r service" where
  "RefreshDefinitions ops now s =
    (case repo_ListDefinitions ops now (sv_repo s) of
       Inl err \<Rightarrow> (Some (Repository err), s)
     | Inr ds \<Rightarrow>
        (case ReplaceDefinitions now ds (sv_runtime s) of
           (err, e) \<Rightarrow> (map_option Runtime err, s\<lparr>sv_runtime := e\<rparr>)))"

text \<open>The body of \<open>RunDefinitionRefresh\<close> on a tick.\<close>

definition refresh_tick :: "'r repository \<Rightarrow> go_time \<Rightarrow> 'r service \<Rightarrow> 'r service" where
  "refresh_tick ops now s =
    (case RefreshDefinitions ops now s of
       (None, s1) \<Rightarrow> s1
     | (Some _, s1) \<Rightarrow> s1\<lparr>sv_metrics := (sv_metrics s1)\<lparr>sm_RefreshFails := sm_RefreshFails (sv_metrics s1) + 1\<rparr>\<rparr>)"

record canonical =
  cn_Series :: series
  cn_Rule :: rule
  cn_EvaluationMode :: string
  cn_TriggerMode :: string
  cn_Cooldown :: int

definition default_mode :: "string \<Rightarrow> string \<Rightarrow> string" where
  "default_mode d mode = (if mode = '''' then d else mode)"

definition create_error :: "string \<Rightarrow> canonical \<Rightarrow> service_error option" where
  "create_error name c =
    (if name = '''' \<or> ser_Symbol (cn_Series c) = '''' \<or> ser_Timeframe (cn_Series c) = '''' then Some MissingFields
     else if cn_Cooldown c < 0 then Some NegativeCooldown
     else if cn_EvaluationMode c \<noteq> ''confirmed_close'' \<and> cn_EvaluationMode c \<noteq> ''intrabar''
         \<and> cn_EvaluationMode c \<noteq> ''both'' then Some BadEvaluationMode
     else if cn_TriggerMode c \<noteq> ''on_occurrence'' \<and> cn_TriggerMode c \<noteq> ''once_per_bar''
         \<and> cn_TriggerMode c \<noteq> ''every_match'' then Some BadTriggerMode
     else case Validate (cn_Rule c) of
       Some err \<Rightarrow> Some (BadRule err)
     | None \<Rightarrow> if RequiresIntrabar (cn_Rule c) \<and> cn_EvaluationMode c = ''confirmed_close'' then Some FlipNeedsIntrabar
              else None)"

definition uuidFrom :: "int list \<Rightarrow> string" where
  "uuidFrom raw = uuid_layout (hex raw)"

definition new_definition :: "(canonical \<Rightarrow> string) \<Rightarrow> go_time \<Rightarrow> duration \<Rightarrow> string \<Rightarrow> canonical \<Rightarrow> alert_definition" where
  "new_definition canonical now delay name c =
    (let sum = sha256 (canonical c)
     in \<lparr>dfn_ID = uuidFrom (take 16 sum), dfn_Version = 1, dfn_DefinitionHash = ''sha256:'' @ hex sum,
         dfn_Name = name, dfn_Enabled = True, dfn_Series = cn_Series c, dfn_Rule = cn_Rule c,
         dfn_EvaluationMode = cn_EvaluationMode c, dfn_TriggerMode = cn_TriggerMode c,
         dfn_CooldownSeconds = cn_Cooldown c, dfn_CreatedAt = now, dfn_UpdatedAt = now,
         dfn_EffectiveAt = time_add now delay\<rparr>)"

definition upsert_runtime :: "alert_definition \<Rightarrow> 'r service \<Rightarrow> service_error option \<times> 'r service" where
  "upsert_runtime d s =
    (case UpsertDefinition d (sv_runtime s) of (err, e) \<Rightarrow> (map_option BadRule err, s\<lparr>sv_runtime := e\<rparr>))"

definition Create ::
  "'r repository \<Rightarrow> (canonical \<Rightarrow> string) \<Rightarrow> go_time \<Rightarrow> string \<Rightarrow> canonical \<Rightarrow> 'r service
     \<Rightarrow> (alert_definition \<times> bool \<times> service_error option) \<times> 'r service" where
  "Create ops canonical now name request s =
    (let c = request\<lparr>cn_EvaluationMode := default_mode ''confirmed_close'' (cn_EvaluationMode request),
                     cn_TriggerMode := default_mode ''on_occurrence'' (cn_TriggerMode request)\<rparr>
     in case create_error name c of
          Some err \<Rightarrow> ((zero_definition, False, Some err), s)
        | None \<Rightarrow>
           (case repo_CreateDefinition ops (new_definition canonical now (sv_activationDelay s) name c) (sv_repo s) of
              (Inl err, r) \<Rightarrow> ((zero_definition, False, Some (Repository err)), s\<lparr>sv_repo := r\<rparr>)
            | (Inr (d, created), r) \<Rightarrow>
               (case upsert_runtime d (s\<lparr>sv_repo := r\<rparr>) of (err, s1) \<Rightarrow> ((d, created, err), s1))))"

definition SetEnabled ::
  "'r repository \<Rightarrow> go_time \<Rightarrow> string \<Rightarrow> bool \<Rightarrow> 'r service
     \<Rightarrow> (alert_definition \<times> service_error option) \<times> 'r service" where
  "SetEnabled ops now i enabled s =
    (case repo_SetEnabled ops now i enabled (time_add now (sv_activationDelay s)) (sv_repo s) of
       (Inl err, r) \<Rightarrow> ((zero_definition, Some (Repository err)), s\<lparr>sv_repo := r\<rparr>)
     | (Inr d, r) \<Rightarrow>
        (case upsert_runtime d (s\<lparr>sv_repo := r\<rparr>) of (err, s1) \<Rightarrow> ((d, err), s1)))"

definition Delete :: "'r repository \<Rightarrow> go_time \<Rightarrow> string \<Rightarrow> 'r service \<Rightarrow> service_error option \<times> 'r service" where
  "Delete ops now i s =
    (case repo_ArchiveDefinition ops now i (time_add now (sv_activationDelay s)) (sv_repo s) of
       (Some err, r) \<Rightarrow> (Some (Repository err), s\<lparr>sv_repo := r\<rparr>)
     | (None, r) \<Rightarrow> RefreshDefinitions ops now (s\<lparr>sv_repo := r\<rparr>))"

definition service_ListDefinitions :: "'r repository \<Rightarrow> go_time \<Rightarrow> 'r service \<Rightarrow> store_error + alert_definition list" where
  "service_ListDefinitions ops now s = repo_ListDefinitions ops now (sv_repo s)"

definition service_ListAlerts :: "'r repository \<Rightarrow> int \<Rightarrow> int \<Rightarrow> 'r service \<Rightarrow> store_error + alert list" where
  "service_ListAlerts ops after limit s =
    (let limit = (if limit \<le> 0 then 100 else limit);
         limit = (if limit > 1000 then 1000 else limit)
     in repo_ListAlerts ops after limit (sv_repo s))"

section \<open>Ingestion\<close>

definition prices_invalid :: "candle \<Rightarrow> bool" where
  "prices_invalid c \<longleftrightarrow> f_lt (cnd_High c) (cnd_Low c) \<or> f_lt (cnd_High c) (cnd_Open c) \<or> f_lt (cnd_High c) (cnd_Close c)
     \<or> f_lt (cnd_Open c) (cnd_Low c) \<or> f_lt (cnd_Close c) (cnd_Low c)"

definition validateObservation :: "observation \<Rightarrow> observation_error option" where
  "validateObservation o' =
    (if obs_Schema o' \<noteq> ''alerts.observation.v1'' \<or> obs_SourceEventID o' = '''' \<or> obs_CorrelationID o' = ''''
        \<or> ser_Symbol (obs_Series o') = '''' \<or> ser_Timeframe (obs_Series o') = ''''
        \<or> is_zero (cnd_OpenTime (obs_Candle o')) \<or> is_zero (obs_OccurredAt o') then Some InvalidEnvelope
     else if obs_Status o' \<noteq> ''confirmed'' \<and> obs_Status o' \<noteq> ''provisional'' then Some InvalidStatus
     else if obs_Reset o' \<and> obs_Status o' \<noteq> ''confirmed'' then Some ResetNotConfirmed
     else if prices_invalid (obs_Candle o') then Some InvalidPrices
     else if list_ex (\<lambda>v. f_isNaN v \<or> f_isInf v)
         [cnd_Open (obs_Candle o'), cnd_High (obs_Candle o'), cnd_Low (obs_Candle o'), cnd_Close (obs_Candle o')]
       then Some PriceNotFinite
     else if list_ex (\<lambda>i. ind_Name i = '''' \<or> ind_Period i < 1 \<or> f_isNaN (ind_Value i) \<or> f_isInf (ind_Value i)) (obs_Indicators o')
       then Some InvalidIndicator
     else if list_ex (\<lambda>c. is_zero (cnd_OpenTime c) \<or> prices_invalid c) (obs_History o') then Some InvalidHistory
     else None)"

definition add_buckets :: "duration \<Rightarrow> u64 list \<Rightarrow> u64 list" where
  "add_buckets elapsed buckets =
     map (\<lambda>(bound, n). if elapsed \<le> bound then n + 1 else n) (zip evaluationBucketBounds buckets)"

definition count_batch :: "duration \<Rightarrow> observation list \<Rightarrow> engine_error + alert list \<Rightarrow> service_metrics \<Rightarrow> service_metrics" where
  "count_batch elapsed observations res m =
    (let m1 = m\<lparr>sm_Batches := sm_Batches m + 1, sm_EvalNanos := sm_EvalNanos m + of_int elapsed,
                sm_EvalBuckets := add_buckets elapsed (sm_EvalBuckets m)\<rparr>
     in case res of
          Inr alerts \<Rightarrow> m1\<lparr>sm_Observations := sm_Observations m1 + word_of_nat (length observations),
                           sm_Alerts := sm_Alerts m1 + word_of_nat (length alerts)\<rparr>
        | Inl _ \<Rightarrow> m1\<lparr>sm_IngestFails := sm_IngestFails m1 + 1\<rparr>)"

definition IngestBatch ::
  "'r repository \<Rightarrow> go_time \<Rightarrow> duration \<Rightarrow> int \<Rightarrow> observation list \<Rightarrow> 'r service
     \<Rightarrow> ((service_error + alert list) \<times> 'r service) option" where
  "IngestBatch ops now elapsed pid observations s =
    (if \<not> DefinitionsFresh now (sv_definitionMaxStaleness s) (sv_runtime s) then Some (Inl CacheStale, s)
     else case first_some validateObservation observations of
       Some err \<Rightarrow> Some (Inl (BadObservation err), s)
     | None \<Rightarrow>
        (case EvaluateBatch (repo_CommitRuntimeBatch ops) now pid observations (sv_runtime s) (sv_repo s) of
           None \<Rightarrow> None
         | Some (res, e, r) \<Rightarrow>
            let s1 = s\<lparr>sv_runtime := e, sv_repo := r,
                       sv_metrics := count_batch elapsed observations res (sv_metrics s)\<rparr>
            in case res of
                 Inl err \<Rightarrow> Some (Inl (Runtime err), s1)
               | Inr alerts \<Rightarrow> Some (Inr alerts, if alerts \<noteq> [] then s1\<lparr>sv_wake := True\<rparr> else s1)))"

definition Ingest ::
  "'r repository \<Rightarrow> go_time \<Rightarrow> duration \<Rightarrow> observation \<Rightarrow> 'r service
     \<Rightarrow> ((service_error + alert list) \<times> 'r service) option" where
  "Ingest ops now elapsed obs s =
    (case validateObservation obs of
       Some err \<Rightarrow> Some (Inl (BadObservation err), s)
     | None \<Rightarrow> IngestBatch ops now elapsed (Partition (sv_runtime s) (obs_Series obs)) [obs] s)"

text \<open>The body of \<open>RunMaintenance\<close> on a tick.\<close>

definition maintenance_tick :: "'r repository \<Rightarrow> retention_policy \<Rightarrow> 'r service \<Rightarrow> 'r service" where
  "maintenance_tick ops policy s =
    (case repo_Maintain ops policy (sv_repo s) of
       (Inl _, r) \<Rightarrow> s\<lparr>sv_repo := r, sv_metrics := (sv_metrics s)\<lparr>sm_MaintenanceFails := sm_MaintenanceFails (sv_metrics s) + 1\<rparr>\<rparr>
     | (Inr res, r) \<Rightarrow> s\<lparr>sv_repo := r, sv_metrics := (sv_metrics s)
          \<lparr>sm_InboxDeleted := sm_InboxDeleted (sv_metrics s) + of_int (mr_InboxDeleted res),
           sm_AlertsDeleted := sm_AlertsDeleted (sv_metrics s) + of_int (mr_AlertsDeleted res)\<rparr>\<rparr>)"

section \<open>The outbox publisher\<close>

text \<open>A publisher acts on a world \<open>'p\<close>; \<open>Some\<close> is the text of its error.\<close>

type_synonym 'p publisher = "alert \<Rightarrow> 'p \<Rightarrow> string option \<times> 'p"

fun multi_publish :: "'p publisher list \<Rightarrow> 'p publisher" where
  "multi_publish [] a w = (None, w)"
| "multi_publish (p # ps) a w = (case p a w of (Some err, w1) \<Rightarrow> (Some err, w1) | (None, w1) \<Rightarrow> multi_publish ps a w1)"

definition log_publish :: "'p publisher" where
  "log_publish a w = (None, w)"

definition publish_event :: "'r repository \<Rightarrow> 'p publisher \<Rightarrow> 'r service \<times> 'p \<Rightarrow> alert \<Rightarrow> 'r service \<times> 'p" where
  "publish_event ops publish sw event =
    (let (s, w) = sw; m = sv_metrics s
     in case publish event w of
          (Some err, w1) \<Rightarrow>
            (s\<lparr>sv_metrics := m\<lparr>sm_PublishFails := sm_PublishFails m + 1\<rparr>,
               sv_repo := snd (repo_MarkPublishFailed ops (alr_ID event) err (sv_repo s))\<rparr>, w1)
        | (None, w1) \<Rightarrow>
            (case repo_MarkPublished ops (alr_ID event) (sv_repo s) of
               (Some _, r) \<Rightarrow> (s\<lparr>sv_repo := r\<rparr>, w1)
             | (None, r) \<Rightarrow> (s\<lparr>sv_repo := r, sv_metrics := m\<lparr>sm_Published := sm_Published m + 1\<rparr>\<rparr>, w1)))"

text \<open>The inner loop of \<open>RunPublisher\<close>; \<open>None\<close> when the fuel runs out.\<close>

fun drain :: "'r repository \<Rightarrow> 'p publisher \<Rightarrow> nat \<Rightarrow> 'r service \<times> 'p \<Rightarrow> ('r service \<times> 'p) option" where
  "drain ops publish 0 sw = None"
| "drain ops publish (Suc n) sw =
    (case repo_ClaimPending ops 100 (sv_repo (fst sw)) of
       (Inl _, r) \<Rightarrow> Some ((fst sw)\<lparr>sv_repo := r\<rparr>, snd sw)
     | (Inr events, r) \<Rightarrow>
        let sw1 = ((fst sw)\<lparr>sv_repo := r\<rparr>, snd sw)
        in if events = [] then Some sw1
           else let sw2 = foldl (publish_event ops publish) sw1 events
                in if length events < 100 then Some sw2 else drain ops publish n sw2)"

section \<open>Readiness and metrics\<close>

definition service_Ready :: "'r repository \<Rightarrow> go_time \<Rightarrow> bool list \<Rightarrow> 'r service \<Rightarrow> bool" where
  "service_Ready ops now readiness s =
    (if \<not> repo_Ping ops (sv_repo s) then False
     else if \<not> DefinitionsFresh now (sv_definitionMaxStaleness s) (sv_runtime s) then False
     else list_all (\<lambda>ready. ready) readiness)"

record metric_snapshot =
  ms_service :: service_metrics
  ms_StaleEvents :: u64
  ms_ResetEvents :: u64
  ms_RuleEvaluations :: u64
  ms_PendingOutbox :: int
  ms_DefinitionCacheAgeSeconds :: f64
  ms_OldestOutboxAgeSeconds :: f64

definition service_Metrics :: "'r repository \<Rightarrow> go_time \<Rightarrow> 'r service \<Rightarrow> metric_snapshot" where
  "service_Metrics ops now s =
    (let rm = Metrics (sv_runtime s);
         st = (case repo_OperationalStats ops (sv_repo s) of
                 Inl _ \<Rightarrow> \<lparr>ost_PendingOutbox = 0, ost_OldestOutboxAge = 0\<rparr> | Inr st \<Rightarrow> st)
     in \<lparr>ms_service = sv_metrics s, ms_StaleEvents = mt_StaleEvents rm, ms_ResetEvents = mt_ResetEvents rm,
         ms_RuleEvaluations = mt_RuleEvals rm, ms_PendingOutbox = ost_PendingOutbox st,
         ms_DefinitionCacheAgeSeconds = seconds (DefinitionCacheAge now (sv_runtime s)),
         ms_OldestOutboxAgeSeconds = seconds (ost_OldestOutboxAge st)\<rparr>)"

definition IsNotFound :: "service_error option \<Rightarrow> bool" where
  "IsNotFound err \<longleftrightarrow> err = Some (Repository ErrNotFound)"

end
