(* ===== verification/Service_Laws.thy ===== *)
theory Service_Laws
  imports Service
begin

text \<open>
  What the service guarantees over the memory store: whatever its clients ask for, the definitions it keeps
  are valid and its evaluator neither panics nor fails to compile; a definition is created once;
  switching a definition takes effect at one boundary; bad input changes nothing; and the
  publisher drains the outbox in order.
\<close>

section \<open>Well-formed definitions\<close>

definition definition_wf :: "alert_definition \<Rightarrow> bool" where
  "definition_wf d \<longleftrightarrow>
     Validate (dfn_Rule d) = None \<and> dfn_EvaluationMode d \<in> {''confirmed_close'', ''intrabar'', ''both''} \<and>
     dfn_TriggerMode d \<in> {''on_occurrence'', ''once_per_bar'', ''every_match''} \<and> 0 \<le> dfn_CooldownSeconds d \<and>
     (RequiresIntrabar (dfn_Rule d) \<longrightarrow> dfn_EvaluationMode d \<noteq> ''confirmed_close'') \<and>
     dfn_Name d \<noteq> '''' \<and> ser_Symbol (dfn_Series d) \<noteq> '''' \<and> ser_Timeframe (dfn_Series d) \<noteq> '''' \<and>
     length (dfn_ID d) = 36 \<and> CHR ''|'' \<notin> set (dfn_ID d)"

lemma uuidFrom_sha: "length (uuidFrom (take 16 (sha256 m))) = 36 \<and> CHR ''|'' \<notin> set (uuidFrom (take 16 (sha256 m)))"
  by (simp add: uuidFrom_def length_uuid_layout uuid_no_bar)

lemma create_error_wf: "create_error name c = None \<Longrightarrow> definition_wf (new_definition canonical now delay name c)"
  using uuidFrom_sha [of "canonical c"]
  by (auto simp: create_error_def definition_wf_def new_definition_def Let_def split: if_splits option.splits)

lemma definition_wf_switch:
  "definition_wf d \<Longrightarrow> definition_wf (d\<lparr>dfn_Enabled := b, dfn_UpdatedAt := t, dfn_EffectiveAt := u\<rparr>)"
  "definition_wf d \<Longrightarrow> definition_wf (d\<lparr>dfn_Enabled := b, dfn_EffectiveAt := u\<rparr>)"
  by (simp_all add: definition_wf_def)

definition memory_wf :: "memory \<Rightarrow> bool" where
  "memory_wf m \<longleftrightarrow> (\<forall>(i, d) \<in> set (m_definitions m). definition_wf d) \<and>
     (\<forall>h i. m_byHash m h = Some i \<longrightarrow> i \<in> fst ` set (m_definitions m))"

definition engine_wf :: "engine \<Rightarrow> bool" where
  "engine_wf e \<longleftrightarrow> routes_ok e \<and> (\<forall>k. \<forall>c \<in> set (get_route (e_byRoute e) k). definition_wf (cd_definition c))"

definition service_wf :: "memory service \<Rightarrow> bool" where
  "service_wf s \<longleftrightarrow> memory_wf (sv_repo s) \<and> engine_wf (sv_runtime s)"

lemma set_alist_update: "x \<in> set (AList.update k v al) \<Longrightarrow> x = (k, v) \<or> x \<in> set al"
  by (induction al) (auto split: if_splits)

lemma memory_wf_update:
  assumes "memory_wf m" and "definition_wf d"
  shows "memory_wf (m\<lparr>m_definitions := AList.update i d (m_definitions m), m_archived := a\<rparr>)"
    and "memory_wf (m\<lparr>m_definitions := AList.update i d (m_definitions m)\<rparr>)"
    and "memory_wf (m\<lparr>m_definitions := AList.update i d (m_definitions m), m_byHash := (m_byHash m)(h \<mapsto> i)\<rparr>)"
  using assms set_alist_update [of _ i d "m_definitions m"]
  by (auto simp: memory_wf_def dom_update split: if_splits) fastforce+

lemma memory_wf_lookup: "memory_wf m \<Longrightarrow> map_of (m_definitions m) i = Some d \<Longrightarrow> definition_wf d"
  by (auto simp: memory_wf_def dest: map_of_SomeD)

lemma memory_wf_Create:
  assumes "memory_wf m" and "definition_wf d" and "mem_CreateDefinition d m = ((d', created), m')"
  shows "memory_wf m' \<and> definition_wf d'"
proof (cases "m_byHash m (dfn_DefinitionHash d)")
  case None
  with assms show ?thesis by (auto simp: mem_CreateDefinition_def memory_wf_update)
next
  case (Some i)
  with assms(1) obtain d0 where "map_of (m_definitions m) i = Some d0"
    unfolding memory_wf_def by (metis domD dom_map_of_conv_image_fst)
  with Some assms memory_wf_lookup [OF assms(1)] show ?thesis
    by (auto simp: mem_CreateDefinition_def memory_wf_update split: if_splits)
qed

lemma memory_wf_SetEnabled:
  assumes "memory_wf m" and "mem_SetEnabled now i b t m = (res, m')"
  shows "memory_wf m' \<and> (\<forall>d. res = Inr d \<longrightarrow> definition_wf d)"
  using assms memory_wf_lookup [OF assms(1), of i]
  by (auto simp: mem_SetEnabled_def memory_wf_update definition_wf_switch Let_def split: option.splits if_splits)

lemma memory_wf_Archive:
  assumes "memory_wf m" and "mem_ArchiveDefinition i t m = (res, m')"
  shows "memory_wf m'"
  using assms memory_wf_lookup [OF assms(1), of i]
  by (auto simp: mem_ArchiveDefinition_def memory_wf_update definition_wf_switch split: option.splits)

lemma memory_wf_frame: "memory_wf m \<Longrightarrow> m_definitions m' = m_definitions m \<Longrightarrow> m_byHash m' = m_byHash m \<Longrightarrow> memory_wf m'"
  by (simp add: memory_wf_def)

lemma memory_wf_List: "memory_wf m \<Longrightarrow> d \<in> set (mem_ListDefinitions now m) \<Longrightarrow> definition_wf d"
  by (auto simp: memory_wf_def mem_ListDefinitions_def)

lemma engine_wf_Replace:
  assumes "engine_wf e" and "\<forall>d \<in> set ds. definition_wf d"
  shows "fst (ReplaceDefinitions now ds e) = None \<and> engine_wf (snd (ReplaceDefinitions now ds e))"
proof -
  have "\<forall>d \<in> set ds. Validate (dfn_Rule d) = None" using assms(2) by (simp add: definition_wf_def)
  then obtain m where "build_routes ds Map.empty = Inr m" using build_routes_total by blast
  then obtain e' where e': "ReplaceDefinitions now ds e = (None, e')" by (auto simp: ReplaceDefinitions_def)
  with ReplaceDefinitions_route(1) [OF e'] assms routes_ok_Replace [of e now ds] show ?thesis
    by (auto simp: engine_wf_def sort_route_def)
qed

lemma engine_wf_Upsert:
  assumes "engine_wf e" and "definition_wf d"
  shows "fst (UpsertDefinition d e) = None \<and> engine_wf (snd (UpsertDefinition d e))"
proof -
  have "Validate (dfn_Rule d) = None" using assms(2) by (simp add: definition_wf_def)
  then obtain e' where e': "UpsertDefinition d e = (None, e')"
    by (simp add: UpsertDefinition_def Compile_def Let_def)
  have "c = compile_definition d \<or> c \<in> set (get_route (e_byRoute e) k)" if "c \<in> set (get_route (e_byRoute e') k)" for c k
    using that upsert_route_set [of "get_route (e_byRoute e) k" "compile_definition d"]
    by (auto simp: get_route_Upsert(1) [OF e'] split: if_splits)
  with assms e' routes_ok_Upsert [of e d] show ?thesis unfolding engine_wf_def by fastforce
qed

lemma engine_wf_evaluate: "engine_wf e \<Longrightarrow> EvaluateBatch commit now pid os e r = Some (res, e', r') \<Longrightarrow> engine_wf e'"
  by (auto simp: engine_wf_def routes_ok_def dest: EvaluateBatch_routes)

lemma commit_definitions:
  "mem_CommitRuntimeBatch b m = (res, m') \<Longrightarrow> m_definitions m' = m_definitions m \<and> m_byHash m' = m_byHash m"
  by (auto simp: mem_CommitRuntimeBatch_def Let_def split: prod.splits)

lemma evaluate_definitions:
  assumes "EvaluateBatch mem_CommitRuntimeBatch now pid os e m = Some (res, e', m')"
  shows "m_definitions m' = m_definitions m \<and> m_byHash m' = m_byHash m"
  using assms
  by (auto simp: EvaluateBatch_def Let_def dest: commit_definitions split: if_splits option.splits prod.splits sum.splits)

section \<open>Every operation keeps the service well-formed\<close>

lemmas repo_simps = memory_repository_def

lemma upsert_wf:
  assumes "memory_wf (sv_repo s)" and "engine_wf (sv_runtime s)" and "definition_wf d"
  shows "fst (upsert_runtime d s) = None \<and> service_wf (snd (upsert_runtime d s))"
  using engine_wf_Upsert [OF assms(2,3)] assms(1)
  by (auto simp: upsert_runtime_def service_wf_def split: prod.splits)

lemma Create_wf:
  assumes "service_wf s"
  shows "service_wf (snd (Create memory_repository canonical now name request s))"
proof -
  let ?c = "request\<lparr>cn_EvaluationMode := default_mode ''confirmed_close'' (cn_EvaluationMode request),
                   cn_TriggerMode := default_mode ''on_occurrence'' (cn_TriggerMode request)\<rparr>"
  show ?thesis
  proof (cases "create_error name ?c")
    case (Some err)
    with assms show ?thesis by (simp add: Create_def Let_def)
  next
    case None
    let ?d = "new_definition canonical now (sv_activationDelay s) name ?c"
    obtain d created m where c: "mem_CreateDefinition ?d (sv_repo s) = ((d, created), m)" by (metis prod.exhaust)
    with memory_wf_Create [OF _ create_error_wf [OF None] c] assms have wf: "memory_wf m" "definition_wf d"
      by (auto simp: service_wf_def)
    with upsert_wf [of "s\<lparr>sv_repo := m\<rparr>" d] assms None c show ?thesis
      by (simp add: Create_def repo_simps service_wf_def Let_def split_beta)
  qed
qed

lemma SetEnabled_wf:
  assumes "service_wf s"
  shows "service_wf (snd (SetEnabled memory_repository now i b s))"
proof -
  obtain res m where r: "mem_SetEnabled now i b (time_add now (sv_activationDelay s)) (sv_repo s) = (res, m)" by fastforce
  with memory_wf_SetEnabled [OF _ r] assms have wf: "memory_wf m" "\<forall>d. res = Inr d \<longrightarrow> definition_wf d"
    by (auto simp: service_wf_def)
  show ?thesis
  proof (cases res)
    case (Inl err)
    with r wf assms show ?thesis by (simp add: SetEnabled_def repo_simps service_wf_def)
  next
    case (Inr d)
    with r wf assms upsert_wf [of "s\<lparr>sv_repo := m\<rparr>" d] show ?thesis
      by (simp add: SetEnabled_def repo_simps service_wf_def split_beta)
  qed
qed

lemma Refresh_wf:
  assumes "memory_wf (sv_repo s)" and "engine_wf (sv_runtime s)"
  shows "fst (RefreshDefinitions memory_repository now s) = None \<and> service_wf (snd (RefreshDefinitions memory_repository now s))"
  using engine_wf_Replace [OF assms(2), of "mem_ListDefinitions now (sv_repo s)" now] memory_wf_List [OF assms(1)] assms(1)
  by (auto simp: RefreshDefinitions_def repo_simps service_wf_def split: prod.splits)

lemma Delete_wf:
  assumes "service_wf s"
  shows "service_wf (snd (Delete memory_repository now i s))"
proof -
  obtain res m where r: "mem_ArchiveDefinition i (time_add now (sv_activationDelay s)) (sv_repo s) = (res, m)" by fastforce
  with memory_wf_Archive [OF _ r] assms have "memory_wf m" by (simp add: service_wf_def)
  with r assms Refresh_wf [of "s\<lparr>sv_repo := m\<rparr>" now] show ?thesis
    by (auto simp: Delete_def repo_simps service_wf_def split: option.splits)
qed

lemma IngestBatch_wf:
  assumes "service_wf s" and "IngestBatch memory_repository now elapsed pid os s = Some (res, s')"
  shows "service_wf s'"
proof (cases "DefinitionsFresh now (sv_definitionMaxStaleness s) (sv_runtime s) \<and> first_some validateObservation os = None")
  case False
  with assms show ?thesis by (auto simp: IngestBatch_def split: if_splits option.splits)
next
  case True
  with assms(2) obtain r e m where ev: "EvaluateBatch mem_CommitRuntimeBatch now pid os (sv_runtime s) (sv_repo s) = Some (r, e, m)"
    and s': "sv_runtime s' = e" "sv_repo s' = m"
    by (auto simp: IngestBatch_def repo_simps Let_def split: option.splits prod.splits sum.splits if_splits)
  from evaluate_definitions [OF ev] engine_wf_evaluate [OF _ ev] assms(1) s' show ?thesis
    by (auto simp: service_wf_def intro: memory_wf_frame)
qed

lemma Ingest_wf:
  "service_wf s \<Longrightarrow> Ingest memory_repository now elapsed obs s = Some (res, s') \<Longrightarrow> service_wf s'"
  by (auto simp: Ingest_def split: option.splits intro: IngestBatch_wf)

lemma publish_event_wf:
  "service_wf (fst sw) \<Longrightarrow> service_wf (fst (publish_event memory_repository publish sw a))"
  by (cases sw)
     (auto simp: publish_event_def repo_simps mem_MarkPublished_def mem_MarkPublishFailed_def service_wf_def Let_def
       split: prod.splits option.splits intro: memory_wf_frame)

lemma publish_events_wf:
  "service_wf (fst sw) \<Longrightarrow> service_wf (fst (foldl (publish_event memory_repository publish) sw as))"
  by (induction as arbitrary: sw) (simp_all add: publish_event_wf)

lemma drain_wf:
  "service_wf (fst sw) \<Longrightarrow> drain memory_repository publish n sw = Some sw' \<Longrightarrow> service_wf (fst sw')"
proof (induction n arbitrary: sw)
  case (Suc n)
  let ?sw2 = "foldl (publish_event memory_repository publish) sw (mem_ClaimPending 100 (sv_repo (fst sw)))"
  have "service_wf (fst ?sw2)" by (rule publish_events_wf [OF Suc.prems(1)])
  with Suc show ?case by (auto simp: repo_simps Let_def split: if_splits)
qed simp

text \<open>The service under any sequence of client calls, refreshes and publisher runs.\<close>

inductive service_reachable :: "'p publisher \<Rightarrow> memory service \<Rightarrow> bool" for publish :: "'p publisher" where
  start: "service_reachable publish (NewWithOptions NewMemory options)"
| create: "service_reachable publish s \<Longrightarrow> service_reachable publish (snd (Create memory_repository canonical now name request s))"
| set_enabled: "service_reachable publish s \<Longrightarrow> service_reachable publish (snd (SetEnabled memory_repository now i b s))"
| delete: "service_reachable publish s \<Longrightarrow> service_reachable publish (snd (Delete memory_repository now i s))"
| refresh: "service_reachable publish s \<Longrightarrow> service_reachable publish (snd (RefreshDefinitions memory_repository now s))"
| ingest: "service_reachable publish s \<Longrightarrow> Ingest memory_repository now elapsed obs s = Some (res, s') \<Longrightarrow> service_reachable publish s'"
| ingest_batch: "service_reachable publish s \<Longrightarrow> IngestBatch memory_repository now elapsed pid os s = Some (res, s') \<Longrightarrow> service_reachable publish s'"
| publish: "service_reachable publish s \<Longrightarrow> drain memory_repository publish n (s, w) = Some (s', w') \<Longrightarrow> service_reachable publish s'"

lemma service_wf_new: "service_wf (NewWithOptions NewMemory options)"
  by (simp add: service_wf_def NewWithOptions_def memory_wf_def NewMemory_def engine_wf_def routes_ok_def NewWithOwnership_def
      get_route_def Let_def)

lemma service_reachable_wf: "service_reachable publish s \<Longrightarrow> service_wf s"
proof (induction rule: service_reachable.induct)
  case (refresh s now)
  then show ?case using Refresh_wf by (simp add: service_wf_def)
next
  case (publish s n w s' w')
  then show ?case using drain_wf by fastforce
qed (auto intro: service_wf_new Create_wf SetEnabled_wf Delete_wf Ingest_wf IngestBatch_wf)


definition sample_options :: service_options where
  "sample_options = \<lparr>so_ActivationDelay = 3 * second, so_DefinitionMaxStaleness = 0, so_WorkerIndex = 0, so_WorkerCount = 1\<rparr>"

definition sample_request :: canonical where
  "sample_request = \<lparr>cn_Series = btc_1m, cn_Rule = color_rule ''red'', cn_EvaluationMode = '''', cn_TriggerMode = '''', cn_Cooldown = 0\<rparr>"


section \<open>Creating and switching\<close>

text \<open>
  Creation is idempotent in the canonical form: when a request has been accepted, repeating it, at any later
  time and under any other name, returns the definition of the first request, reports that nothing was
  created, and leaves the store as it is.
\<close>

theorem create_is_idempotent:
  assumes "Create memory_repository canonical now name request s = ((d, created, None), s1)"
    and "fresh_ids_ok (new_definition canonical now (sv_activationDelay s) name (request\<lparr>
           cn_EvaluationMode := default_mode ''confirmed_close'' (cn_EvaluationMode request),
           cn_TriggerMode := default_mode ''on_occurrence'' (cn_TriggerMode request)\<rparr>)) (sv_repo s)"
    and "name' \<noteq> ''''"
  shows "\<exists>err s2. Create memory_repository canonical now' name' request s1 = ((d, False, err), s2) \<and> sv_repo s2 = sv_repo s1"
proof -
  let ?c = "request\<lparr>cn_EvaluationMode := default_mode ''confirmed_close'' (cn_EvaluationMode request),
                   cn_TriggerMode := default_mode ''on_occurrence'' (cn_TriggerMode request)\<rparr>"
  let ?d = "new_definition canonical now (sv_activationDelay s) name ?c"
  let ?d' = "new_definition canonical now' (sv_activationDelay s1) name' ?c"
  from assms(1) have ok: "create_error name ?c = None" by (auto simp: Create_def Let_def split: option.splits)
  obtain d0 c0 m where m: "mem_CreateDefinition ?d (sv_repo s) = ((d0, c0), m)" by (metis prod.exhaust)
  with assms(1) ok have d0: "d0 = d" "sv_repo s1 = m"
    by (auto simp: Create_def repo_simps upsert_runtime_def Let_def split: prod.splits)
  have "dfn_DefinitionHash ?d' = dfn_DefinitionHash ?d" by (simp add: new_definition_def Let_def)
  with create_again [OF m assms(2)] d0 have again: "mem_CreateDefinition ?d' (sv_repo s1) = ((d, False), sv_repo s1)" by simp
  have "create_error name' ?c = None" using ok assms(3) by (auto simp: create_error_def split: if_splits)
  with again show ?thesis by (simp add: Create_def repo_simps upsert_runtime_def Let_def split_beta)
qed

theorem create_is_idempotent_witness:
  "\<exists>d s1 err s2. Create memory_repository (\<lambda>_. ''{}'') 3 ''red'' sample_request (NewWithOptions NewMemory sample_options) = ((d, True, None), s1)
     \<and> Create memory_repository (\<lambda>_. ''{}'') 9 ''other'' sample_request s1 = ((d, False, err), s2) \<and> sv_repo s2 = sv_repo s1"
proof -
  let ?s = "NewWithOptions NewMemory sample_options"
  let ?c = "sample_request\<lparr>cn_EvaluationMode := ''confirmed_close'', cn_TriggerMode := ''on_occurrence''\<rparr>"
  let ?d = "new_definition (\<lambda>_. ''{}'') 3 (sv_activationDelay ?s) ''red'' ?c"
  have valid: "Validate (color_rule ''red'') = None" using red_rule_compiles by (simp add: Compile_Inr_iff)
  have ri: "\<not> RequiresIntrabar (color_rule ''red'')" by (simp add: RequiresIntrabar.simps color_rule_def)
  have err: "create_error ''red'' ?c = None"
    using ri by (simp add: create_error_def sample_request_def btc_1m_def valid)
  have wf: "definition_wf ?d" by (rule create_error_wf [OF err])
  obtain m where m: "mem_CreateDefinition ?d (sv_repo ?s) = ((?d, True), m)"
    by (simp add: mem_CreateDefinition_def NewWithOptions_def NewMemory_def)
  have "engine_wf (sv_runtime ?s)" using service_wf_new [of sample_options] by (simp add: service_wf_def)
  from engine_wf_Upsert [OF this wf] obtain e where "UpsertDefinition ?d (sv_runtime ?s) = (None, e)" by (metis prod.collapse)
  with m err have c: "Create memory_repository (\<lambda>_. ''{}'') 3 ''red'' sample_request ?s = ((?d, True, None), ?s\<lparr>sv_repo := m, sv_runtime := e\<rparr>)"
    by (simp add: Create_def repo_simps upsert_runtime_def sample_request_def default_mode_def Let_def)
  have "fresh_ids_ok d' (sv_repo ?s)" for d' by (simp add: fresh_ids_ok_def NewWithOptions_def NewMemory_def is_archived_def get_or_def)
  from create_is_idempotent [OF c this, of "''other''" 9] c show ?thesis by auto
qed

lemma SetEnabled_switched:
  assumes "SetEnabled memory_repository now i b s = ((d', None), s')" and "map_of (m_definitions (sv_repo s)) i = Some d"
  shows "d' = d\<lparr>dfn_Enabled := b, dfn_UpdatedAt := now, dfn_EffectiveAt := now + sv_activationDelay s\<rparr>"
proof -
  from assms(1) obtain r where "mem_SetEnabled now i b (time_add now (sv_activationDelay s)) (sv_repo s) = (Inr d', r)"
    by (auto simp: SetEnabled_def upsert_runtime_def repo_simps split: prod.splits sum.splits)
  with assms(2) show ?thesis by (simp add: mem_SetEnabled_def time_add_def Let_def split: if_splits)
qed

text \<open>
  Enabling a disabled definition or disabling an enabled one takes effect at one event-time boundary: for every
  event after the previous boundary, the definition is as active as before the call when the event precedes
  \<open>now\<close> plus the activation delay, and as requested from then on.
\<close>

theorem switch_takes_effect_at_boundary:
  assumes "SetEnabled memory_repository now i b s = ((d', None), s')"
    and "map_of (m_definitions (sv_repo s)) i = Some d" and "dfn_Enabled d = (\<not> b)"
    and "effectiveAt d \<le> t" and "now + sv_activationDelay s \<noteq> 0"
  shows "definitionEnabledAt d' t = (if t < now + sv_activationDelay s then definitionEnabledAt d t else b)"
proof -
  have d': "d' = d\<lparr>dfn_Enabled := b, dfn_UpdatedAt := now, dfn_EffectiveAt := now + sv_activationDelay s\<rparr>"
    using SetEnabled_switched [OF assms(1,2)] .
  have "effectiveAt d' = now + sv_activationDelay s" using assms(5) by (simp add: d' effectiveAt_def is_zero_def)
  moreover have "dfn_Enabled d' = b" by (simp add: d')
  ultimately show ?thesis using assms(3,4) by (auto simp: definitionEnabledAt_def)
qed

text \<open>
  Asking for the state a definition already has is not idempotent: disabling a definition that is disabled, and
  has been inactive, makes it active again for every event before the new boundary.
\<close>

theorem disabling_twice_reactivates:
  assumes "SetEnabled memory_repository now i False s = ((d', None), s')"
    and "map_of (m_definitions (sv_repo s)) i = Some d" and "\<not> dfn_Enabled d"
    and "effectiveAt d \<le> t" and "t < now + sv_activationDelay s" and "now + sv_activationDelay s \<noteq> 0"
  shows "\<not> definitionEnabledAt d t \<and> definitionEnabledAt d' t"
proof -
  have d': "d' = d\<lparr>dfn_Enabled := False, dfn_UpdatedAt := now, dfn_EffectiveAt := now + sv_activationDelay s\<rparr>"
    using SetEnabled_switched [OF assms(1,2)] .
  have "effectiveAt d' = now + sv_activationDelay s" using assms(6) by (simp add: d' effectiveAt_def is_zero_def)
  moreover have "\<not> dfn_Enabled d'" by (simp add: d')
  ultimately show ?thesis using assms(3-5) by (simp add: definitionEnabledAt_def)
qed

definition service_with :: "alert_definition \<Rightarrow> memory service" where
  "service_with d = NewWithOptions (NewMemory\<lparr>m_definitions := [(dfn_ID d, d)]\<rparr>) sample_options"

lemma service_with_switch:
  assumes "Validate (dfn_Rule d) = None"
  shows "\<exists>s'. SetEnabled memory_repository now (dfn_ID d) b (service_with d) =
     ((d\<lparr>dfn_Enabled := b, dfn_UpdatedAt := now, dfn_EffectiveAt := now + 3 * second\<rparr>, None), s')"
  using assms
  by (simp add: SetEnabled_def repo_simps mem_SetEnabled_def service_with_def NewWithOptions_def NewMemory_def is_archived_def
      get_or_def upsert_runtime_def UpsertDefinition_def Compile_def sample_options_def time_add_def Let_def)

lemma service_with_simps [simp]:
  "map_of (m_definitions (sv_repo (service_with d))) (dfn_ID d) = Some d" "sv_activationDelay (service_with d) = 3 * second"
  by (simp_all add: service_with_def NewWithOptions_def NewMemory_def sample_options_def)

theorem switch_takes_effect_at_boundary_witness:
  "\<exists>d' s'. SetEnabled memory_repository second ''a'' False (service_with sample_definition) = ((d', None), s') \<and>
     definitionEnabledAt d' (2 * second) \<and> \<not> definitionEnabledAt d' (9 * second)"
proof -
  have i: "dfn_ID sample_definition = ''a''" by (simp add: sample_definitions)
  obtain d' s' where s': "SetEnabled memory_repository second ''a'' False (service_with sample_definition) = ((d', None), s')"
    using service_with_switch [of sample_definition second False] red_definition_valid i by (auto simp: sample_definition_def)
  have m: "map_of (m_definitions (sv_repo (service_with sample_definition))) ''a'' = Some sample_definition"
    using service_with_simps(1) [of sample_definition] i by simp
  have e: "effectiveAt sample_definition = 0" "dfn_Enabled sample_definition"
    by (simp_all add: sample_definitions effectiveAt_def)
  from switch_takes_effect_at_boundary [OF s' m, of "2 * second"] switch_takes_effect_at_boundary [OF s' m, of "9 * second"] e s'
  show ?thesis by (auto simp: definitionEnabledAt_def)
qed

theorem disabling_twice_reactivates_witness:
  "\<exists>d d' s'. SetEnabled memory_repository second (dfn_ID d) False (service_with d) = ((d', None), s') \<and>
     \<not> definitionEnabledAt d (2 * second) \<and> definitionEnabledAt d' (2 * second)"
proof -
  let ?d = "sample_definition\<lparr>dfn_Enabled := False\<rparr>"
  have "Validate (dfn_Rule ?d) = None" using red_definition_valid by (simp add: sample_definition_def)
  then obtain d' s' where s': "SetEnabled memory_repository second (dfn_ID ?d) False (service_with ?d) = ((d', None), s')"
    using service_with_switch [of ?d second False] by blast
  have "effectiveAt ?d = 0" by (simp add: sample_definitions effectiveAt_def)
  with disabling_twice_reactivates [OF s' service_with_simps(1), of "2 * second"]
  have "\<not> definitionEnabledAt ?d (2 * second) \<and> definitionEnabledAt d' (2 * second)" by simp
  with s' show ?thesis by blast
qed

section \<open>Ingestion fails closed\<close>

text \<open>
  Bad input changes nothing: when the compiled definitions are older than allowed, or any observation of the
  batch is malformed, \<open>IngestBatch\<close> returns the error and the whole service, counters included, is as before;
  in particular one malformed observation rejects all the others of its batch.
\<close>

theorem ingest_fails_closed:
  assumes "\<not> DefinitionsFresh now (sv_definitionMaxStaleness s) (sv_runtime s)
           \<or> (\<exists>obs \<in> set os. validateObservation obs \<noteq> None)"
  shows "\<exists>err. IngestBatch ops now elapsed pid os s = Some (Inl err, s)"
proof (cases "DefinitionsFresh now (sv_definitionMaxStaleness s) (sv_runtime s)")
  case True
  with assms have "first_some validateObservation os \<noteq> None" by (auto simp: first_some_None_iff)
  with True show ?thesis by (auto simp: IngestBatch_def)
qed (simp add: IngestBatch_def)

theorem ingest_fails_closed_witness:
  "\<exists>err. IngestBatch memory_repository 7 1 0 [zero_observation] (NewWithOptions NewMemory sample_options) =
     Some (Inl err, NewWithOptions NewMemory sample_options)"
  by (rule ingest_fails_closed) (simp add: validateObservation_def zero_observation_def)

end
