(* ===== verification/Outbox.thy ===== *)
theory Outbox
  imports Service_Laws
begin

text \<open>
  The publisher of \<open>internal/service/service.go\<close> over the memory store: with a publisher that succeeds
  the outbox is drained, each pending alert published once and in log order; with one that
  always fails a full page keeps the inner loop going for ever.
\<close>

definition is_pending :: "alert \<Rightarrow> bool" where
  "is_pending a \<longleftrightarrow> alr_PublishStatus a = ''pending''"

definition pending :: "memory \<Rightarrow> alert list" where
  "pending m = filter is_pending (m_alerts m)"

lemma claim_pending: "mem_ClaimPending 100 m = take 100 (pending m)"
  by (simp add: mem_ClaimPending_def take_matching_empty pending_def is_pending_def [abs_def])

definition publish_ids :: "string set \<Rightarrow> alert list \<Rightarrow> alert list" where
  "publish_ids ids as = map (\<lambda>a. if alr_ID a \<in> ids then a\<lparr>alr_PublishStatus := ''published''\<rparr> else a) as"

lemma publish_ids_empty [simp]: "publish_ids {} as = as"
  by (simp add: publish_ids_def)

lemma publish_ids_compose: "publish_ids A (publish_ids B as) = publish_ids (A \<union> B) as"
  by (auto simp: publish_ids_def)

lemma alert_ids_publish [simp]: "alert_ids (publish_ids ids as) = alert_ids as"
  by (simp add: alert_ids_def publish_ids_def)

lemma publish_ids_other: "alr_ID ` set as \<inter> ids = {} \<Longrightarrow> publish_ids ids as = as"
  unfolding publish_ids_def by (intro map_idI) auto

lemma mark_published_map:
  "distinct (alert_ids as) \<Longrightarrow> i \<in> set (alert_ids as) \<Longrightarrow> mark_published i as = Some (publish_ids {i} as)"
proof (induction as)
  case (Cons a as)
  show ?case
  proof (cases "alr_ID a = i")
    case True
    with Cons.prems(1) have "publish_ids {i} as = as" by (intro publish_ids_other) (auto simp: alert_ids_def)
    with True show ?thesis by (simp add: publish_ids_def)
  next
    case False
    with Cons show ?thesis by (auto simp: alert_ids_def publish_ids_def)
  qed
qed (simp add: alert_ids_def)

section \<open>A publisher that succeeds\<close>

text \<open>The world of the publisher is the list of the alerts it was given.\<close>

definition recording :: "alert list publisher" where
  "recording a w = (None, w @ [a])"

lemma publish_event_recording:
  assumes "distinct (alert_ids (m_alerts (sv_repo s)))" and "alr_ID a \<in> set (alert_ids (m_alerts (sv_repo s)))"
  shows "publish_event memory_repository recording (s, w) a =
     (s\<lparr>sv_repo := (sv_repo s)\<lparr>m_alerts := publish_ids {alr_ID a} (m_alerts (sv_repo s))\<rparr>,
        sv_metrics := (sv_metrics s)\<lparr>sm_Published := sm_Published (sv_metrics s) + 1\<rparr>\<rparr>, w @ [a])"
  using mark_published_map [OF assms]
  by (simp add: publish_event_def recording_def repo_simps mem_MarkPublished_def Let_def)

definition published :: "alert list \<Rightarrow> memory service \<Rightarrow> memory service" where
  "published as s =
     s\<lparr>sv_repo := (sv_repo s)\<lparr>m_alerts := publish_ids (alr_ID ` set as) (m_alerts (sv_repo s))\<rparr>,
       sv_metrics := (sv_metrics s)\<lparr>sm_Published := sm_Published (sv_metrics s) + word_of_nat (length as)\<rparr>\<rparr>"

lemma publish_events_recording:
  "distinct (alert_ids (m_alerts (sv_repo s))) \<Longrightarrow> alr_ID ` set as \<subseteq> set (alert_ids (m_alerts (sv_repo s))) \<Longrightarrow>
   foldl (publish_event memory_repository recording) (s, w) as = (published as s, w @ as)"
proof (induction as arbitrary: s w)
  case Nil
  then show ?case by (simp add: published_def)
next
  case (Cons a as)
  let ?s1 = "published [a] s"
  have "publish_event memory_repository recording (s, w) a = (?s1, w @ [a])"
    using Cons.prems by (subst publish_event_recording) (auto simp: published_def)
  moreover have "foldl (publish_event memory_repository recording) (?s1, w @ [a]) as = (published as ?s1, (w @ [a]) @ as)"
    by (rule Cons.IH) (use Cons.prems in \<open>auto simp: published_def\<close>)
  moreover have "published as ?s1 = published (a # as) s"
    by (simp add: published_def publish_ids_compose insert_commute add.commute add.left_commute)
  ultimately show ?case by simp
qed

lemma published_published: "published qs (published ps s) = published (ps @ qs) s"
  by (simp add: published_def publish_ids_compose image_Un Un_commute add.assoc)

lemma pending_split:
  assumes "distinct (alert_ids as)" and "filter is_pending as = ps @ qs"
  shows "filter is_pending (publish_ids (alr_ID ` set ps) as) = qs"
proof -
  have d: "distinct (map alr_ID (filter is_pending as))"
    using assms(1) by (simp add: alert_ids_def distinct_map_filter)
  have "filter is_pending (publish_ids ids as) = filter (\<lambda>a. alr_ID a \<notin> ids) (filter is_pending as)" for ids
    by (induction as) (auto simp: publish_ids_def is_pending_def)
  then have "filter is_pending (publish_ids (alr_ID ` set ps) as) = filter (\<lambda>a. alr_ID a \<notin> alr_ID ` set ps) (ps @ qs)"
    by (simp only: assms(2))
  moreover have "filter (\<lambda>a. alr_ID a \<notin> alr_ID ` set ps) qs = qs"
    using d unfolding assms(2) by (intro filter_True) force
  ultimately show ?thesis by (simp add: filter_empty_conv)
qed

lemma drain_recording:
  assumes "length (pending (sv_repo s)) < 100 * n" and "distinct (alert_ids (m_alerts (sv_repo s)))"
  shows "drain memory_repository recording n (s, w) = Some (published (pending (sv_repo s)) s, w @ pending (sv_repo s))"
  using assms
proof (induction n arbitrary: s w)
  case 0
  then show ?case by simp
next
  case (Suc n)
  let ?ps = "take 100 (pending (sv_repo s))" and ?qs = "drop 100 (pending (sv_repo s))"
  have ids: "alr_ID ` set ?ps \<subseteq> set (alert_ids (m_alerts (sv_repo s)))"
    using set_take_subset [of 100 "pending (sv_repo s)"] by (auto simp: pending_def alert_ids_def)
  have step: "foldl (publish_event memory_repository recording) (s, w) ?ps = (published ?ps s, w @ ?ps)"
    by (rule publish_events_recording [OF Suc.prems(2) ids])
  have rest: "pending (sv_repo (published ?ps s)) = ?qs"
    using pending_split [OF Suc.prems(2), of ?ps ?qs] by (simp add: pending_def published_def)
  show ?case
  proof (cases "pending (sv_repo s) = []")
    case True
    then show ?thesis by (simp add: repo_simps claim_pending published_def)
  next
    case False
    show ?thesis
    proof (cases "length ?ps < 100")
      case True
      then have "?ps = pending (sv_repo s)" by simp
      with False True step show ?thesis by (simp add: repo_simps claim_pending Let_def)
    next
      case full: False
      have "drain memory_repository recording n (published ?ps s, w @ ?ps) =
          Some (published ?qs (published ?ps s), (w @ ?ps) @ ?qs)"
      proof -
        have "length (pending (sv_repo (published ?ps s))) < 100 * n" unfolding rest using Suc.prems(1) full by simp
        moreover have "distinct (alert_ids (m_alerts (sv_repo (published ?ps s))))"
          using Suc.prems(2) by (simp add: published_def)
        ultimately show ?thesis using Suc.IH [of "published ?ps s" "w @ ?ps"] unfolding rest by simp
      qed
      moreover have "published ?qs (published ?ps s) = published (pending (sv_repo s)) s"
        by (simp only: published_published append_take_drop_id)
      ultimately show ?thesis using False full step
        by (simp add: repo_simps claim_pending Let_def)
    qed
  qed
qed

text \<open>
  C21. The outbox is drained: with a publisher that succeeds and enough fuel for the pending pages, the inner loop
  returns, has published exactly the pending alerts, each once and in the order of the log, leaves none pending,
  counts them, and changes neither identities nor cursors.
\<close>

theorem outbox_drains:
  assumes "log_ok (sv_repo s)" and "length (pending (sv_repo s)) < 100 * n"
  shows "\<exists>s'. drain memory_repository recording n (s, w) = Some (s', w @ pending (sv_repo s)) \<and>
           pending (sv_repo s') = [] \<and>
           sm_Published (sv_metrics s') = sm_Published (sv_metrics s) + word_of_nat (length (pending (sv_repo s))) \<and>
           alert_ids (m_alerts (sv_repo s')) = alert_ids (m_alerts (sv_repo s)) \<and> log_ok (sv_repo s')"
proof -
  from assms(1) have d: "distinct (alert_ids (m_alerts (sv_repo s)))" by (simp add: log_ok_def)
  let ?s' = "published (pending (sv_repo s)) s"
  have "pending (sv_repo ?s') = []"
    using pending_split [OF d, of "pending (sv_repo s)" "[]"] by (simp add: pending_def published_def)
  moreover have "map alr_Cursor (publish_ids ids as) = map alr_Cursor as \<and> length (publish_ids ids as) = length as" for ids as
    by (simp add: publish_ids_def)
  then have "log_ok (sv_repo ?s')" using assms(1) by (simp add: log_ok_def cursors_ok_def published_def)
  ultimately show ?thesis using drain_recording [OF assms(2) d, of w] by (simp add: published_def)
qed

definition pending_service :: "nat \<Rightarrow> memory service" where
  "pending_service n = NewWithOptions (NewMemory\<lparr>m_alerts :=
     map (\<lambda>i. sample_alert\<lparr>alr_ID := replicate i CHR ''x'', alr_Cursor := int i + 1\<rparr>) [0..<n]\<rparr>) sample_options"

lemma pending_service_alerts:
  "m_alerts (sv_repo (pending_service n)) =
     map (\<lambda>i. sample_alert\<lparr>alr_ID := replicate i CHR ''x'', alr_Cursor := int i + 1\<rparr>) [0..<n]"
  by (simp add: pending_service_def NewWithOptions_def)

lemma pending_service_log: "log_ok (sv_repo (pending_service n))"
  by (simp add: log_ok_def pending_service_alerts cursors_ok_def alert_ids_def distinct_map inj_on_def comp_def)

lemma pending_service_pending: "pending (sv_repo (pending_service n)) = m_alerts (sv_repo (pending_service n))"
  by (auto simp: pending_def pending_service_alerts is_pending_def sample_alert_def legacy_alert_def intro!: filter_True)

theorem outbox_drains_witness:
  "\<exists>s' w'. drain memory_repository recording 3 (pending_service 250, []) = Some (s', w') \<and> length w' = 250"
proof -
  have "length (pending (sv_repo (pending_service 250))) = 250" by (simp add: pending_service_pending pending_service_alerts)
  with outbox_drains [OF pending_service_log, of 250 3 "[]"] show ?thesis by auto
qed

section \<open>A publisher that fails\<close>

definition failing :: "'p publisher" where
  "failing a w = (Some ''down'', w)"

lemma publish_events_failing:
  "sv_repo (fst (foldl (publish_event memory_repository failing) (s, w) as)) = sv_repo s"
proof (induction as arbitrary: s w)
  case (Cons a as)
  obtain s1 w1 where "publish_event memory_repository failing (s, w) a = (s1, w1)" by fastforce
  moreover from this have "sv_repo s1 = sv_repo s"
    by (auto simp: publish_event_def failing_def repo_simps mem_MarkPublishFailed_def Let_def)
  ultimately show ?case using Cons [of s1 w1] by simp
qed simp

text \<open>
  C22. A failing publisher and a full page never leave the inner loop: the memory store does not postpone an alert
  whose publication failed, so with a hundred alerts pending the loop claims the same page again for any amount
  of fuel, without looking at its context.
\<close>

theorem failing_publisher_spins:
  assumes "100 \<le> length (pending (sv_repo s))"
  shows "drain memory_repository failing n (s, w) = None"
  using assms
proof (induction n arbitrary: s w)
  case (Suc n)
  let ?ps = "take 100 (pending (sv_repo s))"
  obtain s1 w1 where f: "foldl (publish_event memory_repository failing) (s, w) ?ps = (s1, w1)" by fastforce
  with publish_events_failing [of s w ?ps] have "sv_repo s1 = sv_repo s" by simp
  with Suc f show ?case by (auto simp: repo_simps claim_pending Let_def)
qed simp

theorem failing_publisher_spins_witness:
  "drain memory_repository failing 1000 (pending_service 100, ()) = None"
  using failing_publisher_spins [of "pending_service 100"] by (simp add: pending_service_pending pending_service_alerts)

end
