(* ===== verification/Postgres_Log.thy ===== *)
theory Postgres_Log
  imports Postgres_Laws Outbox
begin

text \<open>
  The event log and the outbox of the PostgreSQL repository: keys and references are kept, a batch that is committed
  again changes nothing, retention spares what is not published, and the publisher's loop ends.
\<close>

section \<open>Keys and references\<close>

definition event_ids :: "pg \<Rightarrow> string set" where
  "event_ids s = pe_id ` set (pg_events s)"

definition outbox_ids :: "pg \<Rightarrow> string set" where
  "outbox_ids s = po_alert_id ` set (pg_outbox s)"

definition row_key :: "pg_event_row \<Rightarrow> string \<times> string" where
  "row_key e = (pe_definition_id e, pe_source_event_id e)"

definition keys_sound :: "pg \<Rightarrow> bool" where
  "keys_sound s \<longleftrightarrow>
     distinct (map row_key (pg_events s)) \<and> distinct (map pe_id (pg_events s)) \<and> distinct (map pe_cursor (pg_events s)) \<and>
     (\<forall>e \<in> set (pg_events s). pe_cursor e \<le> pg_event_seq s) \<and>
     distinct (map po_alert_id (pg_outbox s)) \<and> distinct (map po_cursor (pg_outbox s)) \<and>
     (\<forall>r \<in> set (pg_outbox s). po_cursor r \<le> pg_outbox_seq s) \<and>
     (\<forall>e \<in> set (pg_events s). \<exists>i \<in> set (pg_inbox s). pi_source_event_id i = pe_source_event_id e)"

text \<open>Every event has its row in the outbox and every row of the outbox its event.\<close>

definition log_sound :: "pg \<Rightarrow> bool" where
  "log_sound s \<longleftrightarrow> keys_sound s \<and> outbox_ids s = event_ids s"

lemma keys_sound_frame:
  "keys_sound s \<Longrightarrow> pg_events s' = pg_events s \<Longrightarrow> pg_outbox s' = pg_outbox s \<Longrightarrow> pg_event_seq s' = pg_event_seq s \<Longrightarrow>
   pg_outbox_seq s' = pg_outbox_seq s \<Longrightarrow> set (pg_inbox s) \<subseteq> set (pg_inbox s') \<Longrightarrow> keys_sound s'"
  unfolding keys_sound_def by (metis subsetD)

lemma find_None: "find p xs = None \<longleftrightarrow> (\<forall>x \<in> set xs. \<not> p x)"
  by (induction xs) auto

lemma insert_event_cases:
  assumes "insert_event a s = Inr ((i, c), s')"
  obtains (known) r where "find (same_event (alr_DefinitionID a) (alr_SourceEventID a)) (pg_events s) = Some r" "i = pe_id r"
      "c = pe_cursor r" "s' = s\<lparr>pg_event_seq := pg_event_seq s + 1\<rparr>"
  | (fresh) e where "\<forall>r \<in> set (pg_events s). row_key r \<noteq> row_key e \<and> pe_id r \<noteq> alr_ID a" "row_key e = event_key a"
      "pe_id e = alr_ID a" "pe_cursor e = pg_event_seq s + 1" "i = alr_ID a" "c = pg_event_seq s + 1"
      "\<exists>r \<in> set (pg_inbox s). pi_source_event_id r = pe_source_event_id e"
      "s' = s\<lparr>pg_event_seq := pg_event_seq s + 1, pg_events := pg_events s @ [e]\<rparr>"
proof (cases "find (same_event (alr_DefinitionID a) (alr_SourceEventID a)) (pg_events s)")
  case (Some r)
  with assms show ?thesis by (intro known) (auto simp: insert_event_def pg_fail_def Let_def split: if_splits)
next
  case None
  let ?e = "\<lparr>pe_id = alr_ID a, pe_cursor = pg_event_seq s + 1, pe_definition_id = alr_DefinitionID a,
    pe_source_event_id = alr_SourceEventID a, pe_series_key = series_Key (alr_Series a), pe_triggered_at = pg_time (alr_TriggeredAt a)\<rparr>"
  from None have k: "\<forall>r \<in> set (pg_events s). row_key r \<noteq> row_key ?e"
    by (auto simp: find_None same_event_def row_key_def)
  show ?thesis
    using assms None k by (intro fresh [of ?e])
      (auto simp: insert_event_def pg_fail_def Let_def row_key_def event_key_def list_ex_iff split: if_splits)
qed

lemma insert_event_keys:
  assumes "insert_event a s = Inr ((i, c), s')" and "keys_sound s"
  shows "keys_sound s' \<and> event_ids s \<subseteq> event_ids s' \<and> event_ids s' \<subseteq> insert (alr_ID a) (event_ids s)"
  using assms(1)
proof (cases rule: insert_event_cases)
  case (known r)
  with assms(2) show ?thesis by (auto simp: keys_sound_def event_ids_def)
next
  case (fresh e)
  from assms(2) have "\<forall>r \<in> set (pg_events s). pe_cursor r \<noteq> pg_event_seq s + 1" by (auto simp: keys_sound_def)
  with fresh assms(2) show ?thesis by (auto simp: keys_sound_def event_ids_def)
qed

lemma insert_events_keys:
  assumes "insert_events as s = Inr (cs, s')" and "keys_sound s"
  shows "keys_sound s' \<and> event_ids s \<subseteq> event_ids s' \<and> event_ids s' \<subseteq> event_ids s \<union> alr_ID ` set as"
  using assms
proof (induction as arbitrary: s cs)
  case (Cons a as)
  then obtain i c s1 cs1 where 1: "insert_event a s = Inr ((i, c), s1)" and 2: "insert_events as s1 = Inr (cs1, s')"
    by (auto simp: pg_then_Inr)
  from insert_event_keys [OF 1 Cons.prems(2)] Cons.IH [OF 2] show ?case by auto
qed simp

lemma insert_outbox_keys:
  assumes "insert_outbox now a s = Inr (u, s')" and "keys_sound s"
  shows "keys_sound s' \<and> outbox_ids s' = insert (alr_ID a) (outbox_ids s) \<and> event_ids s' = event_ids s \<and>
    (alr_ID a \<in> outbox_ids s \<or> alr_ID a \<in> event_ids s)"
proof (cases "alr_ID a \<in> outbox_ids s")
  case True
  then have "list_ex (\<lambda>r. po_alert_id r = alr_ID a) (pg_outbox s)" by (auto simp: outbox_ids_def list_ex_iff)
  with assms(1) have s': "s' = s\<lparr>pg_outbox_seq := pg_outbox_seq s + 1\<rparr>"
    by (simp add: insert_outbox_def Let_def)
  from assms(2) have "\<forall>r \<in> set (pg_outbox s). po_cursor r \<le> pg_outbox_seq s + 1" by (fastforce simp: keys_sound_def)
  with True assms(2) show ?thesis by (auto simp: s' keys_sound_def outbox_ids_def event_ids_def)
next
  case False
  then have new: "\<not> list_ex (\<lambda>r. po_alert_id r = alr_ID a) (pg_outbox s)" by (force simp: outbox_ids_def list_ex_iff)
  with assms(1) have known: "list_ex (\<lambda>r. pe_id r = alr_ID a) (pg_events s)"
    by (simp add: insert_outbox_def pg_fail_def Let_def split: if_splits)
  then have "alr_ID a \<in> event_ids s" by (force simp: event_ids_def list_ex_iff)
  from assms(1) new known have "\<exists>r. po_alert_id r = alr_ID a \<and> po_cursor r = pg_outbox_seq s + 1 \<and>
      s' = s\<lparr>pg_outbox_seq := pg_outbox_seq s + 1, pg_outbox := pg_outbox s @ [r]\<rparr>"
    by (intro exI [of _ "last (pg_outbox s')"]) (auto simp: insert_outbox_def Let_def)
  then obtain r where r: "po_alert_id r = alr_ID a" "po_cursor r = pg_outbox_seq s + 1"
    "s' = s\<lparr>pg_outbox_seq := pg_outbox_seq s + 1, pg_outbox := pg_outbox s @ [r]\<rparr>" by blast
  from assms(2) have "\<forall>r \<in> set (pg_outbox s). po_cursor r \<noteq> pg_outbox_seq s + 1 \<and> po_cursor r \<le> pg_outbox_seq s + 1"
    by (fastforce simp: keys_sound_def)
  with False assms(2) \<open>alr_ID a \<in> event_ids s\<close> show ?thesis
    by (auto simp: r keys_sound_def outbox_ids_def event_ids_def)
qed

lemma insert_outboxes_keys:
  assumes "insert_outboxes now as s = Inr (u, s')" and "keys_sound s"
  shows "keys_sound s' \<and> outbox_ids s' = outbox_ids s \<union> alr_ID ` set as \<and> event_ids s' = event_ids s \<and>
    alr_ID ` set as \<subseteq> outbox_ids s \<union> event_ids s"
  using assms
proof (induction as arbitrary: s)
  case (Cons a as)
  then obtain s1 where 1: "insert_outbox now a s = Inr ((), s1)" and 2: "insert_outboxes now as s1 = Inr (u, s')"
    by (auto simp: pg_then_Inr)
  from insert_outbox_keys [OF 1 Cons.prems(2)] Cons.IH [OF 2] show ?case by auto
qed simp

lemma map_alr_ID_created: "alr_ID ` set (map (\<lambda>a. a\<lparr>alr_Cursor := f a\<rparr>) as) = alr_ID ` set as"
  by (auto simp: image_iff)

lemma commit_alerts_sound:
  assumes "commit_alerts drv now b s = Inr (created, s')" and "log_sound s"
  shows "log_sound s'"
  using assms(1)
proof (cases rule: commit_alerts_steps)
  case 1
  with assms(2) show ?thesis by simp
next
  case (2 cursors s1)
  from insert_events_keys [OF 2(2)] assms(2) have s1: "keys_sound s1" "event_ids s \<subseteq> event_ids s1"
    "event_ids s1 \<subseteq> event_ids s \<union> alr_ID ` set (rb_Alerts b)" by (auto simp: log_sound_def)
  have "outbox_ids s1 = outbox_ids s" using insert_events_frame [OF 2(2)] by (simp add: outbox_ids_def)
  moreover have "alr_ID ` set created = alr_ID ` set (rb_Alerts b)" by (simp only: 2(3) map_alr_ID_created)
  ultimately have "keys_sound s'" and o: "outbox_ids s' = outbox_ids s \<union> alr_ID ` set (rb_Alerts b)"
    and e: "event_ids s' = event_ids s1" and "alr_ID ` set (rb_Alerts b) \<subseteq> outbox_ids s \<union> event_ids s1"
    using insert_outboxes_keys [OF 2(4) s1(1)] by simp_all
  moreover have "outbox_ids s = event_ids s" using assms(2) by (simp add: log_sound_def)
  ultimately show ?thesis using s1(2,3) by (auto simp: log_sound_def)
qed

lemma insert_inboxes_seq: "pg_outbox_seq (foldl (insert_inbox now) s os) = pg_outbox_seq s"
  and insert_inboxes_grows: "set (pg_inbox s) \<subseteq> set (pg_inbox (foldl (insert_inbox now) s os))"
proof (induction os arbitrary: s)
  case (Cons obs os)
  {
    case 1
    show ?case using Cons.IH(1) [of "insert_inbox now s obs"] by (simp add: insert_inbox_def)
  next
    case 2
    show ?case using Cons.IH(2) [of "insert_inbox now s obs"] by (auto simp: insert_inbox_def split: if_splits)
  }
qed simp_all

lemma commit_tx_sound:
  assumes "commit_tx drv now b s = Inr (created, s')" and "log_sound s"
  shows "log_sound s'"
proof -
  from commit_tx_steps [OF assms(1)] obtain s1 s2 s3 s4 where steps:
    "commit_inbox drv now b s = Inr ((), s1)" "commit_series drv b s1 = Inr ((), s2)"
    "commit_resets drv b s2 = Inr ((), s3)" "commit_definitions drv b s3 = Inr ((), s4)"
    "commit_alerts drv now b s4 = Inr (created, s')" .
  note s1 = commit_inbox_frame [OF steps(1)]
  have "keys_sound s4"
    by (rule keys_sound_frame [of s])
      (use assms(2) in \<open>simp_all add: log_sound_def s1 commit_series_effect [OF steps(2)] commit_resets_effect [OF steps(3)]
        commit_definitions_effect(1) [OF steps(4)] insert_inboxes_frame insert_inboxes_seq insert_inboxes_grows\<close>)
  moreover have "outbox_ids s4 = event_ids s4"
    using assms(2) by (simp add: log_sound_def outbox_ids_def event_ids_def s1 commit_series_effect [OF steps(2)]
        commit_resets_effect [OF steps(3)] commit_definitions_effect(1) [OF steps(4)] insert_inboxes_frame)
  ultimately show ?thesis using commit_alerts_sound [OF steps(5)] by (simp add: log_sound_def)
qed

section \<open>Committing again\<close>

lemma find_append: "find p xs = Some x \<Longrightarrow> find p (xs @ ys) = Some x"
  by (induction xs) auto

lemma find_snoc: "find p xs = None \<Longrightarrow> p x \<Longrightarrow> find p (xs @ [x]) = Some x"
  by (induction xs) (auto split: if_splits)

lemma insert_event_columns:
  "insert_event a s = Inr x \<Longrightarrow>
     \<not> (alr_Observation a = None \<or> \<not> int4_ok (alr_DefinitionVersion a) \<or> uint (alr_SourceRevision a) \<ge> 2 ^ 63)"
  by (auto simp: insert_event_def pg_fail_def Let_def split: if_splits)

lemma insert_event_again:
  assumes "insert_event a s = Inr ((i, c), s')" and "pg_events t = pg_events s' @ ys"
  shows "insert_event a t = Inr ((i, c), t\<lparr>pg_event_seq := pg_event_seq t + 1\<rparr>)"
proof -
  have "\<exists>r. find (same_event (alr_DefinitionID a) (alr_SourceEventID a)) (pg_events s') = Some r \<and> pe_id r = i \<and> pe_cursor r = c"
    using assms(1)
  proof (cases rule: insert_event_cases)
    case (known r)
    then show ?thesis by simp
  next
    case (fresh e)
    then have "find (same_event (alr_DefinitionID a) (alr_SourceEventID a)) (pg_events s) = None"
      by (auto simp: find_None same_event_def row_key_def event_key_def)
    then have "find (same_event (alr_DefinitionID a) (alr_SourceEventID a)) (pg_events s @ [e]) = Some e"
      using fresh(2) by (intro find_snoc) (auto simp: same_event_def row_key_def event_key_def)
    with fresh show ?thesis by simp
  qed
  then obtain r where "find (same_event (alr_DefinitionID a) (alr_SourceEventID a)) (pg_events t) = Some r" "pe_id r = i" "pe_cursor r = c"
    using assms(2) find_append by metis
  with insert_event_columns [OF assms(1)] show ?thesis by (auto simp: insert_event_def Let_def)
qed

lemma insert_event_extends:
  assumes "insert_event a s = Inr ((i, c), s')"
  shows "\<exists>ys. pg_events s' = pg_events s @ ys"
  using assms by (cases rule: insert_event_cases) auto

lemma insert_events_extends: "insert_events as s = Inr (cs, s') \<Longrightarrow> \<exists>ys. pg_events s' = pg_events s @ ys"
proof (induction as arbitrary: s cs)
  case (Cons a as)
  then obtain i c s1 cs1 where 1: "insert_event a s = Inr ((i, c), s1)" and 2: "insert_events as s1 = Inr (cs1, s')"
    by (auto simp: pg_then_Inr)
  from insert_event_extends [OF 1] Cons.IH [OF 2] show ?case by force
qed simp

lemma insert_events_again:
  assumes "insert_events as s = Inr (cs, s')" and "pg_events t = pg_events s' @ ys"
  shows "insert_events as t = Inr (cs, t\<lparr>pg_event_seq := pg_event_seq t + int (length as)\<rparr>)"
  using assms
proof (induction as arbitrary: s cs t)
  case (Cons a as)
  then obtain i c s1 cs1 where 1: "insert_event a s = Inr ((i, c), s1)" and 2: "insert_events as s1 = Inr (cs1, s')"
    and cs: "cs = Map.empty(i \<mapsto> c) ++ cs1"
    by (auto simp: pg_then_Inr)
  from insert_events_extends [OF 2] obtain zs where "pg_events s' = pg_events s1 @ zs" ..
  with Cons.prems(2) have "pg_events t = pg_events s1 @ (zs @ ys)" by simp
  note a = insert_event_again [OF 1 this]
  let ?t = "t\<lparr>pg_event_seq := pg_event_seq t + 1\<rparr>"
  from Cons.IH [OF 2, of ?t] Cons.prems(2) a show ?case by (simp add: cs algebra_simps)
qed simp

lemma insert_outboxes_again:
  "alr_ID ` set as \<subseteq> outbox_ids t \<Longrightarrow>
     insert_outboxes now as t = Inr ((), t\<lparr>pg_outbox_seq := pg_outbox_seq t + int (length as)\<rparr>)"
proof (induction as arbitrary: t)
  case (Cons a as)
  let ?t = "t\<lparr>pg_outbox_seq := pg_outbox_seq t + 1\<rparr>"
  from Cons.prems have "list_ex (\<lambda>r. po_alert_id r = alr_ID a) (pg_outbox t)" by (auto simp: outbox_ids_def list_ex_iff)
  then have "insert_outbox now a t = Inr ((), ?t)" by (simp add: insert_outbox_def Let_def)
  moreover have "alr_ID ` set as \<subseteq> outbox_ids ?t" using Cons.prems by (simp add: outbox_ids_def)
  ultimately show ?case using Cons.IH [of ?t] by (simp add: algebra_simps)
qed simp

lemma insert_inboxes_again:
  assumes "obs_SourceEventID ` set os \<subseteq> pi_source_event_id ` set (pg_inbox t)"
  shows "foldl (insert_inbox now) t os = t"
  using assms by (induction os) (auto simp: insert_inbox_def list_ex_iff)

lemma insert_inboxes_present:
  "obs_SourceEventID ` set os \<subseteq> pi_source_event_id ` set (pg_inbox (foldl (insert_inbox now) s os))"
proof (induction os arbitrary: s)
  case (Cons obs os)
  let ?s = "insert_inbox now s obs"
  have "obs_SourceEventID obs \<in> pi_source_event_id ` set (pg_inbox ?s)" by (auto simp: insert_inbox_def list_ex_iff intro: rev_image_eqI)
  with insert_inboxes_grows [of ?s now os] Cons.IH [of ?s] show ?case by auto
qed simp

text \<open>The database up to the numbers its sequences have handed out.\<close>

definition content :: "pg \<Rightarrow> pg" where
  "content s = s\<lparr>pg_event_seq := 0, pg_outbox_seq := 0\<rparr>"

lemma commit_alerts_again:
  assumes "commit_alerts drv now b s = Inr (created, s')" and "keys_sound s" and "commit_alerts drv' now' b t = Inr (created', t')"
    and "pg_events t = pg_events s'" and "pg_outbox t = pg_outbox s'"
  shows "created' = created \<and> content t' = content t"
  using assms(1)
proof (cases rule: commit_alerts_steps)
  case 1
  with assms(3) show ?thesis by (auto simp: commit_alerts_def)
next
  case (2 cursors s1)
  obtain cursors' t1 where t: "insert_events (rb_Alerts b) t = Inr (cursors', t1)"
    "created' = map (\<lambda>a. a\<lparr>alr_Cursor := get_or 0 cursors' (alr_ID a)\<rparr>) (rb_Alerts b)"
    "insert_outboxes now' created' t1 = Inr ((), t')" using that by (rule commit_alerts_steps [OF assms(3)]) (simp_all add: 2(1))
  have ev: "pg_events t = pg_events s1 @ []" using assms(4) insert_outboxes_frame [OF 2(4)] by simp
  from insert_events_again [OF 2(2) ev] t(1)
  have t1: "cursors' = cursors" "t1 = t\<lparr>pg_event_seq := pg_event_seq t + int (length (rb_Alerts b))\<rparr>" by simp_all
  with t(2) 2(3) have created: "created' = created" by simp
  have "keys_sound s1" using insert_events_keys [OF 2(2) assms(2)] by simp
  from insert_outboxes_keys [OF 2(4) this] have "alr_ID ` set created \<subseteq> outbox_ids s'" by auto
  then have "alr_ID ` set created' \<subseteq> outbox_ids t1" using assms(5) created t1(2) by (simp add: outbox_ids_def)
  from insert_outboxes_again [OF this] t(3) have "t' = t1\<lparr>pg_outbox_seq := pg_outbox_seq t1 + int (length created')\<rparr>" by simp
  with created t1(2) show ?thesis by (simp add: content_def)
qed

lemma commit_tx_again:
  assumes "commit_tx drv now b s = Inr (created, s')" and "log_sound s" and "commit_tx drv' now' b s' = Inr (created', t')"
  shows "created' = created \<and> content t' = content s'"
proof -
  from commit_tx_steps [OF assms(1)] obtain s1 s2 s3 s4 where s:
    "commit_inbox drv now b s = Inr ((), s1)" "commit_series drv b s1 = Inr ((), s2)"
    "commit_resets drv b s2 = Inr ((), s3)" "commit_definitions drv b s3 = Inr ((), s4)"
    "commit_alerts drv now b s4 = Inr (created, s')" .
  from commit_tx_steps [OF assms(3)] obtain t1 t2 t3 t4 where t:
    "commit_inbox drv' now' b s' = Inr ((), t1)" "commit_series drv' b t1 = Inr ((), t2)"
    "commit_resets drv' b t2 = Inr ((), t3)" "commit_definitions drv' b t3 = Inr ((), t4)"
    "commit_alerts drv' now' b t4 = Inr (created', t')" .
  note se = commit_inbox_frame [OF s(1)] commit_series_effect [OF s(2)] commit_resets_effect [OF s(3)]
    commit_definitions_effect(1) [OF s(4)]
  note te = commit_inbox_frame [OF t(1)] commit_series_effect [OF t(2)] commit_resets_effect [OF t(3)]
    commit_definitions_effect(1) [OF t(4)]
  have "pg_inbox s' = pg_inbox s4" using commit_alerts_frame [OF s(5)] by simp
  with se have "pg_inbox s' = pg_inbox s1" by simp
  with insert_inboxes_present [of "rb_Observations b" now s] se(1) have t1: "t1 = s'"
    using te(1) insert_inboxes_again [of "rb_Observations b" s' now'] by simp
  note r = commit_tx_runtime(1,2) [OF assms(1)]
  let ?new = "\<lambda>k. map_option (\<lambda>st. (Some (rb_PartitionID b), stored_series st)) (rb_SeriesStates b k)"
  have "pg_series s' ++ ?new = pg_series s'" using r(1) by (auto simp: map_add_def fun_eq_iff split: option.splits)
  with te(2) t1 have t2: "t2 = s'" by simp
  have t4: "t4 = s'"
    using te(3,4) t2 r(2) by (cases s') (auto simp: map_add_def fun_eq_iff delete_keys_def split: option.splits)
  have "keys_sound s4"
    by (rule keys_sound_frame [of s])
      (use assms(2) in \<open>simp_all add: log_sound_def se insert_inboxes_frame insert_inboxes_seq insert_inboxes_grows\<close>)
  with commit_alerts_again [OF s(5) _ t(5)] t4 show ?thesis by simp
qed


definition logged_alert :: alert where
  "logged_alert = sample_alert\<lparr>alr_Observation := Some zero_observation\<rparr>"

definition alert_batch :: runtime_batch where
  "alert_batch = empty_batch\<lparr>rb_Observations := [zero_observation], rb_Alerts := [logged_alert]\<rparr>"

definition sample_pg :: pg where
  "sample_pg = empty_pg\<lparr>pg_definitions := [\<lparr>pd_definition = legacy_sample, pd_archived_at = None\<rparr>]\<rparr>"

lemma alert_batch_commits:
  "\<exists>s1. pg_CommitRuntimeBatch plain_driver 5 alert_batch sample_pg = (Inr [logged_alert\<lparr>alr_Cursor := 1\<rparr>], s1)"
proof -
  have "marshal_observation zero_observation = Some zero_observation" by code_simp
  moreover have "alert_marshals logged_alert" "alr_Observation logged_alert = Some zero_observation"
    "int4_ok (alr_DefinitionVersion logged_alert)" "uint (alr_SourceRevision logged_alert) = 0"
    "alr_SourceEventID logged_alert = ''''" "alr_DefinitionID logged_alert = dfn_ID legacy_sample"
    by (simp_all add: logged_alert_def sample_alert_def legacy_alert_def zero_observation_def alert_marshals_def
        json_time_ok_def int4_ok_def legacy_sample_def)
  ultimately show ?thesis
    by (simp add: pg_CommitRuntimeBatch_def commit_tx_def exec_def plain_driver_def commit_inbox_def commit_series_def
        commit_resets_def commit_definitions_def commit_alerts_def alert_batch_def empty_batch_def sample_pg_def empty_pg_def
        insert_inbox_def insert_event_def insert_outbox_def canonical_uuid_def has_id_def settle_def event_key_def
        zero_observation_def Let_def)
qed


section \<open>The bootstrap is lost\<close>

text \<open>
  C30. The bootstrap from the older path does not survive the first commit: when a worker has taken the state of a series
  from the tables of the older path, a commit of any other series makes the next load ignore those tables, so a worker that
  restarts then finds no state for the series it had bootstrapped and not yet written.
\<close>

theorem bootstrap_lost_after_commit:
  assumes "pg_LoadRuntimeStates drv owned s = Inr snap" and "snap_Series snap k = Some st" and "pg_series s k = None"
    and "pg_CommitRuntimeBatch drv' now b s = (Inr created, s')" and "rb_PartitionID b \<in> set (smallintPartitions owned)"
    and "rb_SeriesStates b k' = Some st'" and "rb_SeriesStates b k = None" and "no_faults drv''"
  shows "\<exists>snap'. pg_LoadRuntimeStates drv'' owned s' = Inr snap' \<and> snap_Series snap' k = None"
proof -
  from assms(4) have "commit_tx drv' now b s = Inr (created, s')" by (simp add: pg_CommitRuntimeBatch_def settle_Inr)
  note r = commit_tx_runtime(1) [OF this]
  have "visible_series (smallintPartitions owned) s' k' = Some (stored_series st')"
    using assms(5,6) by (simp add: r visible_series_def visible_def)
  then have "visible_series (smallintPartitions owned) s' \<noteq> Map.empty" by auto
  moreover have "visible_series (smallintPartitions owned) s' k = None"
    using assms(3,7) by (simp add: r visible_series_def map_add_def)
  ultimately show ?thesis using assms(8) by (simp add: pg_LoadRuntimeStates_def no_faults_def Let_def)
qed

section \<open>Retention\<close>

lemma doomed_published: "i \<in> set (doomed_events now age limit s) \<Longrightarrow>
    \<exists>e \<in> set (pg_events s). pe_id e = i \<and> pe_triggered_at e < now - age \<and> event_published s e"
  by (auto simp: doomed_events_def dest!: in_set_takeD)

lemma distinct_inj: "distinct (map f xs) \<Longrightarrow> x \<in> set xs \<Longrightarrow> y \<in> set xs \<Longrightarrow> f x = f y \<Longrightarrow> x = y"
  by (simp add: distinct_map inj_on_def)

lemma expire_alerts_sound:
  assumes "expire_alerts drv now policy s = Inr (n, s')" and "log_sound s"
  shows "log_sound s' \<and> {r \<in> set (pg_outbox s). po_published_at r = None} \<subseteq> set (pg_outbox s') \<and>
    pg_inbox s' = pg_inbox s \<and> set (pg_events s') \<subseteq> set (pg_events s) \<and>
    (\<forall>e \<in> set (pg_events s) - set (pg_events s'). pe_triggered_at e < now - rp_AlertEvents policy \<and> event_published s e)"
proof (cases "rp_AlertEvents policy > 0")
  case True
  define ids where "ids = doomed_events now (rp_AlertEvents policy) (rp_BatchSize policy) s"
  from assms(1) True have s': "s' = s\<lparr>pg_events := filter (\<lambda>e. pe_id e \<notin> set ids) (pg_events s),
      pg_outbox := filter (\<lambda>r. po_alert_id r \<notin> set ids) (pg_outbox s)\<rparr>"
    by (auto simp: expire_alerts_def exec_Inr ids_def Let_def)
  have k: "keys_sound s" "outbox_ids s = event_ids s" using assms(2) by (simp_all add: log_sound_def)
  have "keys_sound s'" using k(1) by (auto simp: s' keys_sound_def distinct_map_filter)
  moreover have "outbox_ids s' = outbox_ids s - set ids" "event_ids s' = event_ids s - set ids"
    by (auto simp: s' outbox_ids_def event_ids_def)
  moreover have "po_alert_id r \<notin> set ids" if "r \<in> set (pg_outbox s)" "po_published_at r = None" for r
  proof
    assume "po_alert_id r \<in> set ids"
    from doomed_published [OF this [unfolded ids_def]]
    obtain r' where "r' \<in> set (pg_outbox s)" "po_alert_id r' = po_alert_id r" "po_published_at r' \<noteq> None"
      by (auto simp: event_published_def list_ex_iff)
    with that k(1) distinct_inj [of po_alert_id "pg_outbox s" r' r] show False by (simp add: keys_sound_def)
  qed
  moreover have "pe_triggered_at e < now - rp_AlertEvents policy \<and> event_published s e"
    if e: "e \<in> set (pg_events s) - set (pg_events s')" for e
  proof -
    from e have "pe_id e \<in> set ids" by (simp add: s')
    from doomed_published [OF this [unfolded ids_def]] obtain e' where "e' \<in> set (pg_events s)" "pe_id e' = pe_id e"
      "pe_triggered_at e' < now - rp_AlertEvents policy" "event_published s e'" by blast
    with e k(1) distinct_inj [of pe_id "pg_events s" e' e] show ?thesis by (simp add: keys_sound_def)
  qed
  ultimately show ?thesis using k(2) by (auto simp: log_sound_def s')
next
  case False
  with assms show ?thesis by (auto simp: expire_alerts_def)
qed

lemma expire_inbox_sound:
  assumes "expire_inbox drv now policy s = Inr (n, s')" and "log_sound s"
  shows "log_sound s' \<and> pg_outbox s' = pg_outbox s \<and> pg_events s' = pg_events s"
proof (cases "rp_ProvisionalInbox policy > 0 \<and> rp_ConfirmedInbox policy > 0")
  case True
  define ids where "ids = map pi_source_event_id (take (nat (rp_BatchSize policy)) (sort_key pi_received_at
    (filter (expired_inbox now policy s) (pg_inbox s))))"
  from assms(1) True have s': "s' = s\<lparr>pg_inbox := filter (\<lambda>r. pi_source_event_id r \<notin> set ids) (pg_inbox s)\<rparr>"
    by (auto simp: expire_inbox_def exec_Inr ids_def Let_def)
  have "pe_source_event_id e \<notin> set ids" if "e \<in> set (pg_events s)" for e
    using that by (auto simp: ids_def expired_inbox_def list_ex_iff dest!: in_set_takeD)
  then have "\<exists>i \<in> set (pg_inbox s'). pi_source_event_id i = pe_source_event_id e" if "e \<in> set (pg_events s)" for e
    using that assms(2) by (fastforce simp: s' log_sound_def keys_sound_def)
  with assms(2) show ?thesis by (simp add: s' log_sound_def keys_sound_def outbox_ids_def event_ids_def)
next
  case False
  with assms show ?thesis by (auto simp: expire_inbox_def)
qed

text \<open>
  C26. Retention never deletes what is not published: whatever the policy and wherever the maintenance stops, the log
  stays sound, every unpublished alert keeps its row in the outbox, and an event that is gone was published and older
  than the configured age.
\<close>

theorem retention_spares_unpublished:
  assumes "pg_Maintain drv now policy s = (res, s')" and "log_sound s"
  shows "log_sound s' \<and> {r \<in> set (pg_outbox s). po_published_at r = None} \<subseteq> set (pg_outbox s') \<and>
    (\<forall>e \<in> set (pg_events s) - set (pg_events s'). pe_triggered_at e < now - rp_AlertEvents policy \<and> event_published s e)"
proof -
  let ?p = "policy\<lparr>rp_BatchSize := (if rp_BatchSize policy \<le> 0 then 5000 else rp_BatchSize policy)\<rparr>"
  show ?thesis
  proof (cases "expire_alerts drv now ?p s")
    case (Inl e)
    with assms show ?thesis by (simp add: pg_Maintain_def settle_def Let_def)
  next
    case (Inr ns)
    obtain n s1 where ns: "ns = (n, s1)" by (cases ns)
    note a = expire_alerts_sound [OF Inr [unfolded ns] assms(2)]
    show ?thesis
    proof (cases "expire_inbox drv now ?p s1")
      case (Inl e)
      with assms(1) Inr ns have "s' = s1" by (simp add: pg_Maintain_def settle_def Let_def)
      with a show ?thesis by simp
    next
      case (Inr ms)
      obtain m s2 where ms: "ms = (m, s2)" by (cases ms)
      from expire_inbox_sound [OF Inr [unfolded ms]] a have b: "log_sound s2" "pg_outbox s2 = pg_outbox s1" "pg_events s2 = pg_events s1"
        by simp_all
      from assms(1) \<open>expire_alerts drv now ?p s = Inr ns\<close> ns Inr ms have "s' = s2" by (simp add: pg_Maintain_def settle_def Let_def)
      with a b show ?thesis by simp
    qed
  qed
qed

definition forget_everything :: retention_policy where
  "forget_everything = \<lparr>rp_ProvisionalInbox = 1, rp_ConfirmedInbox = 1, rp_AlertEvents = 1, rp_BatchSize = 0\<rparr>"

theorem retention_spares_unpublished_witness:
  "\<exists>s s'. log_sound s \<and> pg_outbox s \<noteq> [] \<and> snd (pg_Maintain plain_driver (10 ^ 18) forget_everything s) = s' \<and>
     (\<forall>r \<in> set (pg_outbox s). po_published_at r = None \<longrightarrow> r \<in> set (pg_outbox s'))"
proof -
  obtain s1 where 1: "commit_tx plain_driver 5 alert_batch sample_pg = Inr ([logged_alert\<lparr>alr_Cursor := 1\<rparr>], s1)"
    using alert_batch_commits by (auto simp: pg_CommitRuntimeBatch_def settle_Inr)
  have "log_sound sample_pg" by (simp add: log_sound_def keys_sound_def outbox_ids_def event_ids_def sample_pg_def empty_pg_def)
  with 1 have s: "log_sound s1" by (rule commit_tx_sound)
  from commit_tx_steps [OF 1] obtain s4 where "commit_alerts plain_driver 5 alert_batch s4 = Inr ([logged_alert\<lparr>alr_Cursor := 1\<rparr>], s1)"
    by metis
  then obtain cursors t where "insert_outboxes 5 [logged_alert\<lparr>alr_Cursor := 1\<rparr>] t = Inr ((), s1)"
    by (rule commit_alerts_steps) auto
  then have "pg_outbox s1 \<noteq> []" by (auto simp: insert_outbox_def pg_fail_def Let_def split: if_splits)
  obtain res s' where m: "pg_Maintain plain_driver (10 ^ 18) forget_everything s1 = (res, s')" by fastforce
  from retention_spares_unpublished [OF m s] s \<open>pg_outbox s1 \<noteq> []\<close> m show ?thesis by fastforce
qed

section \<open>The publisher's loop ends\<close>

definition due_rows :: "go_time \<Rightarrow> pg \<Rightarrow> pg_outbox_row list" where
  "due_rows now s = filter (due now) (pg_outbox s)"

definition outbox_keyed :: "pg \<Rightarrow> bool" where
  "outbox_keyed s \<longleftrightarrow> distinct (map po_cursor (pg_outbox s))"

lemma backoff_positive: "0 < backoff attempts"
  by (simp add: backoff_def)

lemma update_outbox_due:
  assumes "update_outbox drv st i f s = (e, s')" and "\<And>r. po_cursor (f r) = po_cursor r" and "\<And>r. \<not> due now (f r)"
  shows "length (due_rows now s') \<le> length (due_rows now s) \<and> (outbox_keyed s \<longrightarrow> outbox_keyed s')"
proof -
  have "length (filter (due now) (map (\<lambda>r. if p r then f r else r) rs)) \<le> length (filter (due now) rs)" for p rs
    using assms(3) by (induction rs) auto
  moreover have "map po_cursor (map (\<lambda>r. if p r then f r else r) rs) = map po_cursor rs" for p rs
    using assms(2) by (simp add: comp_def if_distrib cong: if_cong)
  ultimately show ?thesis
    using assms(1)
    by (auto simp: update_outbox_def due_rows_def outbox_keyed_def exec_def pg_fail_def settle_def
        split: option.splits simp del: map_map)
qed

lemma publish_event_due:
  assumes "publish_event (pg_repository drv now) publish (s, w) a = (s', w')"
  shows "length (due_rows now (sv_repo s')) \<le> length (due_rows now (sv_repo s)) \<and>
    (outbox_keyed (sv_repo s) \<longrightarrow> outbox_keyed (sv_repo s'))"
proof (cases "publish a w")
  case (Pair res w1)
  show ?thesis
  proof (cases res)
    case None
    obtain e r where u: "pg_MarkPublished drv now (alr_ID a) (sv_repo s) = (e, r)" by fastforce
    with assms Pair None have "sv_repo s' = r"
      by (auto simp: publish_event_def pg_repository_def Let_def split: option.splits)
    with update_outbox_due [OF u [unfolded pg_MarkPublished_def], of now] show ?thesis
      by (simp add: published_row_def due_def)
  next
    case (Some err)
    obtain e r where u: "pg_MarkPublishFailed drv now (alr_ID a) err (sv_repo s) = (e, r)" by fastforce
    with assms Pair Some have "sv_repo s' = r" by (auto simp: publish_event_def pg_repository_def Let_def)
    with update_outbox_due [OF u [unfolded pg_MarkPublishFailed_def], of now] backoff_positive show ?thesis
      by (simp add: failed_row_def due_def not_le)
  qed
qed

lemma publish_events_due:
  "foldl (publish_event (pg_repository drv now) publish) (s, w) as = (s', w') \<Longrightarrow>
   length (due_rows now (sv_repo s')) \<le> length (due_rows now (sv_repo s)) \<and>
   (outbox_keyed (sv_repo s) \<longrightarrow> outbox_keyed (sv_repo s'))"
proof (induction as arbitrary: s w)
  case (Cons a as)
  obtain s1 w1 where p: "publish_event (pg_repository drv now) publish (s, w) a = (s1, w1)" by fastforce
  with Cons.prems have "foldl (publish_event (pg_repository drv now) publish) (s1, w1) as = (s', w')" by simp
  from Cons.IH [OF this] publish_event_due [OF p] show ?case by auto
qed simp

lemma claim_due:
  assumes "pg_ClaimPending drv now 100 s = (Inr events, s')" and "outbox_keyed s" and "\<And>rows. length (drv_order drv rows) = length rows"
  shows "outbox_keyed s' \<and> length (due_rows now s') + length events = length (due_rows now s) \<and> length events \<le> 100"
proof -
  let ?D = "due_rows now s" and ?ids = "claimed_cursors now 100 s"
  let ?in = "\<lambda>r. po_cursor r \<in> set ?ids"
  from assms(1) have events: "events = map po_payload (drv_order drv (filter ?in (pg_outbox s)))"
    and s': "s' = s\<lparr>pg_outbox := map (\<lambda>r. if ?in r then claim_row now r else r) (pg_outbox s)\<rparr>"
    by (auto simp: pg_ClaimPending_def settle_Inr exec_Inr Let_def)
  have d: "distinct (map po_cursor ?D)" using assms(2) by (simp add: due_rows_def outbox_keyed_def distinct_map_filter)
  have sub: "set ?ids \<subseteq> po_cursor ` set ?D"
    by (auto simp: claimed_cursors_def due_rows_def dest!: in_set_takeD)
  have dist: "distinct ?ids" using d by (simp add: claimed_cursors_def due_rows_def)
  have all_due: "filter ?in (pg_outbox s) = filter ?in ?D"
    unfolding due_rows_def filter_filter
  proof (rule filter_cong [OF refl])
    fix r assume r: "r \<in> set (pg_outbox s)"
    have "due now r" if in_ids: "?in r"
    proof -
      from in_ids sub obtain r' where "r' \<in> set (pg_outbox s)" "due now r'" "po_cursor r' = po_cursor r"
        by (auto simp: due_rows_def)
      with r assms(2) distinct_inj [of po_cursor "pg_outbox s" r' r] show ?thesis by (simp add: outbox_keyed_def)
    qed
    then show "?in r \<longleftrightarrow> due now r \<and> ?in r" by blast
  qed
  have "length (filter ?in ?D) = length (filter (\<lambda>c. c \<in> set ?ids) (map po_cursor ?D))" by (simp add: filter_map comp_def)
  also have "\<dots> = card (set ?ids \<inter> set (map po_cursor ?D))" using distinct_length_filter [OF d] by (simp add: Int_def)
  also have "\<dots> = length ?ids" using sub dist by (simp add: Int_absorb2 distinct_card)
  finally have n: "length (filter ?in ?D) = length ?ids" .
  have "filter (due now) (map (\<lambda>r. if p r then claim_row now r else r) rs) = filter (\<lambda>r. \<not> p r) (filter (due now) rs)" for p rs
    by (induction rs) (auto simp: claim_row_def due_def)
  then have "due_rows now s' = filter (\<lambda>r. \<not> ?in r) ?D" by (simp add: s' due_rows_def)
  then have "length (due_rows now s') + length (filter ?in ?D) = length ?D"
    using sum_length_filter_compl [of ?in ?D] by simp
  moreover have "outbox_keyed s'"
    using assms(2) by (simp add: outbox_keyed_def s' comp_def claim_row_def if_distrib cong: if_cong)
  moreover have "length events = length ?ids" by (simp add: events assms(3) all_due n)
  moreover have "length ?ids \<le> 100" by (simp add: claimed_cursors_def)
  ultimately show ?thesis using n by simp
qed


definition outbox_row :: "nat \<Rightarrow> pg_outbox_row" where
  "outbox_row k = \<lparr>po_cursor = int k, po_alert_id = itoa (int k), po_payload = sample_alert, po_attempts = 0,
     po_next_attempt_at = 0, po_locked_at = None, po_published_at = None, po_last_error = None, po_created_at = 0\<rparr>"

definition pg_service :: "nat \<Rightarrow> pg service" where
  "pg_service k = NewWithOptions (empty_pg\<lparr>pg_outbox := map outbox_row [0..<k]\<rparr>) sample_options"


theorem bootstrap_lost_after_commit_witness:
  "\<exists>s k st b created s' snap'. pg_LoadRuntimeStates plain_driver [0] s = Inr st \<and> snap_Series st k \<noteq> None \<and>
     pg_CommitRuntimeBatch plain_driver 5 b s = (Inr created, s') \<and>
     pg_LoadRuntimeStates plain_driver [0] s' = Inr snap' \<and> snap_Series snap' k = None"
proof -
  let ?i = "dfn_ID legacy_sample"
  let ?s = "sample_pg\<lparr>pg_rule_state := [((?i, ''/BTC/1m''), zero_evaluation_state)]\<rparr>"
  let ?b = "empty_batch\<lparr>rb_SeriesStates := [''/ETH/1m'' \<mapsto> zero_series_state]\<rparr>"
  have part: "rb_PartitionID ?b = 0" by (simp add: empty_batch_def)
  have small: "smallintPartitions [0] = [0]" by (simp add: smallintPartitions_def smallint_def)
  obtain snap where snap: "pg_LoadRuntimeStates plain_driver [0] ?s = Inr snap" "snap_Series snap ''/BTC/1m'' \<noteq> None"
    by (simp add: pg_LoadRuntimeStates_def plain_driver_def visible_series_def sample_pg_def empty_pg_def legacy_rows_def
        has_id_def bootstrap_row_def zero_series_state_def is_zero_def Let_def)
  obtain s' where c: "pg_CommitRuntimeBatch plain_driver 5 ?b ?s = (Inr [], s')"
    by (simp add: pg_CommitRuntimeBatch_def commit_tx_def exec_def plain_driver_def commit_inbox_def commit_series_def
        commit_resets_def commit_definitions_def commit_alerts_def empty_batch_def settle_def series_marshals_def
        feature_marshals_def zero_series_state_def zero_feature_def json_time_ok_def Let_def)
  obtain st where "snap_Series snap ''/BTC/1m'' = Some st" using snap(2) by auto
  from bootstrap_lost_after_commit [OF snap(1) this _ c _ _ _ plain_no_faults, of "''/ETH/1m''" zero_series_state] part small
  have "\<exists>snap'. pg_LoadRuntimeStates plain_driver [0] s' = Inr snap' \<and> snap_Series snap' ''/BTC/1m'' = None"
    by (simp add: sample_pg_def empty_pg_def empty_batch_def)
  with snap c show ?thesis by blast
qed

end
