(* ===== verification/Config.thy ===== *)
theory Config
  imports GoStd
begin

text \<open>
  \<open>internal/config/config.go\<close>: the configuration of a worker, read from the environment. \<open>getenv\<close> is
  \<open>os.Getenv\<close>, which gives the empty string for a variable that is not set; \<open>hostname\<close> and \<open>pid\<close> are what the
  operating system says of the process. The error is the text of the message. Durations are parsed as
  \<open>time.ParseDuration\<close> does, and their product with two is an \<open>int64\<close> that wraps.
\<close>

section \<open>The defaults as text\<close>

text \<open>\<open>Duration.String\<close>: a fraction of \<open>prec\<close> digits without its trailing zeros, after \<open>fmtFrac\<close>.\<close>

definition frac_text :: "nat \<Rightarrow> int \<Rightarrow> string" where
  "frac_text prec v =
    (let ds = rev (dropWhile (\<lambda>c. c = CHR ''0'') (rev (digits_padded prec (v mod 10 ^ prec))))
     in if ds = [] then '''' else CHR ''.'' # ds)"

definition unit_text :: "nat \<Rightarrow> int \<Rightarrow> string \<Rightarrow> string" where
  "unit_text prec v u = digits (v div 10 ^ prec) @ frac_text prec v @ u"

definition duration_string :: "duration \<Rightarrow> string" where
  "duration_string d =
    (let u = \<bar>d\<bar>;
         t = (if u = 0 then ''0s''
              else if u < microsecond then unit_text 0 u ''ns''
              else if u < millisecond then unit_text 3 u [CHR 0xC2, CHR 0xB5, CHR ''s'']
              else if u < second then unit_text 6 u ''ms''
              else (if u div minute > 0
                    then (if u div hour > 0 then digits (u div hour) @ ''h'' else '''') @ digits (u div minute mod 60) @ ''m''
                    else '''') @ unit_text 9 (u mod minute) ''s'')
     in if d < 0 then CHR ''-'' # t else t)"

section \<open>Reading the environment\<close>

record config =
  cfg_Addr :: string
  cfg_APIToken :: string
  cfg_IngestToken :: string
  cfg_DatabaseURL :: string
  cfg_NATSURL :: string
  cfg_NATSToken :: string
  cfg_NATSDurable :: string
  cfg_NATSReplicas :: int
  cfg_NATSMaxDeliveries :: int
  cfg_WorkerIndex :: int
  cfg_WorkerCount :: int
  cfg_EvaluationBatchSize :: int
  cfg_NATSAckWait :: duration
  cfg_DefinitionRefreshInterval :: duration
  cfg_DefinitionActivationDelay :: duration
  cfg_DefinitionMaxStaleness :: duration
  cfg_MaintenanceInterval :: duration
  cfg_ProvisionalInboxRetention :: duration
  cfg_ConfirmedInboxRetention :: duration
  cfg_AlertEventRetention :: duration
  cfg_PartitionLeaseTTL :: duration
  cfg_PartitionLeaseRenewInterval :: duration
  cfg_MaintenanceBatchSize :: int
  cfg_InstanceID :: string
  cfg_Insecure :: bool
  cfg_AllowMemory :: bool

definition env :: "(string \<Rightarrow> string) \<Rightarrow> string \<Rightarrow> string \<Rightarrow> string" where
  "env getenv key fallback = (if getenv key \<noteq> '''' then getenv key else fallback)"

definition integer :: "(string \<Rightarrow> string) \<Rightarrow> string \<Rightarrow> int \<Rightarrow> int \<Rightarrow> int \<Rightarrow> string + int" where
  "integer getenv key fallback minimum maximum =
    (case atoi (env getenv key (itoa fallback)) of
       None \<Rightarrow> Inl (key @ '' must be an integer from '' @ itoa minimum @ '' to '' @ itoa maximum)
     | Some v \<Rightarrow>
        if v < minimum \<or> v > maximum
        then Inl (key @ '' must be an integer from '' @ itoa minimum @ '' to '' @ itoa maximum) else Inr v)"

definition config_duration :: "(string \<Rightarrow> string) \<Rightarrow> string \<Rightarrow> duration \<Rightarrow> string + duration" where
  "config_duration getenv key fallback =
    (case parse_duration (env getenv key (duration_string fallback)) of
       None \<Rightarrow> Inl (key @ '' must be a positive duration'')
     | Some v \<Rightarrow> if v \<le> 0 then Inl (key @ '' must be a positive duration'') else Inr v)"

definition instanceID :: "string \<Rightarrow> int \<Rightarrow> string \<Rightarrow> string" where
  "instanceID hostname pid prefix = prefix @ ''/'' @ hostname @ ''/'' @ itoa pid"

text \<open>\<open>strings.EqualFold(s, "true")\<close>: no character outside ASCII folds to one of these letters.\<close>

definition ascii_lower :: "char \<Rightarrow> char" where
  "ascii_lower c = (if 65 \<le> byte c \<and> byte c \<le> 90 then char_of (byte c + 32) else c)"

definition is_true :: "string \<Rightarrow> bool" where
  "is_true s \<longleftrightarrow> map ascii_lower s = ''true''"

text \<open>\<open>if c.x, err = f(); err != nil return\<close>.\<close>

definition and_then :: "'e + 'a \<Rightarrow> ('a \<Rightarrow> 'e + 'b) \<Rightarrow> 'e + 'b" where
  "and_then r k = (case r of Inl e \<Rightarrow> Inl e | Inr x \<Rightarrow> k x)"

definition guard :: "bool \<Rightarrow> 'e \<Rightarrow> 'e + 'a \<Rightarrow> 'e + 'a" where
  "guard bad e r = (if bad then Inl e else r)"

lemma and_then_Inr: "and_then r k = Inr y \<longleftrightarrow> (\<exists>x. r = Inr x \<and> k x = Inr y)"
  by (auto simp: and_then_def split: sum.splits)

lemma guard_Inr: "guard bad e r = Inr y \<longleftrightarrow> \<not> bad \<and> r = Inr y"
  by (simp add: guard_def)

lemma integer_Inr: "integer getenv key d lo hi = Inr v \<Longrightarrow> lo \<le> v \<and> v \<le> hi"
  by (auto simp: integer_def split: option.splits if_splits)

lemma config_duration_Inr: "config_duration getenv key d = Inr v \<Longrightarrow> 0 < v \<and> v < 2 ^ 63"
  by (auto simp: config_duration_def split: option.splits if_splits dest: parse_duration_range)

section \<open>Load\<close>

definition Load :: "(string \<Rightarrow> string) \<Rightarrow> string \<Rightarrow> int \<Rightarrow> string + config" where
  "Load getenv hostname pid =
    (let tokens = (getenv ''ALERTS_API_TOKEN'', getenv ''ALERTS_INGEST_TOKEN'');
         insecure = is_true (getenv ''ALERTS_INSECURE_NO_AUTH'');
         memory = is_true (getenv ''ALERTS_ALLOW_MEMORY_STORE'')
     in and_then (integer getenv ''ALERTS_NATS_REPLICAS'' 1 1 5) (\<lambda>replicas.
        and_then (integer getenv ''ALERTS_NATS_MAX_DELIVERIES'' 20 1 100) (\<lambda>deliveries.
        and_then (integer getenv ''ALERTS_WORKER_COUNT'' 1 1 256) (\<lambda>workers.
        and_then (integer getenv ''ALERTS_WORKER_INDEX'' 0 0 (workers - 1)) (\<lambda>index.
        and_then (integer getenv ''ALERTS_EVALUATION_BATCH_SIZE'' 32 1 1000) (\<lambda>batch.
        and_then (config_duration getenv ''ALERTS_NATS_ACK_WAIT'' (30 * second)) (\<lambda>ack.
        and_then (config_duration getenv ''ALERTS_DEFINITION_REFRESH_INTERVAL'' (250 * millisecond)) (\<lambda>refresh.
        and_then (config_duration getenv ''ALERTS_DEFINITION_ACTIVATION_DELAY'' (2 * second)) (\<lambda>delay.
        and_then (config_duration getenv ''ALERTS_DEFINITION_MAX_STALENESS'' second) (\<lambda>stale.
        guard (delay < wrap64 (2 * refresh) \<or> stale \<ge> delay)
          ''definition activation delay must be at least twice the refresh interval and greater than max staleness'' (
        and_then (config_duration getenv ''ALERTS_MAINTENANCE_INTERVAL'' hour) (\<lambda>maintenance.
        and_then (config_duration getenv ''ALERTS_PROVISIONAL_INBOX_RETENTION'' (48 * hour)) (\<lambda>provisional.
        and_then (config_duration getenv ''ALERTS_CONFIRMED_INBOX_RETENTION'' (30 * 24 * hour)) (\<lambda>confirmed.
        and_then (config_duration getenv ''ALERTS_EVENT_RETENTION'' (365 * 24 * hour)) (\<lambda>events.
        and_then (integer getenv ''ALERTS_MAINTENANCE_BATCH_SIZE'' 5000 1 100000) (\<lambda>rows.
        and_then (config_duration getenv ''ALERTS_PARTITION_LEASE_TTL'' (15 * second)) (\<lambda>ttl.
        and_then (config_duration getenv ''ALERTS_PARTITION_LEASE_RENEW_INTERVAL'' (5 * second)) (\<lambda>renew.
        guard (wrap64 (renew * 2) \<ge> ttl) ''partition lease renew interval must be less than half the lease TTL'' (
        guard (memory \<and> workers > 1) ''memory store cannot coordinate multiple evaluator workers'' (
        guard (\<not> insecure \<and> (length (fst tokens) < 32 \<or> length (snd tokens) < 32))
          ''ALERTS_API_TOKEN and ALERTS_INGEST_TOKEN must each contain at least 32 characters'' (
        guard (getenv ''ALERTS_DATABASE_URL'' = '''' \<and> \<not> memory)
          ''ALERTS_DATABASE_URL is required; set ALERTS_ALLOW_MEMORY_STORE=true only for development'' (
        guard (getenv ''ALERTS_NATS_URL'' \<noteq> '''' \<and> length (getenv ''ALERTS_NATS_TOKEN'') < 32)
          ''ALERTS_NATS_TOKEN must contain at least 32 characters when ALERTS_NATS_URL is set''
        (Inr \<lparr>cfg_Addr = env getenv ''ALERTS_HTTP_ADDR'' '':8100'', cfg_APIToken = fst tokens, cfg_IngestToken = snd tokens,
          cfg_DatabaseURL = getenv ''ALERTS_DATABASE_URL'', cfg_NATSURL = getenv ''ALERTS_NATS_URL'',
          cfg_NATSToken = getenv ''ALERTS_NATS_TOKEN'',
          cfg_NATSDurable = env getenv ''ALERTS_NATS_DURABLE'' ''ALERTS_EVALUATOR_V3'',
          cfg_NATSReplicas = replicas, cfg_NATSMaxDeliveries = deliveries, cfg_WorkerIndex = index,
          cfg_WorkerCount = workers, cfg_EvaluationBatchSize = batch, cfg_NATSAckWait = ack,
          cfg_DefinitionRefreshInterval = refresh, cfg_DefinitionActivationDelay = delay,
          cfg_DefinitionMaxStaleness = stale, cfg_MaintenanceInterval = maintenance,
          cfg_ProvisionalInboxRetention = provisional, cfg_ConfirmedInboxRetention = confirmed,
          cfg_AlertEventRetention = events, cfg_PartitionLeaseTTL = ttl, cfg_PartitionLeaseRenewInterval = renew,
          cfg_MaintenanceBatchSize = rows,
          cfg_InstanceID = instanceID hostname pid (env getenv ''ALERTS_INSTANCE_ID'' ''alertsd''),
          cfg_Insecure = insecure, cfg_AllowMemory = memory\<rparr>)))))))))))))))))))))))"

lemmas Load_Inr = Load_def Let_def and_then_Inr guard_Inr

section \<open>What an accepted configuration promises\<close>

lemma wrap64_over:
  assumes "2 ^ 63 \<le> x" and "x < 2 ^ 64"
  shows "wrap64 x = x - 2 ^ 64"
proof -
  have "signed_take_bit 63 x = signed_take_bit 63 (x - 2 ^ 64)"
    by (rule signed_take_bit_eq_iff_take_bit_eq [THEN iffD2]) (simp add: take_bit_eq_mod mod_diff_right_eq [symmetric])
  also have "\<dots> = x - 2 ^ 64" using assms by (simp add: signed_take_bit_int_eq_self)
  finally show ?thesis by (simp add: wrap64_def)
qed

lemma wrap64_double: "0 < x \<Longrightarrow> x < 2 ^ 62 \<Longrightarrow> wrap64 (2 * x) = 2 * x" "0 < x \<Longrightarrow> x < 2 ^ 62 \<Longrightarrow> wrap64 (x * 2) = x * 2"
  by simp_all

lemma Load_sound:
  assumes "Load getenv hostname pid = Inr c"
  shows "cfg_WorkerIndex c \<in> {0..<cfg_WorkerCount c} \<and> cfg_WorkerCount c \<le> (if cfg_AllowMemory c then 1 else 256) \<and>
         cfg_EvaluationBatchSize c \<in> {1..1000} \<and> cfg_DefinitionMaxStaleness c < cfg_DefinitionActivationDelay c \<and>
         (cfg_DefinitionRefreshInterval c < 2 ^ 62 \<longrightarrow> 2 * cfg_DefinitionRefreshInterval c \<le> cfg_DefinitionActivationDelay c) \<and>
         (cfg_PartitionLeaseRenewInterval c < 2 ^ 62 \<longrightarrow> 2 * cfg_PartitionLeaseRenewInterval c < cfg_PartitionLeaseTTL c) \<and>
         0 < cfg_DefinitionMaxStaleness c \<and> 0 < cfg_PartitionLeaseTTL c \<and> 0 < cfg_NATSAckWait c \<and>
         (cfg_DatabaseURL c = '''' \<longrightarrow> cfg_AllowMemory c) \<and>
         (\<not> cfg_Insecure c \<longrightarrow> 32 \<le> length (cfg_APIToken c) \<and> 32 \<le> length (cfg_IngestToken c)) \<and>
         (cfg_NATSURL c \<noteq> '''' \<longrightarrow> 32 \<le> length (cfg_NATSToken c))"
  using assms unfolding Load_Inr
  apply (elim exE conjE)
  apply (drule integer_Inr)+
  apply (drule config_duration_Inr)+
  apply (drule sum.inject(2) [THEN iffD1])
  apply hypsubst
  apply (simp only: config.simps)
  apply (elim conjE)
  apply (intro conjI impI)
  apply (simp_all add: wrap64_double not_le not_less)
  done


section \<open>The defaults\<close>

lemmas parse_simps = parse_duration_def duration_groups.simps duration_group_def Let_def is_digit_def byte_def
  number_char_def duration_unit_def

lemma default_texts:
  "duration_string (30 * second) = ''30s''" "duration_string (250 * millisecond) = ''250ms''"
  "duration_string (2 * second) = ''2s''" "duration_string second = ''1s''" "duration_string hour = ''1h0m0s''"
  "duration_string (48 * hour) = ''48h0m0s''" "duration_string (30 * 24 * hour) = ''720h0m0s''"
  "duration_string (365 * 24 * hour) = ''8760h0m0s''" "duration_string (15 * second) = ''15s''"
  "duration_string (5 * second) = ''5s''"
  by code_simp+

lemma default_durations:
  "parse_duration ''30s'' = Some (30 * second)" "parse_duration ''250ms'' = Some (250 * millisecond)"
  "parse_duration ''2s'' = Some (2 * second)" "parse_duration ''1s'' = Some second" "parse_duration ''1h0m0s'' = Some hour"
  "parse_duration ''48h0m0s'' = Some (48 * hour)" "parse_duration ''720h0m0s'' = Some (30 * 24 * hour)"
  "parse_duration ''8760h0m0s'' = Some (365 * 24 * hour)" "parse_duration ''15s'' = Some (15 * second)"
  "parse_duration ''5s'' = Some (5 * second)"
  by (simp_all add: parse_simps)

lemma integer_default:
  "getenv key = '''' \<Longrightarrow> - (2 ^ 63) \<le> d \<Longrightarrow> d < 2 ^ 63 \<Longrightarrow> lo \<le> d \<Longrightarrow> d \<le> hi \<Longrightarrow> integer getenv key d lo hi = Inr d"
  by (simp add: integer_def env_def atoi_itoa)

lemma config_duration_default:
  "getenv key = '''' \<Longrightarrow> parse_duration (duration_string d) = Some d \<Longrightarrow> 0 < d \<Longrightarrow> config_duration getenv key d = Inr d"
  by (simp add: config_duration_def env_def)

definition development_env :: "string \<Rightarrow> string" where
  "development_env key =
    (if key = ''ALERTS_INSECURE_NO_AUTH'' \<or> key = ''ALERTS_ALLOW_MEMORY_STORE'' then ''TRUE'' else '''')"

lemma development_loads:
  "\<exists>c. Load development_env host pid = Inr c \<and> cfg_PartitionLeaseTTL c = 15 * second \<and>
     cfg_DefinitionActivationDelay c = 2 * second \<and> cfg_DefinitionMaxStaleness c = second \<and> cfg_NATSURL c = '''' \<and>
     cfg_Insecure c \<and> cfg_Addr c = '':8100'' \<and> cfg_WorkerCount c = 1 \<and> cfg_WorkerIndex c = 0"
proof -
  have t: "is_true ''TRUE''" by code_simp
  show ?thesis
    unfolding Load_Inr
    by (intro exI conjI, ((rule integer_default config_duration_default;
            simp add: development_env_def default_texts [simplified] default_durations)
          | simp add: t development_env_def env_def)+)
qed


text \<open>
  The guard on the renewal of leases does not hold what it says: \<open>PartitionLeaseRenewInterval*2\<close> wraps, so
  every renew interval of at least \<open>2^62\<close> nanoseconds is accepted beside any time to live of the lease.
\<close>

theorem lease_guard_overflows:
  assumes "Load getenv hostname pid = Inr c" and "parse_duration s = Some v" and "2 ^ 62 \<le> v"
  shows "Load (getenv(''ALERTS_PARTITION_LEASE_RENEW_INTERVAL'' := s)) hostname pid =
         Inr (c\<lparr>cfg_PartitionLeaseRenewInterval := v\<rparr>)"
proof -
  let ?env = "getenv(''ALERTS_PARTITION_LEASE_RENEW_INTERVAL'' := s)"
  have v: "v < 2 ^ 63" using parse_duration_range [OF assms(2)] by simp
  have s: "s \<noteq> ''''" using assms(2) by (auto simp: parse_duration_def)
  have same: "?env key = getenv key" "env ?env key = env getenv key" "integer ?env key = integer getenv key"
      "config_duration ?env key = config_duration getenv key"
    if "key \<noteq> ''ALERTS_PARTITION_LEASE_RENEW_INTERVAL''" for key
    using that by (simp_all add: fun_eq_iff env_def integer_def config_duration_def)
  have renew: "config_duration ?env ''ALERTS_PARTITION_LEASE_RENEW_INTERVAL'' d = Inr v" for d
    using assms(2,3) s by (simp add: config_duration_def env_def)
  have wrap: "wrap64 (v * 2) = v * 2 - 2 ^ 64" by (rule wrap64_over) (use assms(3) v in simp_all)
  have neg: "\<not> t \<le> wrap64 (v * 2)" if "config_duration getenv key d = Inr t" for key d t
    using config_duration_Inr [OF that] wrap v by simp
  show ?thesis
    using assms(1) unfolding Load_Inr
    apply (elim exE conjE)
    apply (intro exI conjI)
    apply ((rule renew | assumption | erule neg | (subst same(3), simp, assumption) | (subst same(4), simp, assumption))+)
    apply (simp_all add: same)
    apply hypsubst
    apply simp
    done
qed

theorem lease_guard_overflows_witness:
  "\<exists>c. Load (development_env(''ALERTS_PARTITION_LEASE_RENEW_INTERVAL'' := ''1500000h'')) ''host'' 1 = Inr c \<and>
       cfg_PartitionLeaseTTL c = 15 * second \<and> cfg_PartitionLeaseRenewInterval c = 1500000 * hour"
proof -
  have d: "parse_duration ''1500000h'' = Some (1500000 * hour)" by (simp add: parse_simps)
  obtain c where "Load development_env ''host'' 1 = Inr c" and "cfg_PartitionLeaseTTL c = 15 * second"
    using development_loads by blast
  with lease_guard_overflows [OF _ d] show ?thesis by fastforce
qed

end
