(* ===== verification/GoTime.thy ===== *)
theory GoTime
  imports GoStd "HOL-Library.Monad_Syntax"
begin

text \<open>
  The text of an instant in JSON: \<open>Time.MarshalJSON\<close> prints RFC 3339 with nanoseconds, \<open>Time.UnmarshalJSON\<close> reads it
  back. An instant is printed in UTC, as the locations of \<open>Time\<close> values are not modelled; an offset is read and
  subtracted. The reader accepts what \<open>time.Parse\<close> accepts beside the strict format: an hour of one digit, a comma
  before the fraction and offsets of 24 hours.
\<close>

section \<open>The calendar\<close>

definition leap :: "int \<Rightarrow> bool" where
  "leap y \<longleftrightarrow> 4 dvd y \<and> (\<not> 100 dvd y \<or> 400 dvd y)"

definition month_lengths :: "int \<Rightarrow> int list" where
  "month_lengths y = [31, if leap y then 29 else 28, 31, 30, 31, 30, 31, 31, 30, 31, 30, 31]"

text \<open>The days from 1 January of year 1 to 1 January of a year.\<close>

definition days_before :: "int \<Rightarrow> int" where
  "days_before y = 365 * (y - 1) + (y - 1) div 4 - (y - 1) div 100 + (y - 1) div 400"

lemma div_step:
  fixes y k :: int
  assumes "1 < k"
  shows "y div k = (y - 1) div k + (if k dvd y then 1 else 0)"
proof (cases "k dvd y")
  case True
  then obtain q where y: "y = k * q" ..
  have "y - 1 = k * (q - 1) + (k - 1)" by (simp add: y algebra_simps)
  then have "(y - 1) div k = q - 1"
    using assms by (intro int_div_pos_eq [where r = "k - 1"]) simp_all
  with True y assms show ?thesis by simp
next
  case False
  then have "y mod k \<noteq> 0" by (simp add: dvd_eq_mod_eq_0)
  moreover have "0 \<le> y mod k" "y mod k < k" using assms by simp_all
  ultimately have "(y - 1) div k = y div k"
    by (intro int_div_pos_eq [where r = "y mod k - 1"]) (simp_all add: algebra_simps)
  with False show ?thesis by simp
qed

lemma days_before_step: "days_before (y + 1) = days_before y + sum_list (month_lengths y)"
proof -
  have 100: "100 dvd y \<Longrightarrow> 4 dvd y" by (rule dvd_trans [of 4 100]) simp_all
  have 400: "400 dvd y \<Longrightarrow> 100 dvd y" by (rule dvd_trans [of 100 400]) simp_all
  have sum: "sum_list (month_lengths y) = (if leap y then 366 else 365)" by (simp add: month_lengths_def)
  have "days_before (y + 1) = 365 * y + y div 4 - y div 100 + y div 400"
    by (simp only: days_before_def add_diff_cancel_right')
  also have "\<dots> = days_before y + 365 + (if 4 dvd y then 1 else 0) - (if 100 dvd y then 1 else 0) + (if 400 dvd y then 1 else 0)"
  proof -
    have shift: "365 * y + (a + i) - (b + j) + (c + k) = 365 * (y - 1) + a - b + c + 365 + i - j + k" for a b c i j k :: int
      by simp
    have div: "y div 4 = (y - 1) div 4 + (if 4 dvd y then 1 else 0)" "y div 100 = (y - 1) div 100 + (if 100 dvd y then 1 else 0)"
      "y div 400 = (y - 1) div 400 + (if 400 dvd y then 1 else 0)"
      by (rule div_step, simp)+
    show ?thesis unfolding days_before_def div by (rule shift)
  qed
  also have "\<dots> = days_before y + (if leap y then 366 else 365)"
  proof -
    have "n + 365 + (if i then 1 else 0) - (if j then 1 else 0) + (if k then 1 else 0) =
        n + (if i \<and> (\<not> j \<or> k) then 366 else 365)" if "j \<longrightarrow> i" "k \<longrightarrow> j" for n :: int and i j k
      using that by (cases i; cases j; cases k) simp_all
    from this [of "100 dvd y" "4 dvd y" "400 dvd y"] 100 400 show ?thesis unfolding leap_def by blast
  qed
  finally show ?thesis unfolding sum .
qed

lemma month_lengths_pos: "28 * 12 \<le> sum_list (month_lengths y)"
  by (simp add: month_lengths_def)

function year_from :: "int \<Rightarrow> int \<Rightarrow> int" where
  "year_from d y = (if days_before (y + 1) \<le> d then year_from d (y + 1) else y)"
  by pat_completeness auto
termination
proof (relation "measure (\<lambda>(d, y). nat (d - days_before y))")
  fix d y assume "days_before (y + 1) \<le> d"
  with days_before_step [of y] month_lengths_pos [of y]
  show "((d, y + 1), (d, y)) \<in> measure (\<lambda>(d, y). nat (d - days_before y))" by simp
qed simp

declare year_from.simps [simp del]

text \<open>The year of a day; the loop starts at a year that is never too late, and takes few rounds.\<close>

definition year_of_day :: "int \<Rightarrow> int" where
  "year_of_day d = year_from d (d div 366 + 1)"

fun month_from :: "int list \<Rightarrow> int \<Rightarrow> int \<Rightarrow> int \<times> int" where
  "month_from [] m d = (m, d + 1)"
| "month_from (n # ns) m d = (if d < n then (m, d + 1) else month_from ns (m + 1) (d - n))"

definition civil :: "int \<Rightarrow> int \<times> int \<times> int" where
  "civil d = (let y = year_of_day d; (m, md) = month_from (month_lengths y) 1 (d - days_before y) in (y, m, md))"

definition days_of_civil :: "int \<Rightarrow> int \<Rightarrow> int \<Rightarrow> int" where
  "days_of_civil y m d = days_before y + sum_list (take (nat (m - 1)) (month_lengths y)) + (d - 1)"

definition civil_ok :: "int \<Rightarrow> int \<Rightarrow> int \<Rightarrow> bool" where
  "civil_ok y m d \<longleftrightarrow> 1 \<le> m \<and> m \<le> 12 \<and> 1 \<le> d \<and> d \<le> month_lengths y ! nat (m - 1)"

lemma year_from_bounds:
  "days_before y \<le> d \<Longrightarrow> days_before (year_from d y) \<le> d \<and> d < days_before (year_from d y + 1) \<and> y \<le> year_from d y"
proof (induction d y rule: year_from.induct)
  case (1 d y)
  show ?case
  proof (cases "days_before (y + 1) \<le> d")
    case True
    with 1 show ?thesis by (subst (1 2 3) year_from.simps) auto
  next
    case False
    with 1 show ?thesis by (subst (1 2 3) year_from.simps) auto
  qed
qed

lemma days_before_start:
  assumes "- 366 \<le> d"
  shows "days_before (d div 366 + 1) \<le> d"
proof -
  define a where "a = d div 366"
  have "366 * a + d mod 366 = d" unfolding a_def by (rule mult_div_mod_eq)
  moreover have "0 \<le> d mod 366" by simp
  ultimately have d: "366 * a \<le> d" by linarith
  have "- 366 div 366 \<le> a" unfolding a_def using assms by (intro zdiv_mono1) simp_all
  then have "- 1 \<le> a" by simp
  have "a div 4 - a div 100 + a div 400 \<le> a"
  proof (cases "0 \<le> a")
    case True
    have "a div 4 \<le> a div 1" "a div 400 \<le> a div 100" using True by (intro zdiv_mono2; simp)+
    then show ?thesis by simp
  next
    case False
    with \<open>- 1 \<le> a\<close> have "a = - 1" by linarith
    then show ?thesis by simp
  qed
  with d have "365 * a + a div 4 - a div 100 + a div 400 \<le> d" by linarith
  then show ?thesis by (simp add: days_before_def a_def)
qed

lemma month_from_inverse:
  "month_from ns m d = (m', md) \<Longrightarrow> 0 \<le> d \<Longrightarrow> d < sum_list ns \<Longrightarrow>
     m \<le> m' \<and> m' < m + int (length ns) \<and> 1 \<le> md \<and> md \<le> ns ! nat (m' - m) \<and>
     sum_list (take (nat (m' - m)) ns) + (md - 1) = d"
proof (induction ns arbitrary: m d)
  case (Cons n ns)
  show ?case
  proof (cases "d < n")
    case True
    with Cons.prems show ?thesis by auto
  next
    case False
    with Cons.prems have *: "m + 1 \<le> m' \<and> m' < m + 1 + int (length ns) \<and> 1 \<le> md \<and> md \<le> ns ! nat (m' - (m + 1)) \<and>
        sum_list (take (nat (m' - (m + 1))) ns) + (md - 1) = d - n"
      by (intro Cons.IH) simp_all
    then have "nat (m' - m) = Suc (nat (m' - (m + 1)))" by linarith
    with * show ?thesis by auto
  qed
qed simp

lemma civil_inverse:
  assumes "- 366 \<le> d" and "civil d = (y, m, md)"
  shows "days_of_civil y m md = d \<and> civil_ok y m md \<and> days_before y \<le> d \<and> d < days_before (y + 1)"
proof -
  from assms(2) have y: "y = year_of_day d" and mf: "month_from (month_lengths y) 1 (d - days_before y) = (m, md)"
    by (auto simp: civil_def Let_def split: prod.splits)
  have b: "days_before y \<le> d" "d < days_before (y + 1)"
    using year_from_bounds [OF days_before_start [OF assms(1)]] by (simp_all add: y year_of_day_def)
  have len: "length (month_lengths y) = 12" by (simp add: month_lengths_def)
  have "0 \<le> d - days_before y" "d - days_before y < sum_list (month_lengths y)"
    using b days_before_step [of y] by simp_all
  from month_from_inverse [OF mf this] b show ?thesis
    by (simp add: days_of_civil_def civil_ok_def len)
qed

lemma days_before_mono:
  assumes "y \<le> y'" shows "days_before y \<le> days_before y'"
  using assms
proof (induction y' rule: int_ge_induct)
  case (step i)
  with days_before_step [of i] month_lengths_pos [of i] show ?case by simp
qed simp

text \<open>The years an instant in range may have.\<close>

lemma year_range:
  assumes "- 366 \<le> d" "d < 3652059" and "days_before y \<le> d" "d < days_before (y + 1)"
  shows "0 \<le> y \<and> y \<le> 9999"
proof -
  have "days_before 0 = - 366" "days_before 10000 = 3652059" by (simp_all add: days_before_def)
  then show ?thesis
    using days_before_mono [of "y + 1" 0] days_before_mono [of 10000 y] assms by fastforce
qed


section \<open>Digits\<close>

text \<open>The last \<open>w\<close> decimal digits of a number that is not negative.\<close>

fun pad :: "nat \<Rightarrow> int \<Rightarrow> string" where
  "pad 0 n = []"
| "pad (Suc w) n = pad w (n div 10) @ [char_of (48 + n mod 10)]"

lemma length_pad [simp]: "length (pad w n) = w"
  by (induction w n rule: pad.induct) simp_all

lemma is_digit_pad: "list_all is_digit (pad w n)"
proof (induction w n rule: pad.induct)
  case (2 w n)
  have "is_digit (char_of (48 + n mod 10))"
    unfolding is_digit_def byte_def digit_char_range by simp
  with 2 show ?case by simp
qed simp

lemma digits_value_snoc: "digits_value (s @ [c]) = digits_value s * 10 + (byte c - 48)"
  by (simp add: digits_value_def)

lemma digits_value_pad: "digits_value (pad w n) = n mod 10 ^ w"
proof (induction w n rule: pad.induct)
  case (2 w n)
  have "n mod 10 ^ Suc w = 10 * (n div 10 mod 10 ^ w) + n mod 10"
    using zmod_zmult2_eq [of "10 ^ w" n 10] by simp
  with 2 show ?case by (simp add: digits_value_snoc byte_def digit_char_range)
qed (simp add: digits_value_def)

lemma digits_value_pad_small: "0 \<le> n \<Longrightarrow> n < 10 ^ w \<Longrightarrow> digits_value (pad w n) = n"
  by (simp add: digits_value_pad)

section \<open>Printing\<close>

definition fraction_text :: "int \<Rightarrow> string" where
  "fraction_text ns = (if ns = 0 then '''' else CHR ''.'' # rev (dropWhile (\<lambda>c. c = CHR ''0'') (rev (pad 9 ns))))"

definition day_text :: "int \<Rightarrow> string" where
  "day_text d = (case civil d of (y, m, md) \<Rightarrow> pad 4 y @ ''-'' @ pad 2 m @ ''-'' @ pad 2 md)"

definition clock_text :: "int \<Rightarrow> string" where
  "clock_text ns =
     pad 2 (ns div hour) @ '':'' @ pad 2 (ns div minute mod 60) @ '':'' @ pad 2 (ns div second mod 60) @ fraction_text (ns mod second)"

abbreviation day :: duration where "day \<equiv> 86400000000000"

definition time_text :: "go_time \<Rightarrow> string" where
  "time_text t = day_text (t div day) @ ''T'' @ clock_text (t mod day) @ ''Z''"

section \<open>Reading\<close>

definition number_fixed :: "nat \<Rightarrow> string \<Rightarrow> (int \<times> string) option" where
  "number_fixed w s =
     (if length (take w s) = w \<and> list_all is_digit (take w s) then Some (digits_value (take w s), drop w s) else None)"

text \<open>One or two digits, as the hour may have.\<close>

definition number_loose :: "string \<Rightarrow> (int \<times> string) option" where
  "number_loose s = (case number_fixed 2 s of None \<Rightarrow> number_fixed 1 s | Some r \<Rightarrow> Some r)"

fun expect :: "char \<Rightarrow> string \<Rightarrow> string option" where
  "expect c [] = None"
| "expect c (x # xs) = (if x = c then Some xs else None)"

definition read_date :: "string \<Rightarrow> (int \<times> string) option" where
  "read_date s = do {
     (y, s) \<leftarrow> number_fixed 4 s; s \<leftarrow> expect CHR ''-'' s;
     (m, s) \<leftarrow> number_fixed 2 s; s \<leftarrow> expect CHR ''-'' s;
     (d, s) \<leftarrow> number_fixed 2 s;
     if civil_ok y m d then Some (days_of_civil y m d, s) else None }"

text \<open>The digits after a point or comma, of which nine count.\<close>

definition read_fraction :: "string \<Rightarrow> int \<times> string" where
  "read_fraction s =
     (case s of
        p # c # r \<Rightarrow>
          if (p = CHR ''.'' \<or> p = CHR '','') \<and> is_digit c
          then let ds = take 9 (takeWhile is_digit (c # r))
               in (digits_value ds * 10 ^ (9 - length ds), dropWhile is_digit (c # r))
          else (0, s)
      | _ \<Rightarrow> (0, s))"

definition read_clock :: "string \<Rightarrow> (int \<times> string) option" where
  "read_clock s = do {
     (h, s) \<leftarrow> number_loose s; s \<leftarrow> expect CHR '':'' s;
     (m, s) \<leftarrow> number_fixed 2 s; s \<leftarrow> expect CHR '':'' s;
     (sec, s) \<leftarrow> number_fixed 2 s;
     if h < 24 \<and> m < 60 \<and> sec < 60
     then (case read_fraction s of (ns, s) \<Rightarrow> Some (h * hour + m * minute + sec * second + ns, s))
     else None }"

definition read_zone :: "string \<Rightarrow> (duration \<times> string) option" where
  "read_zone s =
     (case s of
        [] \<Rightarrow> None
      | z # r \<Rightarrow>
         if z = CHR ''Z'' then Some (0, r)
         else if z = CHR ''+'' \<or> z = CHR ''-'' then do {
           (h, r) \<leftarrow> number_fixed 2 r; r \<leftarrow> expect CHR '':'' r; (m, r) \<leftarrow> number_fixed 2 r;
           if h \<le> 24 \<and> m \<le> 60 then Some ((if z = CHR ''-'' then - 1 else 1) * (h * hour + m * minute), r) else None }
         else None)"

definition parse_time :: "string \<Rightarrow> go_time option" where
  "parse_time s = do {
     (d, s) \<leftarrow> read_date s; s \<leftarrow> expect CHR ''T'' s; (ns, s) \<leftarrow> read_clock s; (off, s) \<leftarrow> read_zone s;
     if s = [] then Some (d * day + ns - off) else None }"

section \<open>What is printed is read back\<close>

lemma number_fixed_pad: "0 \<le> n \<Longrightarrow> n < 10 ^ w \<Longrightarrow> number_fixed w (pad w n @ s) = Some (n, s)"
  by (simp add: number_fixed_def is_digit_pad digits_value_pad_small)

lemma number_loose_pad: "0 \<le> n \<Longrightarrow> n < 100 \<Longrightarrow> number_loose (pad 2 n @ s) = Some (n, s)"
  by (simp add: number_loose_def number_fixed_pad)

lemma digits_value_zeros: "digits_value (s @ replicate k CHR ''0'') = digits_value s * 10 ^ k"
  by (induction k) (simp_all add: digits_value_snoc byte_def replicate_append_same [symmetric] flip: append_assoc)

lemma strip_zeros:
  fixes s :: string
  defines "t \<equiv> rev (dropWhile (\<lambda>c. c = CHR ''0'') (rev s))"
  shows "s = t @ replicate (length s - length t) CHR ''0''"
proof -
  let ?z = "\<lambda>c. c = CHR ''0''"
  have "takeWhile ?z (rev s) = replicate (length (takeWhile ?z (rev s))) CHR ''0''"
    by (rule replicate_eqI) (auto dest: set_takeWhileD)
  moreover have "length (takeWhile ?z (rev s)) + length (dropWhile ?z (rev s)) = length s"
    by (metis length_append length_rev takeWhile_dropWhile_id)
  then have "length (takeWhile ?z (rev s)) = length s - length t" by (simp add: t_def)
  ultimately have "rev s = replicate (length s - length t) CHR ''0'' @ dropWhile ?z (rev s)"
    using takeWhile_dropWhile_id [of ?z "rev s"] by simp
  from arg_cong [OF this, of rev] show ?thesis by (simp add: t_def)
qed

lemma read_fraction_text:
  assumes "0 \<le> ns" "ns < second"
  shows "read_fraction (fraction_text ns @ CHR ''Z'' # s) = (ns, CHR ''Z'' # s)"
proof (cases "ns = 0")
  case True
  then show ?thesis by (cases s) (simp_all add: fraction_text_def read_fraction_def)
next
  case False
  define ds where ds: "ds = rev (dropWhile (\<lambda>c. c = CHR ''0'') (rev (pad 9 ns)))"
  define k where "k = 9 - length ds"
  have k: "pad 9 ns = ds @ replicate k CHR ''0''"
    using strip_zeros [of "pad 9 ns"] unfolding k_def ds length_pad .
  have val: "ns = digits_value ds * 10 ^ k"
    using assms digits_value_zeros [of ds k] digits_value_pad_small [of ns 9] by (simp add: k)
  have len: "length ds \<le> 9" using arg_cong [OF k, of length] by simp
  have dig: "list_all is_digit ds" using is_digit_pad [of 9 ns] by (simp add: k)
  have "ds \<noteq> []" using val False by (auto simp: digits_value_def)
  then obtain c r where cr: "ds = c # r" by (cases ds) auto
  have z: "\<not> is_digit CHR ''Z''" by (simp add: is_digit_def byte_def)
  have tw: "takeWhile is_digit (ds @ CHR ''Z'' # s) = ds" "dropWhile is_digit (ds @ CHR ''Z'' # s) = CHR ''Z'' # s"
    using dig z by (simp_all add: takeWhile_append list_all_iff)
  have c: "is_digit c" using dig cr by simp
  have "read_fraction (CHR ''.'' # ds @ CHR ''Z'' # s) = (digits_value ds * 10 ^ (9 - length ds), CHR ''Z'' # s)"
    using tw len c unfolding cr by (simp add: read_fraction_def)
  also have "\<dots> = (ns, CHR ''Z'' # s)" using val by (simp add: k_def)
  finally show ?thesis using False by (simp add: fraction_text_def flip: ds)
qed

lemma clock_split:
  fixes ns :: int
  shows "ns div hour * hour + ns div minute mod 60 * minute + ns div second mod 60 * second + ns mod second = ns"
proof -
  have "ns div second = ns div minute * 60 + ns div second mod 60"
    using div_mult_mod_eq [of "ns div second" 60] zdiv_zmult2_eq [of 60 ns second] by simp
  moreover have "ns div minute = ns div hour * 60 + ns div minute mod 60"
    using div_mult_mod_eq [of "ns div minute" 60] zdiv_zmult2_eq [of 60 ns minute] by simp
  moreover have "ns = ns div second * second + ns mod second" by simp
  ultimately show ?thesis by linarith
qed

lemma div_less:
  fixes n k m :: int
  assumes "0 < k" "n < m * k" shows "n div k < m"
proof (rule ccontr)
  assume "\<not> n div k < m"
  then have "m * k \<le> n div k * k" using assms(1) by simp
  also have "\<dots> \<le> n" using div_mult_mod_eq [of n k] pos_mod_sign [OF assms(1), of n] by linarith
  finally show False using assms(2) by simp
qed

lemma read_clock_parts:
  assumes "0 \<le> h" "h < 24" and "0 \<le> m" "m < 60" and "0 \<le> sec" "sec < 60" and "0 \<le> f" "f < second"
  shows "read_clock (pad 2 h @ '':'' @ pad 2 m @ '':'' @ pad 2 sec @ fraction_text f @ CHR ''Z'' # s) =
    Some (h * hour + m * minute + sec * second + f, CHR ''Z'' # s)"
  using assms by (simp add: read_clock_def number_loose_pad number_fixed_pad read_fraction_text)

lemma read_clock_text:
  assumes "0 \<le> ns" "ns < day"
  shows "read_clock (clock_text ns @ CHR ''Z'' # s) = Some (ns, CHR ''Z'' # s)"
proof -
  have "0 \<le> ns div hour" "ns div hour < 24"
    using assms by (simp_all add: pos_imp_zdiv_nonneg_iff div_less)
  moreover have "0 \<le> ns div minute mod 60" "ns div minute mod 60 < 60" "0 \<le> ns div second mod 60" "ns div second mod 60 < 60"
    "0 \<le> ns mod second" "ns mod second < second"
    by simp_all
  ultimately show ?thesis
    unfolding clock_text_def append_assoc by (subst read_clock_parts) (assumption | simp only: clock_split)+
qed

lemma read_day_text:
  assumes "- 366 \<le> d" "d < 3652059"
  shows "read_date (day_text d @ s) = Some (d, s)"
proof -
  obtain y m md where c: "civil d = (y, m, md)" by (cases "civil d")
  note i = civil_inverse [OF assms(1) c]
  have y: "0 \<le> y" "y < 10 ^ 4" using year_range [OF assms, of y] i by auto
  have "month_lengths y ! nat (m - 1) \<le> 31" if "1 \<le> m" "m \<le> 12"
  proof -
    have "month_lengths y ! nat (m - 1) \<in> set (month_lengths y)" using that by (intro nth_mem) (simp add: month_lengths_def)
    then show ?thesis by (auto simp: month_lengths_def split: if_splits)
  qed
  with i have m: "0 \<le> m" "m < 10 ^ 2" "0 \<le> md" "md < 10 ^ 2" by (auto simp: civil_ok_def)
  show ?thesis
    using i by (simp add: read_date_def day_text_def c number_fixed_pad [OF y] number_fixed_pad [OF m(1,2)] number_fixed_pad [OF m(3,4)])
qed

lemma parse_time_text:
  assumes "- (366 * 24 * hour) \<le> t" "t < 3652059 * 24 * hour"
  shows "parse_time (time_text t) = Some t"
proof -
  have d: "- 366 \<le> t div day" "t div day < 3652059"
    using assms zdiv_mono1 [of "- (366 * 24 * hour)" t day] by (simp_all add: div_less)
  have ns: "0 \<le> t mod day" "t mod day < day" by simp_all
  have "t div day * day + t mod day = t" by simp
  then show ?thesis
    by (simp add: parse_time_def time_text_def read_day_text [OF d] read_clock_text [OF ns] read_zone_def)
qed

end
