(* ===== verification/Json.thy ===== *)
theory Json
  imports Model GoTime
begin

text \<open>
  Package \<open>encoding/json\<close> as the program uses it. A \<open>json\<close> is a value after lexing: texts are decoded, and a number is
  its sign, its magnitude and whether the literal is an integer, which is what the decoders of floats and integers look
  at. A codec is what \<open>Marshal\<close> and \<open>Unmarshal\<close> do for one Go type: \<open>cd_put\<close> fails where \<open>Marshal\<close> does, and
  \<open>cd_get\<close> decodes into an old value, as \<open>Unmarshal\<close> does, with the flag of \<open>DisallowUnknownFields\<close>. Structs are
  lists of fields; codecs of slices, pointers and maps are built from those of their elements.

  The order of the keys is that of the fields. A nil slice is printed like an empty one, and a second occurrence of a key
  with an array decodes over the first one, as it does in Go as long as the array does not shrink in between.
\<close>

section \<open>Values\<close>

datatype number = Number (nm_neg: bool) (nm_abs: rat) (nm_int: bool)

datatype json =
    J_Null
  | J_Bool bool
  | J_Num number
  | J_Str string
  | J_Arr "json list"
  | J_Obj "(string \<times> json) list"

text \<open>The decoder of a number into a float: out of range is an error.\<close>

definition j_number :: "number \<Rightarrow> f64 option" where
  "j_number n = (let v = f_round (nm_neg n) (nm_abs n) in if f_finite v then Some v else None)"

fun j_float :: "json \<Rightarrow> f64 \<Rightarrow> f64 option" where
  "j_float (J_Num n) old = j_number n"
| "j_float J_Null old = Some old"
| "j_float _ old = None"

fun j_string :: "json \<Rightarrow> string \<Rightarrow> string option" where
  "j_string (J_Str s) old = Some s"
| "j_string J_Null old = Some old"
| "j_string _ old = None"

text \<open>A value decoded into \<open>any\<close>: fails only on a number out of range.\<close>

function any_ok :: "json \<Rightarrow> bool" where
  "any_ok J_Null = True"
| "any_ok (J_Bool b) = True"
| "any_ok (J_Num n) = (j_number n \<noteq> None)"
| "any_ok (J_Str s) = True"
| "any_ok (J_Arr xs) = list_all any_ok xs"
| "any_ok (J_Obj kvs) = list_all (\<lambda>kv. any_ok (snd kv)) kvs"
  by pat_completeness auto
termination
proof (relation "measure size")
  fix kvs kv assume "kv \<in> set (kvs :: (string \<times> json) list)"
  then show "(snd kv, J_Obj kvs) \<in> measure size"
    by (induction kvs) (auto simp: less_Suc_eq_le)
qed (auto simp: less_Suc_eq_le size_list_estimation')

type_synonym attributes = "string \<rightharpoonup> json"

fun j_attributes :: "json \<Rightarrow> attributes \<Rightarrow> attributes option" where
  "j_attributes (J_Obj kvs) old =
     (if list_all (\<lambda>kv. any_ok (snd kv)) kvs then Some (foldl (\<lambda>m (k, v). m(k \<mapsto> v)) old kvs) else None)"
| "j_attributes J_Null old = Some Map.empty"
| "j_attributes _ old = None"

text \<open>
  Keys are compared after folding: letters to lower case, and the two characters outside ASCII that fold to
  \<open>k\<close> and \<open>s\<close>.
\<close>

definition is_upper :: "char \<Rightarrow> bool" where
  "is_upper c \<longleftrightarrow> 65 \<le> byte c \<and> byte c \<le> 90"

fun fold_name :: "string \<Rightarrow> string" where
  "fold_name (a # b # c # s) =
     (if [a, b, c] = [CHR 0xE2, CHR 0x84, CHR 0xAA] then CHR ''k'' # fold_name s
      else if [a, b] = [CHR 0xC5, CHR 0xBF] then CHR ''s'' # fold_name (c # s)
      else (if is_upper a then char_of (of_char a + 32 :: nat) else a) # fold_name (b # c # s))"
| "fold_name [a, b] = (if [a, b] = [CHR 0xC5, CHR 0xBF] then ''s''
      else (if is_upper a then char_of (of_char a + 32 :: nat) else a) # fold_name [b])"
| "fold_name [a] = [if is_upper a then char_of (of_char a + 32 :: nat) else a]"
| "fold_name [] = []"

definition j_struct :: "(string \<Rightarrow> json \<Rightarrow> 'a \<Rightarrow> 'a option) \<Rightarrow> 'a \<Rightarrow> json \<Rightarrow> 'a option" where
  "j_struct field zero j =
    (case j of
       J_Obj kvs \<Rightarrow> fold_opt (\<lambda>(k, v). field (fold_name k) v) kvs zero
     | J_Null \<Rightarrow> Some zero
     | _ \<Rightarrow> None)"

definition j_slice :: "(json \<Rightarrow> 'a option) \<Rightarrow> json \<Rightarrow> 'a list option" where
  "j_slice dec j =
    (case j of
       J_Arr xs \<Rightarrow> those (map dec xs)
     | J_Null \<Rightarrow> Some []
     | _ \<Rightarrow> None)"


section \<open>Numbers, texts and instants\<close>

definition pow10 :: "int \<Rightarrow> rat" where
  "pow10 e = (if 0 \<le> e then 10 ^ nat e else 1 / 10 ^ nat (- e))"

text \<open>The exponent \<open>e\<close> with \<open>10^e \<le> q < 10^(e+1)\<close>, for positive \<open>q\<close>.\<close>

definition ilog10 :: "rat \<Rightarrow> int" where
  "ilog10 q = (let (n, d) = quotient_of q; e = int (length (digits n)) - int (length (digits d))
     in if pow10 e \<le> q then e else e - 1)"

text \<open>The decimals of \<open>n\<close> digits next to \<open>q\<close>, the nearer one first.\<close>

definition decimals :: "rat \<Rightarrow> nat \<Rightarrow> rat list" where
  "decimals q n = (let p = pow10 (ilog10 q - int n + 1); lo = of_int \<lfloor>q / p\<rfloor> * p; hi = lo + p
     in if q - lo \<le> hi - q then [lo, hi] else [hi, lo])"

text \<open>
  The shortest decimal that rounds to the same float, the nearest one of its length; seventeen digits are enough for
  every float, so that the alternative does not occur.
\<close>

definition shortest :: "rat \<Rightarrow> rat" where
  "shortest q =
     (if q = 0 then 0
      else case find (\<lambda>c. f_round False c = f_round False q) (concat (map (decimals q) [1..<18])) of
        Some c \<Rightarrow> c | None \<Rightarrow> q)"

definition float_number :: "bool \<Rightarrow> rat \<Rightarrow> number" where
  "float_number s q = (let c = shortest q in Number s c (snd (quotient_of c) = 1 \<and> c < 10 ^ 21))"

lemma shortest_rounds: "f_round False (shortest q) = f_round False q"
  by (auto simp: shortest_def find_Some_iff split: option.splits)

lemma f_round_sign:
  "f_round s q = (case f_round False q of F_Fin _ v \<Rightarrow> F_Fin s v | F_Inf _ \<Rightarrow> F_Inf s | F_NaN \<Rightarrow> F_NaN)"
  by (simp add: f_round_def Let_def)

lemma float_number_value: "f_round (nm_neg (float_number s q)) (nm_abs (float_number s q)) = f_round s q"
  by (simp add: float_number_def Let_def f_round_sign [of s] shortest_rounds)

text \<open>The encoding of a rune at the beginning of a text, in bytes; 0 when there is none.\<close>

definition continues :: "char \<Rightarrow> bool" where
  "continues c \<longleftrightarrow> 128 \<le> byte c \<and> byte c < 192"

definition rune_size :: "string \<Rightarrow> nat" where
  "rune_size s =
    (case s of
       [] \<Rightarrow> 0
     | a # r \<Rightarrow>
        if byte a < 128 then 1
        else case r of
          [] \<Rightarrow> 0
        | b # r \<Rightarrow>
           if 194 \<le> byte a \<and> byte a < 224 then (if continues b then 2 else 0)
           else case r of
             [] \<Rightarrow> 0
           | c # r \<Rightarrow>
              if 224 \<le> byte a \<and> byte a < 240
              then (if continues b \<and> continues c \<and> (byte a = 224 \<longrightarrow> 160 \<le> byte b) \<and> (byte a = 237 \<longrightarrow> byte b < 160) then 3 else 0)
              else case r of
                [] \<Rightarrow> 0
              | d # _ \<Rightarrow>
                 if 240 \<le> byte a \<and> byte a < 245 \<and> continues b \<and> continues c \<and> continues d \<and>
                    (byte a = 240 \<longrightarrow> 144 \<le> byte b) \<and> (byte a = 244 \<longrightarrow> byte b < 144) then 4 else 0)"

text \<open>A text as \<open>Marshal\<close> prints it: a byte that is part of no rune becomes the replacement character.\<close>

function utf8_clean :: "string \<Rightarrow> string" where
  "utf8_clean s =
    (case s of
       [] \<Rightarrow> []
     | c # r \<Rightarrow>
        if rune_size s = 0 then [CHR 0xEF, CHR 0xBF, CHR 0xBD] @ utf8_clean r
        else take (rune_size s) s @ utf8_clean (drop (rune_size s) s))"
  by pat_completeness auto
termination
  by (relation "measure length") auto

declare utf8_clean.simps [simp del]

definition utf8_ok :: "string \<Rightarrow> bool" where
  "utf8_ok s \<longleftrightarrow> utf8_clean s = s"

lemma utf8_ascii: "list_all (\<lambda>c. byte c < 128) s \<Longrightarrow> utf8_ok s"
  unfolding utf8_ok_def
proof (induction s)
  case (Cons c s)
  then show ?case by (subst utf8_clean.simps) (simp add: rune_size_def)
qed (subst utf8_clean.simps, simp)

section \<open>Codecs\<close>

record 'v codec =
  cd_put :: "'v \<Rightarrow> json option"
  cd_get :: "bool \<Rightarrow> json \<Rightarrow> 'v \<Rightarrow> 'v option"

definition float_codec :: "f64 codec" where
  "float_codec =
    \<lparr>cd_put = (\<lambda>v. case v of F_Fin s q \<Rightarrow> Some (J_Num (float_number s q)) | _ \<Rightarrow> None), cd_get = (\<lambda>_. j_float)\<rparr>"

definition string_codec :: "string codec" where
  "string_codec = \<lparr>cd_put = (\<lambda>s. Some (J_Str (utf8_clean s))), cd_get = (\<lambda>_. j_string)\<rparr>"

definition bool_codec :: "bool codec" where
  "bool_codec = \<lparr>cd_put = (\<lambda>b. Some (J_Bool b)),
     cd_get = (\<lambda>_ j old. case j of J_Bool b \<Rightarrow> Some b | J_Null \<Rightarrow> Some old | _ \<Rightarrow> None)\<rparr>"

text \<open>Integers are read from integer literals in range only; an unsigned one has no sign.\<close>

definition u64_codec :: "u64 codec" where
  "u64_codec = \<lparr>cd_put = (\<lambda>w. Some (J_Num (Number False (of_int (uint w)) True))),
     cd_get = (\<lambda>_ j old. case j of
         J_Num n \<Rightarrow> if nm_int n \<and> \<not> nm_neg n \<and> nm_abs n < 2 ^ 64 then Some (word_of_int \<lfloor>nm_abs n\<rfloor>) else None
       | J_Null \<Rightarrow> Some old | _ \<Rightarrow> None)\<rparr>"

definition int_codec :: "int codec" where
  "int_codec = \<lparr>cd_put = (\<lambda>i. Some (J_Num (Number (i < 0) (of_int \<bar>i\<bar>) True))),
     cd_get = (\<lambda>_ j old. case j of
         J_Num n \<Rightarrow>
           let i = (if nm_neg n then - \<lfloor>nm_abs n\<rfloor> else \<lfloor>nm_abs n\<rfloor>)
           in if nm_int n \<and> - (2 ^ 63) \<le> i \<and> i < 2 ^ 63 then Some i else None
       | J_Null \<Rightarrow> Some old | _ \<Rightarrow> None)\<rparr>"

definition time_codec :: "go_time codec" where
  "time_codec = \<lparr>cd_put = (\<lambda>t. if json_time_ok t then Some (J_Str (time_text t)) else None),
     cd_get = (\<lambda>_ j old. case j of J_Str s \<Rightarrow> parse_time s | J_Null \<Rightarrow> Some old | _ \<Rightarrow> None)\<rparr>"

text \<open>A pointer: \<open>null\<close> is nil, and a nil pointer is decoded into a fresh value.\<close>

definition ptr_codec :: "'v codec \<Rightarrow> 'v \<Rightarrow> 'v option codec" where
  "ptr_codec c zero =
    \<lparr>cd_put = (\<lambda>p. case p of None \<Rightarrow> Some J_Null | Some v \<Rightarrow> cd_put c v),
     cd_get = (\<lambda>strict j old. case j of
         J_Null \<Rightarrow> Some None
       | _ \<Rightarrow> map_option Some (cd_get c strict j (case old of None \<Rightarrow> zero | Some v \<Rightarrow> v)))\<rparr>"

text \<open>A slice: the elements are decoded over the old ones.\<close>

fun get_elements :: "(json \<Rightarrow> 'v \<Rightarrow> 'v option) \<Rightarrow> 'v \<Rightarrow> json list \<Rightarrow> 'v list \<Rightarrow> 'v list option" where
  "get_elements get zero [] old = Some []"
| "get_elements get zero (j # js) old =
    (case get j (case old of [] \<Rightarrow> zero | v # _ \<Rightarrow> v) of
       None \<Rightarrow> None
     | Some v \<Rightarrow> map_option ((#) v) (get_elements get zero js (tl old)))"

definition get_slice :: "(json \<Rightarrow> 'v \<Rightarrow> 'v option) \<Rightarrow> 'v \<Rightarrow> json \<Rightarrow> 'v list \<Rightarrow> 'v list option" where
  "get_slice get zero j old =
    (case j of J_Arr js \<Rightarrow> get_elements get zero js old | J_Null \<Rightarrow> Some [] | _ \<Rightarrow> None)"

definition list_codec :: "'v codec \<Rightarrow> 'v \<Rightarrow> 'v list codec" where
  "list_codec c zero =
    \<lparr>cd_put = (\<lambda>vs. map_option J_Arr (those (map (cd_put c) vs))), cd_get = (\<lambda>strict. get_slice (cd_get c strict) zero)\<rparr>"

text \<open>A map with text keys, printed in the order of its keys; every value is decoded afresh.\<close>

definition map_codec :: "'v codec \<Rightarrow> 'v \<Rightarrow> (string \<rightharpoonup> 'v) option codec" where
  "map_codec c zero =
    \<lparr>cd_put = (\<lambda>m. case m of
         None \<Rightarrow> Some J_Null
       | Some f \<Rightarrow> map_option J_Obj (those (map (\<lambda>k. map_option (Pair (utf8_clean k)) (Option.bind (f k) (cd_put c)))
                     (sorted_list_of_set (dom f))))),
     cd_get = (\<lambda>strict j old. case j of
         J_Null \<Rightarrow> Some None
       | J_Obj kvs \<Rightarrow> map_option Some (fold_opt (\<lambda>(k, v) f. map_option (\<lambda>x. f(k \<mapsto> x)) (cd_get c strict v zero)) kvs
                       (case old of None \<Rightarrow> Map.empty | Some f \<Rightarrow> f))
       | _ \<Rightarrow> None)\<rparr>"


section \<open>Structs\<close>

text \<open>
  A field: its name, what it prints (\<open>Some None\<close> when it is omitted) and how it is decoded. \<open>tagged\<close> makes one of a
  selector, its update and a codec; \<open>omit\<close> is the condition of \<open>omitempty\<close>.
\<close>

record 'a json_field =
  jf_name :: string
  jf_put :: "'a \<Rightarrow> json option option"
  jf_get :: "bool \<Rightarrow> json \<Rightarrow> 'a \<Rightarrow> 'a option"

definition tagged ::
  "string \<Rightarrow> ('v \<Rightarrow> bool) \<Rightarrow> ('a \<Rightarrow> 'v) \<Rightarrow> (('v \<Rightarrow> 'v) \<Rightarrow> 'a \<Rightarrow> 'a) \<Rightarrow> 'v codec \<Rightarrow> 'a json_field" where
  "tagged name omit sel upd c =
    \<lparr>jf_name = name,
     jf_put = (\<lambda>x. if omit (sel x) then Some None else map_option Some (cd_put c (sel x))),
     jf_get = (\<lambda>strict j x. map_option (\<lambda>v. upd (\<lambda>_. v) x) (cd_get c strict j (sel x)))\<rparr>"

abbreviation always :: "'v \<Rightarrow> bool" where
  "always \<equiv> \<lambda>_. False"

fun put_fields :: "'a json_field list \<Rightarrow> 'a \<Rightarrow> (string \<times> json) list option" where
  "put_fields [] x = Some []"
| "put_fields (f # fs) x =
    (case jf_put f x of
       None \<Rightarrow> None
     | Some None \<Rightarrow> put_fields fs x
     | Some (Some j) \<Rightarrow> map_option ((#) (jf_name f, j)) (put_fields fs x))"

definition get_member :: "'a json_field list \<Rightarrow> bool \<Rightarrow> string \<times> json \<Rightarrow> 'a \<Rightarrow> 'a option" where
  "get_member fs strict kv x =
    (case find (\<lambda>f. jf_name f = fold_name (fst kv)) fs of
       Some f \<Rightarrow> jf_get f strict (snd kv) x
     | None \<Rightarrow> if strict then None else Some x)"

definition struct_codec :: "'a json_field list \<Rightarrow> 'a codec" where
  "struct_codec fs =
    \<lparr>cd_put = (\<lambda>x. map_option J_Obj (put_fields fs x)),
     cd_get = (\<lambda>strict j x. case j of J_Obj kvs \<Rightarrow> fold_opt (get_member fs strict) kvs x | J_Null \<Rightarrow> Some x | _ \<Rightarrow> None)\<rparr>"

section \<open>What a codec promises\<close>

text \<open>A value is read back as \<open>w\<close> from what is printed of it.\<close>

definition reads_back :: "'v codec \<Rightarrow> 'v \<Rightarrow> 'v \<Rightarrow> 'v \<Rightarrow> bool" where
  "reads_back c zero v w \<longleftrightarrow> (\<forall>strict j. cd_put c v = Some j \<longrightarrow> cd_get c strict j zero = Some w)"

text \<open>
  The contract of a codec: it prints the values that \<open>marshals\<close> accepts, and those of \<open>keeps\<close> come back as \<open>kept\<close>,
  whether unknown fields are allowed or not.
\<close>

locale json_codec =
  fixes c :: "'v codec" and zero :: 'v and marshals keeps :: "'v \<Rightarrow> bool" and kept :: "'v \<Rightarrow> 'v"
  assumes put_None: "cd_put c v = None \<longleftrightarrow> \<not> marshals v"
    and get_put: "keeps v \<Longrightarrow> reads_back c zero v (kept v)"
begin

lemma round_trip:
  assumes "marshals v" and "keeps v"
  shows "\<exists>j. cd_put c v = Some j \<and> cd_get c strict j zero = Some (kept v)"
  using put_None [of v] get_put [OF assms(2)] assms(1) by (auto simp: reads_back_def)

end

subsection \<open>Leaves\<close>

text \<open>The values of the model that a \<open>float64\<close> can have, without the negative zero, which \<open>jsonb\<close> and \<open>omitempty\<close> drop.\<close>

definition float_kept :: "f64 \<Rightarrow> bool" where
  "float_kept v \<longleftrightarrow> (case v of F_Fin s q \<Rightarrow> f_round s q = v \<and> (q = 0 \<longrightarrow> \<not> s) | _ \<Rightarrow> True)"

definition int_kept :: "int \<Rightarrow> bool" where
  "int_kept i \<longleftrightarrow> - (2 ^ 63) \<le> i \<and> i < 2 ^ 63"

interpretation float_json: json_codec float_codec f_zero f_finite float_kept "\<lambda>v. v"
  by unfold_locales
    (auto simp: float_codec_def f_finite_def reads_back_def float_kept_def j_number_def float_number_value split: f64.splits)

interpretation string_json: json_codec string_codec "''''" "\<lambda>_. True" utf8_ok "\<lambda>s. s"
  by unfold_locales (auto simp: string_codec_def reads_back_def utf8_ok_def)

interpretation bool_json: json_codec bool_codec False "\<lambda>_. True" "\<lambda>_. True" "\<lambda>b. b"
  by unfold_locales (auto simp: bool_codec_def reads_back_def)

lemma floor_unsigned: "\<lfloor>unsigned (w :: u64) :: rat\<rfloor> = uint w"
  using floor_of_int [where 'a = rat, of "uint w"] unfolding of_int_uint .

lemma unsigned_u64_less: "(unsigned (w :: u64) :: rat) < 18446744073709551616"
proof -
  have "rat_of_int (uint w) < rat_of_int 18446744073709551616"
    using uint_lt2p [of w] by (simp only: of_int_less_iff) simp
  then show ?thesis by simp
qed

interpretation u64_json: json_codec u64_codec 0 "\<lambda>_. True" "\<lambda>_. True" "\<lambda>w. w"
  by unfold_locales (auto simp: u64_codec_def reads_back_def floor_unsigned unsigned_u64_less)

interpretation int_json: json_codec int_codec 0 "\<lambda>_. True" int_kept "\<lambda>i. i"
  by unfold_locales (auto simp: int_codec_def reads_back_def int_kept_def Let_def)

lemma time_read_back: "json_time_ok t \<Longrightarrow> parse_time (time_text t) = Some t"
  by (rule parse_time_text) (simp_all add: json_time_ok_def)

interpretation time_json: json_codec time_codec 0 json_time_ok "\<lambda>_. True" "\<lambda>t. t"
  by unfold_locales (auto simp: time_codec_def reads_back_def time_read_back)

subsection \<open>Slices, pointers and maps\<close>

lemma those_map_None: "those (map f xs) = None \<longleftrightarrow> (\<exists>x \<in> set xs. f x = None)"
  by (induction xs) (auto split: option.splits)

lemma list_reads_back:
  assumes "\<And>v. v \<in> set vs \<Longrightarrow> reads_back c zero v (k v)"
  shows "reads_back (list_codec c zero) [] vs (map k vs)"
proof -
  have "get_elements (cd_get c strict) zero js [] = Some (map k vs)" if "those (map (cd_put c) vs) = Some js" for strict js
    using that assms
  proof (induction vs arbitrary: js)
    case (Cons v vs)
    from Cons.prems(1) obtain x js' where js: "cd_put c v = Some x" "those (map (cd_put c) vs) = Some js'" "js = x # js'"
      by (auto split: option.splits)
    have "reads_back c zero v (k v)" by (simp add: Cons.prems)
    then have "cd_get c strict x zero = Some (k v)" using js(1) by (simp add: reads_back_def)
    moreover have "get_elements (cd_get c strict) zero js' [] = Some (map k vs)"
      using Cons.IH [OF js(2)] Cons.prems(2) by simp
    ultimately show ?case by (simp add: js(3))
  qed simp
  then show ?thesis by (auto simp: reads_back_def list_codec_def get_slice_def)
qed

lemma list_put_None: "cd_put (list_codec c zero) vs = None \<longleftrightarrow> (\<exists>v \<in> set vs. cd_put c v = None)"
  by (simp add: list_codec_def those_map_None)

lemma list_json:
  assumes "json_codec c zero m n k"
  shows "json_codec (list_codec c zero) [] (list_all m) (list_all n) (map k)"
  using assms list_reads_back [of _ c zero k]
  by (simp add: json_codec_def list_all_iff list_put_None del: not_None_eq)

text \<open>A pointer reads back unless its target is printed as \<open>null\<close>.\<close>

lemma ptr_reads_back:
  assumes "\<And>v. p = Some v \<Longrightarrow> reads_back c zero v (k v) \<and> cd_put c v \<noteq> Some J_Null"
  shows "reads_back (ptr_codec c zero) None p (map_option k p)"
  using assms by (auto simp: reads_back_def ptr_codec_def split: option.splits json.splits)

lemma ptr_put_None: "cd_put (ptr_codec c zero) p = None \<longleftrightarrow> (\<exists>v. p = Some v \<and> cd_put c v = None)"
  by (auto simp: ptr_codec_def split: option.splits)


lemma map_reads_back:
  assumes "finite (dom f)" and "\<And>k v. f k = Some v \<Longrightarrow> reads_back c zero v v" and "\<And>k. k \<in> dom f \<Longrightarrow> utf8_ok k"
  shows "reads_back (map_codec c zero) None (Some f) (Some f)"
proof -
  let ?put = "\<lambda>k. map_option (Pair (utf8_clean k)) (Option.bind (f k) (cd_put c))"
  let ?get = "\<lambda>strict (k, v) g. map_option (\<lambda>x. g(k \<mapsto> x)) (cd_get c strict v zero)"
  have step: "fold_opt (?get strict) kvs g = Some (g ++ (f |` set ks))"
    if "those (map ?put ks) = Some kvs" "set ks \<subseteq> dom f" for ks kvs g strict
    using that
  proof (induction ks arbitrary: kvs g)
    case (Cons k ks)
    then obtain v j kvs' where kv: "f k = Some v" "cd_put c v = Some j" "those (map ?put ks) = Some kvs'" "kvs = (utf8_clean k, j) # kvs'"
      by (auto split: option.splits bind_splits)
    have "cd_get c strict j zero = Some v" using assms(2) [OF kv(1)] kv(2) by (simp add: reads_back_def)
    moreover have "utf8_clean k = k" using assms(3) [of k] kv(1) by (auto simp: utf8_ok_def)
    moreover have "g(k \<mapsto> v) ++ (f |` set ks) = g ++ (f |` set (k # ks))"
      using kv(1) by (auto simp: fun_eq_iff map_add_def restrict_map_def split: option.splits)
    ultimately show ?case using Cons.IH [OF kv(3)] Cons.prems(2) by (simp add: kv(4) del: fun_upd_apply)
  qed simp
  have set: "set (sorted_list_of_set (dom f)) = dom f" using assms(1) by simp
  then have "f |` set (sorted_list_of_set (dom f)) = f" by (auto simp: fun_eq_iff restrict_map_def domIff)
  with step [of "sorted_list_of_set (dom f)" _ _ Map.empty] set show ?thesis
    by (auto simp: reads_back_def map_codec_def)
qed

lemma map_put_None:
  "finite (dom f) \<Longrightarrow> cd_put (map_codec c zero) (Some f) = None \<longleftrightarrow> (\<exists>v \<in> ran f. cd_put c v = None)"
proof -
  assume "finite (dom f)"
  then have "cd_put (map_codec c zero) (Some f) = None \<longleftrightarrow> (\<exists>k \<in> dom f. Option.bind (f k) (cd_put c) = None)"
    by (simp add: map_codec_def those_map_None)
  also have "\<dots> \<longleftrightarrow> (\<exists>v \<in> ran f. cd_put c v = None)" by (force simp: ran_def dom_def)
  finally show ?thesis .
qed

lemma map_put_nil [simp]: "cd_put (map_codec c zero) None = Some J_Null"
  by (simp add: map_codec_def)

subsection \<open>Structs\<close>

text \<open>
  \<open>builds all fs x a b\<close>: reading what the fields \<open>fs\<close> print of \<open>x\<close> turns \<open>a\<close> into \<open>b\<close>, when \<open>all\<close> are the fields of
  the struct.
\<close>

definition builds :: "'a json_field list \<Rightarrow> 'a json_field list \<Rightarrow> 'a \<Rightarrow> 'a \<Rightarrow> 'a \<Rightarrow> bool" where
  "builds all fs x a b \<longleftrightarrow>
     (\<forall>strict kvs. put_fields fs x = Some kvs \<longrightarrow> fold_opt (get_member all strict) kvs a = Some b)"

lemma builds_Nil: "builds all [] x a a"
  by (simp add: builds_def)

lemma builds_field:
  assumes "builds all fs x (upd (\<lambda>_. w) a) b"
    and "find (\<lambda>f. jf_name f = fold_name name) all = Some (tagged name omit sel upd c)"
    and "\<not> omit (sel x) \<Longrightarrow> reads_back c (sel a) (sel x) w" and "omit (sel x) \<Longrightarrow> upd (\<lambda>_. w) a = a"
  shows "builds all (tagged name omit sel upd c # fs) x a b"
  unfolding builds_def
proof (intro allI impI)
  fix strict kvs assume put: "put_fields (tagged name omit sel upd c # fs) x = Some kvs"
  show "fold_opt (get_member all strict) kvs a = Some b"
  proof (cases "omit (sel x)")
    case True
    with put have "put_fields fs x = Some kvs" by (simp add: tagged_def)
    with assms(4) [OF True] assms(1) show ?thesis by (simp add: builds_def)
  next
    case False
    with put obtain j kvs' where j: "cd_put c (sel x) = Some j" "put_fields fs x = Some kvs'" "kvs = (name, j) # kvs'"
      by (auto simp: tagged_def split: option.splits)
    have "get_member all strict (name, j) a = Some (upd (\<lambda>_. w) a)"
      using assms(2) assms(3) [OF False] j(1) by (simp add: get_member_def reads_back_def tagged_def)
    with assms(1) j(2) show ?thesis by (simp add: builds_def j(3))
  qed
qed

lemma struct_reads_back: "builds fs fs x zero w \<Longrightarrow> reads_back (struct_codec fs) zero x w"
  by (auto simp: reads_back_def struct_codec_def builds_def)

lemma struct_put_None: "cd_put (struct_codec fs) x = None \<longleftrightarrow> (\<exists>f \<in> set fs. jf_put f x = None)"
proof -
  have "put_fields fs x = None \<longleftrightarrow> (\<exists>f \<in> set fs. jf_put f x = None)"
    by (induction fs) (auto split: option.splits)
  then show ?thesis by (simp add: struct_codec_def)
qed

lemma field_put_None: "jf_put (tagged name omit sel upd c) x = None \<longleftrightarrow> \<not> omit (sel x) \<and> cd_put c (sel x) = None"
  by (simp add: tagged_def)

text \<open>With unknown fields disallowed an object has only keys of the struct.\<close>

lemma struct_strict:
  assumes "cd_get (struct_codec fs) True (J_Obj kvs) x = Some y" and "kv \<in> set kvs"
  shows "fold_name (fst kv) \<in> jf_name ` set fs"
proof (rule ccontr)
  assume "fold_name (fst kv) \<notin> jf_name ` set fs"
  then have "find (\<lambda>f. jf_name f = fold_name (fst kv)) fs = None" by (metis (mono_tags) find_None_iff image_eqI)
  then have none: "get_member fs True kv z = None" for z by (simp add: get_member_def)
  have "fold_opt (get_member fs True) kvs z = None" for z
    using assms(2)
  proof (induction kvs arbitrary: z)
    case (Cons a kvs)
    then show ?case using none [of z] by (cases "kv = a") (auto split: option.splits)
  qed simp
  with assms(1) show False by (simp add: struct_codec_def)
qed

text \<open>Names in lower case are their own folding.\<close>

definition plain_char :: "char \<Rightarrow> bool" where
  "plain_char c \<longleftrightarrow> c \<noteq> CHR 0xE2 \<and> c \<noteq> CHR 0xC5 \<and> \<not> is_upper c"

lemma fold_name_plain: "list_all plain_char s \<Longrightarrow> fold_name s = s"
  by (induction s rule: fold_name.induct) (simp_all add: plain_char_def)


text \<open>The field is read back as it is: the rule for the fields whose codec keeps them.\<close>

lemma builds_kept:
  assumes "builds all fs x (upd (\<lambda>_. sel x) a) b"
    and "find (\<lambda>f. jf_name f = fold_name name) all = Some (tagged name omit sel upd c)"
    and "reads_back c (sel a) (sel x) (sel x)" and "omit (sel x) \<Longrightarrow> upd (\<lambda>_. sel x) a = a"
  shows "builds all (tagged name omit sel upd c # fs) x a b"
  by (rule builds_field [OF assms])

lemma builds_done: "a = b \<Longrightarrow> builds all [] x a b"
  by (simp add: builds_Nil)

lemma jf_name_field [simp]: "jf_name (tagged name omit sel upd c) = name"
  by (simp add: tagged_def)

named_theorems json_keeps \<open>what the codecs read back\<close>
named_theorems json_marshals \<open>what the codecs print\<close>

lemmas [json_keeps] = float_json.get_put string_json.get_put bool_json.get_put u64_json.get_put int_json.get_put time_json.get_put

lemmas [json_marshals] = float_json.put_None string_json.put_None bool_json.put_None u64_json.put_None int_json.put_None
  time_json.put_None list_put_None ptr_put_None struct_put_None field_put_None

text \<open>The values \<open>omitempty\<close> leaves out.\<close>

definition float_empty :: "f64 \<Rightarrow> bool" where
  "float_empty v \<longleftrightarrow> (case v of F_Fin _ q \<Rightarrow> q = 0 | _ \<Rightarrow> False)"

abbreviation no_text :: "string \<Rightarrow> bool" where
  "no_text s \<equiv> s = ''''"

abbreviation no_elements :: "'v list \<Rightarrow> bool" where
  "no_elements vs \<equiv> vs = []"

abbreviation no_entries :: "('k \<rightharpoonup> 'v) option \<Rightarrow> bool" where
  "no_entries m \<equiv> m = None \<or> m = Some Map.empty"

abbreviation no_target :: "'v option \<Rightarrow> bool" where
  "no_target p \<equiv> p = None"

lemma float_empty_kept: "float_kept v \<Longrightarrow> float_empty v \<Longrightarrow> v = f_zero"
  by (auto simp: float_kept_def float_empty_def f_zero_def split: f64.splits)

lemma float_empty_finite: "float_empty v \<Longrightarrow> f_finite v"
  by (auto simp: float_empty_def f_finite_def split: f64.splits)

lemma list_reads_kept: "(\<And>v. v \<in> set vs \<Longrightarrow> reads_back c zero v v) \<Longrightarrow> reads_back (list_codec c zero) [] vs vs"
  using list_reads_back [of vs c zero "\<lambda>v. v"] by simp

lemma ptr_reads_kept:
  "(\<And>v. p = Some v \<Longrightarrow> reads_back c zero v v \<and> cd_put c v \<noteq> Some J_Null) \<Longrightarrow> reads_back (ptr_codec c zero) None p p"
  using ptr_reads_back [of p c zero "\<lambda>v. v"] by (simp add: option.map_ident)

lemma struct_not_null: "cd_put (struct_codec fs) x \<noteq> Some J_Null"
  by (simp add: struct_codec_def)

lemma float_not_null: "cd_put float_codec v \<noteq> Some J_Null"
  by (simp add: float_codec_def split: f64.splits)

lemma bool_not_null: "cd_put bool_codec b \<noteq> Some J_Null"
  by (simp add: bool_codec_def)


end
