(* ===== verification/Signals.thy ===== *)
theory Signals
  imports Service_Laws Json
begin

text \<open>
  \<open>internal/signals/adapter.go\<close>: the conversion of an upstream analysis event to an observation. A
  \<open>json.RawMessage\<close> is the JSON value it holds (\<open>None\<close> for the absent field); \<open>json.Unmarshal\<close>
  of such a value into the structs of the adapter is written out over the values of \<open>Json\<close>: object keys match field
  names up to case, \<open>null\<close> leaves a field as it is, a value of another type is an error, and
  so is a number outside the range of a float64.
\<close>

section \<open>The structs of the adapter\<close>

record signal_zone =
  sz_ID :: string
  sz_Upper :: f64
  sz_Lower :: f64
  sz_Label :: string
  sz_Direction :: string
  sz_State :: string
  sz_Attributes :: attributes

record signal_point =
  sp_Label :: string
  sp_Direction :: string
  sp_Attributes :: attributes

definition zone_field :: "string \<Rightarrow> json \<Rightarrow> signal_zone \<Rightarrow> signal_zone option" where
  "zone_field k v z =
    (if k = ''id'' then map_option (\<lambda>x. z\<lparr>sz_ID := x\<rparr>) (j_string v (sz_ID z))
     else if k = ''upper'' then map_option (\<lambda>x. z\<lparr>sz_Upper := x\<rparr>) (j_float v (sz_Upper z))
     else if k = ''lower'' then map_option (\<lambda>x. z\<lparr>sz_Lower := x\<rparr>) (j_float v (sz_Lower z))
     else if k = ''label'' then map_option (\<lambda>x. z\<lparr>sz_Label := x\<rparr>) (j_string v (sz_Label z))
     else if k = ''direction'' then map_option (\<lambda>x. z\<lparr>sz_Direction := x\<rparr>) (j_string v (sz_Direction z))
     else if k = ''state'' then map_option (\<lambda>x. z\<lparr>sz_State := x\<rparr>) (j_string v (sz_State z))
     else if k = ''attributes'' then map_option (\<lambda>x. z\<lparr>sz_Attributes := x\<rparr>) (j_attributes v (sz_Attributes z))
     else Some z)"

definition point_field :: "string \<Rightarrow> json \<Rightarrow> signal_point \<Rightarrow> signal_point option" where
  "point_field k v p =
    (if k = ''label'' then map_option (\<lambda>x. p\<lparr>sp_Label := x\<rparr>) (j_string v (sp_Label p))
     else if k = ''direction'' then map_option (\<lambda>x. p\<lparr>sp_Direction := x\<rparr>) (j_string v (sp_Direction p))
     else if k = ''attributes'' then map_option (\<lambda>x. p\<lparr>sp_Attributes := x\<rparr>) (j_attributes v (sp_Attributes p))
     else Some p)"

definition decode_zones :: "json \<Rightarrow> signal_zone list option" where
  "decode_zones = j_slice (j_struct zone_field
     \<lparr>sz_ID = '''', sz_Upper = f_zero, sz_Lower = f_zero, sz_Label = '''', sz_Direction = '''', sz_State = '''',
      sz_Attributes = Map.empty\<rparr>)"

definition decode_points :: "json \<Rightarrow> signal_point list option" where
  "decode_points = j_slice (j_struct point_field \<lparr>sp_Label = '''', sp_Direction = '''', sp_Attributes = Map.empty\<rparr>)"

section \<open>Events\<close>

definition AnalysisEventType :: string where
  "AnalysisEventType = ''io.ytstack.signals.analysis.updated.v1''"

record signal_bar =
  bar_OpenTime :: go_time
  bar_Revision :: u64
  bar_Status :: string
  bar_SourceID :: string
  bar_Open :: f64
  bar_High :: f64
  bar_Low :: f64
  bar_Close :: f64
  bar_Volume :: f64
  bar_Trades :: u64

record signal_output =
  out_Name :: string
  out_Value :: "json option"

record event =
  ev_ID :: string
  ev_Type :: string
  ev_Time :: go_time
  ev_CorrelationID :: string
  ev_Series :: series
  ev_Bar :: signal_bar
  ev_AnalysisName :: string
  ev_AnalysisRevision :: u64
  ev_Reset :: bool
  ev_History :: "candle list"
  ev_Engine :: string
  ev_EngineVersion :: string
  ev_AlgorithmVersion :: string
  ev_ConfigHash :: string
  ev_Outputs :: "signal_output list"

datatype adapter_error = InvalidEventEnvelope | NotMarketState | CorrelationMismatch | InvalidOutput string

definition text_of :: "json option \<Rightarrow> string" where
  "text_of v = (case v of Some (J_Str s) \<Rightarrow> s | _ \<Rightarrow> '''')"

definition number_of :: "json option \<Rightarrow> f64" where
  "number_of v = (case v of Some (J_Num n) \<Rightarrow> (case j_number n of Some x \<Rightarrow> x | None \<Rightarrow> f_zero) | _ \<Rightarrow> f_zero)"

definition sourceSide :: "string \<Rightarrow> attributes \<Rightarrow> string" where
  "sourceSide direction attributes =
    (let side = text_of (attributes ''source_direction'')
     in if side \<noteq> '''' then side
        else if direction = ''bullish'' then ''up''
        else if direction = ''bearish'' then ''down''
        else '''')"

definition to_zone :: "signal_zone \<Rightarrow> zone" where
  "to_zone v = \<lparr>zn_ID = sz_ID v, zn_Kind = sz_Label v, zn_Side = sourceSide (sz_Direction v) (sz_Attributes v),
     zn_State = sz_State v, zn_Upper = sz_Upper v, zn_Lower = sz_Lower v\<rparr>"

definition to_transition :: "signal_point \<Rightarrow> zone_transition" where
  "to_transition v = (let a = sp_Attributes v in
     \<lparr>zt_ID = text_of (a ''zone_id''), zt_Kind = text_of (a ''kind''), zt_Side = sourceSide (sp_Direction v) a,
      zt_Transition = text_of (a ''transition''), zt_Upper = number_of (a ''upper''), zt_Lower = number_of (a ''lower'')\<rparr>)"

definition to_pattern :: "signal_point \<Rightarrow> pattern" where
  "to_pattern v = \<lparr>pat_Kind = sp_Label v, pat_Side = sourceSide (sp_Direction v) (sp_Attributes v)\<rparr>"

definition add_output :: "signal_output \<Rightarrow> observation \<Rightarrow> adapter_error + observation" where
  "add_output out o' =
    (let name = out_Name out
     in if has_prefix name ''ema_'' then
          (case (atoi (trim_prefix name ''ema_''), Option.bind (out_Value out) (\<lambda>v. j_float v f_zero)) of
             (Some period, Some value) \<Rightarrow>
               Inr (o'\<lparr>obs_Indicators := obs_Indicators o' @
                 [\<lparr>ind_Name = ''ema'', ind_Period = period, ind_Value = value, ind_Ready = True\<rparr>]\<rparr>)
           | _ \<Rightarrow> Inl (InvalidOutput name))
        else if name = ''fvgs'' \<or> name = ''order_blocks'' then
          (case Option.bind (out_Value out) decode_zones of
             None \<Rightarrow> Inl (InvalidOutput name)
           | Some vs \<Rightarrow> Inr (o'\<lparr>obs_ActiveZones := obs_ActiveZones o' @ map to_zone vs\<rparr>))
        else if name = ''zone_transitions'' then
          (case Option.bind (out_Value out) decode_points of
             None \<Rightarrow> Inl (InvalidOutput name)
           | Some vs \<Rightarrow> Inr (o'\<lparr>obs_ZoneTransitions := obs_ZoneTransitions o' @ map to_transition vs\<rparr>))
        else if name = ''pattern_occurrences'' then
          (case Option.bind (out_Value out) decode_points of
             None \<Rightarrow> Inl (InvalidOutput name)
           | Some vs \<Rightarrow> Inr (o'\<lparr>obs_Patterns := obs_Patterns o' @ map to_pattern vs\<rparr>))
        else Inr o')"

fun add_outputs :: "signal_output list \<Rightarrow> observation \<Rightarrow> adapter_error + observation" where
  "add_outputs [] o' = Inr o'"
| "add_outputs (out # outs) o' = (case add_output out o' of Inl err \<Rightarrow> Inl err | Inr o1 \<Rightarrow> add_outputs outs o1)"

definition base_observation :: "event \<Rightarrow> observation" where
  "base_observation e =
    (let b = ev_Bar e
     in \<lparr>obs_Schema = ''alerts.observation.v1'', obs_SourceEventID = ev_ID e, obs_CorrelationID = ev_CorrelationID e,
         obs_OccurredAt = ev_Time e, obs_Status = bar_Status b, obs_Revision = ev_AnalysisRevision e, obs_Reset = ev_Reset e,
         obs_History = ev_History e, obs_Series = ev_Series e,
         obs_Candle = \<lparr>cnd_OpenTime = bar_OpenTime b, cnd_Open = bar_Open b, cnd_High = bar_High b, cnd_Low = bar_Low b,
           cnd_Close = bar_Close b, cnd_Volume = bar_Volume b, cnd_Trades = bar_Trades b\<rparr>,
         obs_Indicators = [], obs_ActiveZones = [], obs_ZoneTransitions = [], obs_Patterns = [],
         obs_FeatureAlgorithm = \<lparr>alg_Name = ev_AnalysisName e, alg_Version = ev_AlgorithmVersion e, alg_ConfigHash = ev_ConfigHash e\<rparr>\<rparr>)"

definition Observation :: "event \<Rightarrow> adapter_error + observation" where
  "Observation e =
    (if ev_Type e \<noteq> AnalysisEventType \<or> ev_ID e = '''' \<or> ev_CorrelationID e = '''' then Inl InvalidEventEnvelope
     else if ev_AnalysisName e \<noteq> ''smc.market_state'' then Inl NotMarketState
     else if bar_SourceID (ev_Bar e) = '''' \<or> bar_SourceID (ev_Bar e) \<noteq> ev_CorrelationID e then Inl CorrelationMismatch
     else add_outputs (ev_Outputs e) (base_observation e))"

section \<open>What the adapter hands on\<close>

definition ema_ok :: "indicator \<Rightarrow> bool" where
  "ema_ok i \<longleftrightarrow> ind_Name i = ''ema'' \<and> ind_Ready i \<and> f_finite (ind_Value i)"

lemma j_float_finite: "j_float j f_zero = Some v \<Longrightarrow> f_finite v"
  by (cases j) (auto simp: j_number_def f_zero_def f_finite_def Let_def split: if_splits)

text \<open>Outputs only ever extend the four lists of facts.\<close>

definition extends :: "observation \<Rightarrow> observation \<Rightarrow> bool" where
  "extends o' o1 \<longleftrightarrow> (\<exists>es zs ts ps. list_all ema_ok es \<and>
     o1 = o'\<lparr>obs_Indicators := obs_Indicators o' @ es, obs_ActiveZones := obs_ActiveZones o' @ zs,
             obs_ZoneTransitions := obs_ZoneTransitions o' @ ts, obs_Patterns := obs_Patterns o' @ ps\<rparr>)"

lemma extends_refl: "extends o' o'"
  unfolding extends_def by (intro exI [of _ "[]"]) simp

lemma extends_trans: "extends o' o1 \<Longrightarrow> extends o1 o2 \<Longrightarrow> extends o' o2"
proof -
  assume "extends o' o1" and "extends o1 o2"
  then obtain es zs ts ps es2 zs2 ts2 ps2 where
    1: "list_all ema_ok es" "o1 = o'\<lparr>obs_Indicators := obs_Indicators o' @ es, obs_ActiveZones := obs_ActiveZones o' @ zs,
         obs_ZoneTransitions := obs_ZoneTransitions o' @ ts, obs_Patterns := obs_Patterns o' @ ps\<rparr>" and
    2: "list_all ema_ok es2" "o2 = o1\<lparr>obs_Indicators := obs_Indicators o1 @ es2, obs_ActiveZones := obs_ActiveZones o1 @ zs2,
         obs_ZoneTransitions := obs_ZoneTransitions o1 @ ts2, obs_Patterns := obs_Patterns o1 @ ps2\<rparr>"
    unfolding extends_def by blast
  show ?thesis unfolding extends_def
    by (intro exI [of _ "es @ es2"] exI [of _ "zs @ zs2"] exI [of _ "ts @ ts2"] exI [of _ "ps @ ps2"]) (simp add: 1 2)
qed

lemma extends_indicator: "ema_ok i \<Longrightarrow> extends o' (o'\<lparr>obs_Indicators := obs_Indicators o' @ [i]\<rparr>)"
  unfolding extends_def by (intro exI [of _ "[i]"] exI [of _ "[]"]) simp

lemma extends_zones: "extends o' (o'\<lparr>obs_ActiveZones := obs_ActiveZones o' @ zs\<rparr>)"
  unfolding extends_def by (rule exI [of _ "[]"], rule exI [of _ zs], rule exI [of _ "[]"], rule exI [of _ "[]"]) simp

lemma extends_transitions: "extends o' (o'\<lparr>obs_ZoneTransitions := obs_ZoneTransitions o' @ ts\<rparr>)"
  unfolding extends_def by (rule exI [of _ "[]"], rule exI [of _ "[]"], rule exI [of _ ts], rule exI [of _ "[]"]) simp

lemma extends_patterns: "extends o' (o'\<lparr>obs_Patterns := obs_Patterns o' @ ps\<rparr>)"
  unfolding extends_def by (rule exI [of _ "[]"], rule exI [of _ "[]"], rule exI [of _ "[]"], rule exI [of _ ps]) simp

lemmas extends_intros = extends_refl extends_indicator extends_zones extends_transitions extends_patterns

lemma ema_value_finite: "Option.bind v (\<lambda>v. j_float v f_zero) = Some x \<Longrightarrow> f_finite x"
  by (auto simp: bind_eq_Some_conv dest: j_float_finite)

lemma add_output_extends: "add_output out o' = Inr o1 \<Longrightarrow> extends o' o1"
  using ema_value_finite [of "out_Value out"]
  by (auto simp: add_output_def Let_def ema_ok_def split: if_split_asm option.split_asm intro!: extends_intros)

lemma add_outputs_extends: "add_outputs outs o' = Inr o1 \<Longrightarrow> extends o' o1"
  by (induction outs arbitrary: o') (auto split: sum.splits intro: extends_refl extends_trans dest: add_output_extends)

text \<open>What the service still has to check of an event the adapter accepted.\<close>

definition event_acceptable :: "event \<Rightarrow> bool" where
  "event_acceptable e \<longleftrightarrow>
     ser_Symbol (ev_Series e) \<noteq> '''' \<and> ser_Timeframe (ev_Series e) \<noteq> '''' \<and>
     bar_OpenTime (ev_Bar e) \<noteq> 0 \<and> ev_Time e \<noteq> 0 \<and> bar_Status (ev_Bar e) \<in> {''confirmed'', ''provisional''} \<and>
     (ev_Reset e \<longrightarrow> bar_Status (ev_Bar e) = ''confirmed'') \<and> \<not> prices_invalid (obs_Candle (base_observation e)) \<and>
     f_finite (bar_Open (ev_Bar e)) \<and> f_finite (bar_High (ev_Bar e)) \<and> f_finite (bar_Low (ev_Bar e)) \<and> f_finite (bar_Close (ev_Bar e)) \<and>
     (\<forall>c \<in> set (ev_History e). cnd_OpenTime c \<noteq> 0 \<and> \<not> prices_invalid c)"

lemma Observation_extends:
  assumes "Observation e = Inr obs"
  shows "extends (base_observation e) obs" and "ev_ID e \<noteq> ''''" and "ev_CorrelationID e \<noteq> ''''"
  using assms add_outputs_extends [of "ev_Outputs e" "base_observation e" obs]
  by (auto simp: Observation_def split: if_splits)

lemma if_Some_None_iff: "(if A then Some x else y) = None \<longleftrightarrow> \<not> A \<and> y = None"
  by simp

lemma not_finite: "(f_isNaN v \<or> f_isInf v) = (\<not> f_finite v)"
  by (auto simp: f_finite_iff)

text \<open>
  C23. The adapter and the service agree on what an observation is: the observation made of an event carries the
  event's identity, series, candle and history unchanged, its indicators are finite EMA values, and the service
  accepts it exactly when the event's envelope, prices and history are acceptable and every EMA period is positive.
\<close>

theorem adapter_meets_service:
  assumes "Observation e = Inr obs"
  shows "obs_SourceEventID obs = ev_ID e \<and> obs_Series obs = ev_Series e \<and> obs_Candle obs = obs_Candle (base_observation e) \<and>
         obs_History obs = ev_History e \<and> (\<forall>i \<in> set (obs_Indicators obs). ema_ok i) \<and>
         (validateObservation obs = None \<longleftrightarrow> event_acceptable e \<and> (\<forall>i \<in> set (obs_Indicators obs). 1 \<le> ind_Period i))"
proof -
  obtain es zs ts ps where obs: "obs = (base_observation e)\<lparr>obs_Indicators := es, obs_ActiveZones := zs, obs_ZoneTransitions := ts,
      obs_Patterns := ps\<rparr>" and ema: "list_all ema_ok es"
    using Observation_extends(1) [OF assms] by (auto simp: extends_def base_observation_def Let_def)
  have periods: "list_ex (\<lambda>i. ind_Name i = '''' \<or> ind_Period i < 1 \<or> f_isNaN (ind_Value i) \<or> f_isInf (ind_Value i)) es \<longleftrightarrow>
      \<not> (\<forall>i \<in> set es. 1 \<le> ind_Period i)"
    using ema by (force simp: list_ex_iff list_all_iff ema_ok_def f_finite_iff not_le)
  have hist: "list_ex (\<lambda>c. is_zero (cnd_OpenTime c) \<or> prices_invalid c) (ev_History e) \<longleftrightarrow>
      \<not> (\<forall>c \<in> set (ev_History e). cnd_OpenTime c \<noteq> 0 \<and> \<not> prices_invalid c)"
    by (auto simp: list_ex_iff is_zero_def)
  have base: "obs_Schema obs = ''alerts.observation.v1'' \<and> obs_SourceEventID obs = ev_ID e \<and> obs_CorrelationID obs = ev_CorrelationID e \<and>
      obs_OccurredAt obs = ev_Time e \<and> obs_Status obs = bar_Status (ev_Bar e) \<and> obs_Reset obs = ev_Reset e \<and>
      obs_History obs = ev_History e \<and> obs_Series obs = ev_Series e \<and> obs_Candle obs = obs_Candle (base_observation e) \<and>
      obs_Indicators obs = es"
    by (simp add: obs base_observation_def Let_def)
  have candle: "cnd_OpenTime (obs_Candle (base_observation e)) = bar_OpenTime (ev_Bar e) \<and>
      cnd_Open (obs_Candle (base_observation e)) = bar_Open (ev_Bar e) \<and> cnd_High (obs_Candle (base_observation e)) = bar_High (ev_Bar e) \<and>
      cnd_Low (obs_Candle (base_observation e)) = bar_Low (ev_Bar e) \<and> cnd_Close (obs_Candle (base_observation e)) = bar_Close (ev_Bar e)"
    by (simp add: base_observation_def Let_def)
  have "validateObservation obs = None \<longleftrightarrow> event_acceptable e \<and> (\<forall>i \<in> set es. 1 \<le> ind_Period i)"
    unfolding validateObservation_def event_acceptable_def if_Some_None_iff
    using Observation_extends(2,3) [OF assms] base candle periods hist by (auto simp: not_finite is_zero_def)
  with base ema show ?thesis by (simp add: list_all_iff)
qed

definition sample_event :: event where
  "sample_event = \<lparr>ev_ID = ''e-1'', ev_Type = AnalysisEventType, ev_Time = 9, ev_CorrelationID = ''c-1'', ev_Series = btc_1m,
     ev_Bar = \<lparr>bar_OpenTime = 5, bar_Revision = 0, bar_Status = ''confirmed'', bar_SourceID = ''c-1'', bar_Open = F_Fin False 2,
       bar_High = F_Fin False 2, bar_Low = F_Fin False 1, bar_Close = F_Fin False 1, bar_Volume = f_zero, bar_Trades = 0\<rparr>,
     ev_AnalysisName = ''smc.market_state'', ev_AnalysisRevision = 1, ev_Reset = False, ev_History = [], ev_Engine = '''',
     ev_EngineVersion = '''', ev_AlgorithmVersion = ''1'', ev_ConfigHash = ''h'',
     ev_Outputs = [\<lparr>out_Name = ''ema_20'', out_Value = Some J_Null\<rparr>]\<rparr>"

theorem adapter_meets_service_witness:
  "\<exists>obs. Observation sample_event = Inr obs \<and> obs_SourceEventID obs = ''e-1'' \<and> validateObservation obs = None"
proof -
  have "atoi ''20'' = Some 20" by code_simp
  then obtain obs where obs: "Observation sample_event = Inr obs"
    and one: "obs_Indicators obs = [\<lparr>ind_Name = ''ema'', ind_Period = 20, ind_Value = f_zero, ind_Ready = True\<rparr>]"
    by (simp add: Observation_def sample_event_def AnalysisEventType_def add_output_def has_prefix_def trim_prefix_def
        base_observation_def Let_def)
  have "event_acceptable sample_event"
    by (simp add: event_acceptable_def sample_event_def base_observation_def prices_invalid_def btc_1m_def f_finite_def f_signed_def Let_def)
  with adapter_meets_service [OF obs] one obs show ?thesis by (simp add: sample_event_def)
qed

text \<open>
  An EMA that is not ready yet is read as a ready value of zero: an output \<open>ema_<n>\<close> whose value is JSON
  \<open>null\<close> is accepted and becomes an indicator with value zero that is marked ready.
\<close>

theorem null_ema_reads_as_zero:
  assumes "atoi n = Some period"
  shows "add_output \<lparr>out_Name = ''ema_'' @ n, out_Value = Some J_Null\<rparr> obs =
     Inr (obs\<lparr>obs_Indicators := obs_Indicators obs @
       [\<lparr>ind_Name = ''ema'', ind_Period = period, ind_Value = f_zero, ind_Ready = True\<rparr>]\<rparr>)"
  using assms by (simp add: add_output_def has_prefix_def trim_prefix_def)

theorem null_ema_reads_as_zero_witness:
  "add_output \<lparr>out_Name = ''ema_20'', out_Value = Some J_Null\<rparr> zero_observation =
     Inr (zero_observation\<lparr>obs_Indicators := [\<lparr>ind_Name = ''ema'', ind_Period = 20, ind_Value = f_zero, ind_Ready = True\<rparr>]\<rparr>)"
proof -
  have "atoi ''20'' = Some 20" by code_simp
  from null_ema_reads_as_zero [OF this, of zero_observation] show ?thesis by (simp add: zero_observation_def)
qed

end
