(* ===== verification/Broker.thy ===== *)
theory Broker
  imports Signals
begin

text \<open>
  \<open>internal/broker/jetstream.go\<close>: streams, consumers and the disposition of messages. The client
  library of the message broker is the parameter \<open>js\<close>, a record of the calls the program makes over a world
  \<open>'w\<close>; a call may fail. \<open>decode\<close> is \<open>json.Unmarshal\<close> of the data of a message into an event, with the text of
  its error, and \<open>sink\<close> the method \<open>IngestBatch\<close> of the interface \<open>Sink\<close>. Logging is left out; the
  endless loop of a consumer is given by a number of rounds, after which its context is cancelled.
\<close>

section \<open>Constants and options\<close>

definition EvaluationStream :: string where "EvaluationStream = ''MARKET_EVALUATION''"
definition EvaluationSubjects :: string where "EvaluationSubjects = ''signals.evaluation.>''"
definition EvaluationPartitions :: int where "EvaluationPartitions = 256"
definition AlertStream :: string where "AlertStream = ''ALERT_EVENTS''"
definition AlertSubjects :: string where "AlertSubjects = ''alerts.events.>''"
definition DeadLetterStream :: string where "DeadLetterStream = ''ALERTS_DLQ''"
definition DeadLetterSubject :: string where "DeadLetterSubject = ''alerts.dlq.signals''"

record broker_options =
  bo_URL :: string
  bo_Token :: string
  bo_Durable :: string
  bo_Replicas :: int
  bo_MaxDeliveries :: int
  bo_AckWait :: duration
  bo_WorkerIndex :: int
  bo_WorkerCount :: int
  bo_BatchSize :: int

record jetstream =
  jst_durable :: string
  jst_ackWait :: duration
  jst_maxDeliveries :: int
  jst_workerIndex :: int
  jst_workerCount :: int
  jst_batchSize :: int

text \<open>The enumerations of the client library, as far as the program names their values.\<close>

datatype retention = LimitsPolicy | OtherRetention nat
datatype storage = FileStorage | OtherStorage nat
datatype ack_policy = AckAllPolicy | AckExplicitPolicy | OtherAckPolicy nat

record stream_config =
  sc_Name :: string
  sc_Subjects :: "string list"
  sc_Retention :: retention
  sc_Storage :: storage
  sc_Replicas :: int
  sc_MaxAge :: duration
  sc_MaxMsgsPerSubject :: int
  sc_MaxMsgSize :: int
  sc_Duplicates :: duration
  sc_AllowRollup :: bool

record consumer_config =
  cc_FilterSubject :: string
  cc_AckPolicy :: ack_policy
  cc_AckWait :: duration
  cc_MaxDeliver :: int
  cc_MaxAckPending :: int

datatype nats_error =
    ErrStreamNotFound | ErrStreamNameAlreadyInUse | ErrConsumerNotFound | ErrTimeout | NatsFailure string

section \<open>Messages\<close>

text \<open>A message delivered to a consumer; the metadata are its stream sequence and its number of deliveries.\<close>

record 'd message =
  msg_Subject :: string
  msg_Data :: 'd
  msg_ID :: string
  msg_Metadata :: "(u64 \<times> u64) option"

datatype 'd payload = Original 'd | Alert_Event alert

record 'd outgoing =
  og_Subject :: string
  og_Data :: "'d payload"
  og_Header :: "(string \<times> string) list"

text \<open>A request for a pull subscription: with a configuration when it creates the consumer.\<close>

record subscription =
  sub_Stream :: string
  sub_Subject :: string
  sub_Durable :: string
  sub_Create :: "consumer_config option"

record ('d, 'w) js_client =
  js_StreamInfo :: "string \<Rightarrow> 'w \<Rightarrow> (nats_error + stream_config) \<times> 'w"
  js_UpdateStream :: "stream_config \<Rightarrow> 'w \<Rightarrow> nats_error option \<times> 'w"
  js_AddStream :: "stream_config \<Rightarrow> 'w \<Rightarrow> nats_error option \<times> 'w"
  js_ConsumerInfo :: "string \<Rightarrow> string \<Rightarrow> 'w \<Rightarrow> (nats_error + consumer_config) \<times> 'w"
  js_UpdateConsumer :: "string \<Rightarrow> string \<Rightarrow> consumer_config \<Rightarrow> 'w \<Rightarrow> nats_error option \<times> 'w"
  js_PullSubscribe :: "subscription \<Rightarrow> 'w \<Rightarrow> nats_error option \<times> 'w"
  js_Fetch :: "subscription \<Rightarrow> int \<Rightarrow> 'w \<Rightarrow> ('d message list \<times> nats_error option) \<times> 'w"
  js_PublishMsg :: "'d outgoing \<Rightarrow> 'w \<Rightarrow> nats_error option \<times> 'w"
  js_NakWithDelay :: "'d message \<Rightarrow> duration \<Rightarrow> 'w \<Rightarrow> nats_error option \<times> 'w"
  js_Term :: "'d message \<Rightarrow> 'w \<Rightarrow> nats_error option \<times> 'w"
  js_AckSync :: "'d message \<Rightarrow> 'w \<Rightarrow> nats_error option \<times> 'w"

section \<open>Opening\<close>

definition open_options :: "broker_options \<Rightarrow> broker_options option" where
  "open_options opts =
    (let o1 = opts\<lparr>bo_Replicas := (if bo_Replicas opts < 1 then 1 else bo_Replicas opts),
                   bo_MaxDeliveries := (if bo_MaxDeliveries opts < 1 then 20 else bo_MaxDeliveries opts),
                   bo_AckWait := (if bo_AckWait opts \<le> 0 then 30 * second else bo_AckWait opts),
                   bo_Durable := (if bo_Durable opts = '''' then ''ALERTS_EVALUATOR_V3'' else bo_Durable opts),
                   bo_WorkerCount := (if bo_WorkerCount opts < 1 then 1 else bo_WorkerCount opts)\<rparr>
     in if bo_WorkerIndex o1 < 0 \<or> bo_WorkerIndex o1 \<ge> bo_WorkerCount o1 then None
        else Some (o1\<lparr>bo_BatchSize := (if bo_BatchSize o1 < 1 then 32 else bo_BatchSize o1)\<rparr>))"

definition stream_configs :: "int \<Rightarrow> stream_config list" where
  "stream_configs replicas =
    (let day = 24 * hour;
         config = (\<lambda>name subject age rollup.
           \<lparr>sc_Name = name, sc_Subjects = [subject], sc_Retention = LimitsPolicy, sc_Storage = FileStorage,
            sc_Replicas = replicas, sc_MaxAge = age, sc_MaxMsgsPerSubject = 0, sc_MaxMsgSize = 2 * 2 ^ 20,
            sc_Duplicates = 10 * minute, sc_AllowRollup = rollup\<rparr>)
     in [config EvaluationStream EvaluationSubjects (7 * day) True,
         config AlertStream AlertSubjects (30 * day) False,
         config DeadLetterStream DeadLetterSubject (30 * day) False])"

definition sameStreamConfig :: "stream_config \<Rightarrow> stream_config \<Rightarrow> bool" where
  "sameStreamConfig got want \<longleftrightarrow>
     sc_Name got = sc_Name want \<and> length (sc_Subjects got) = length (sc_Subjects want) \<and>
     length (sc_Subjects got) = 1 \<and> hd (sc_Subjects got) = hd (sc_Subjects want) \<and>
     sc_Retention got = sc_Retention want \<and> sc_Storage got = sc_Storage want \<and>
     sc_Replicas got = sc_Replicas want \<and> sc_MaxAge got = sc_MaxAge want \<and>
     sc_MaxMsgsPerSubject got = sc_MaxMsgsPerSubject want \<and> sc_MaxMsgSize got = sc_MaxMsgSize want \<and>
     sc_Duplicates got = sc_Duplicates want \<and> sc_AllowRollup got = sc_AllowRollup want"

datatype stream_error = Reconcile string nats_error | Inspect string nats_error | CreateStream string nats_error

definition ensureStream :: "('d, 'w) js_client \<Rightarrow> stream_config \<Rightarrow> 'w \<Rightarrow> stream_error option \<times> 'w" where
  "ensureStream js config w =
    (case js_StreamInfo js (sc_Name config) w of
       (Inr got, w1) \<Rightarrow>
         if sameStreamConfig got config then (None, w1)
         else (case js_UpdateStream js config w1 of
                 (Some err, w2) \<Rightarrow> (Some (Reconcile (sc_Name config) err), w2)
               | (None, w2) \<Rightarrow> (None, w2))
     | (Inl err, w1) \<Rightarrow>
         if err \<noteq> ErrStreamNotFound then (Some (Inspect (sc_Name config) err), w1)
         else (case js_AddStream js config w1 of
                 (Some err, w2) \<Rightarrow>
                   (if err \<noteq> ErrStreamNameAlreadyInUse then Some (CreateStream (sc_Name config) err) else None, w2)
               | (None, w2) \<Rightarrow> (None, w2)))"

fun ensure_streams :: "('d, 'w) js_client \<Rightarrow> stream_config list \<Rightarrow> 'w \<Rightarrow> stream_error option \<times> 'w" where
  "ensure_streams js [] w = (None, w)"
| "ensure_streams js (c # cs) w =
     (case ensureStream js c w of (Some err, w1) \<Rightarrow> (Some err, w1) | (None, w1) \<Rightarrow> ensure_streams js cs w1)"

datatype open_error = BadWorkerIndex | BadStream stream_error

text \<open>\<open>Open\<close> on a connection that is established.\<close>

definition broker_Open :: "('d, 'w) js_client \<Rightarrow> broker_options \<Rightarrow> 'w \<Rightarrow> (open_error + jetstream) \<times> 'w" where
  "broker_Open js opts w =
    (case open_options opts of
       None \<Rightarrow> (Inl BadWorkerIndex, w)
     | Some o1 \<Rightarrow>
        (case ensure_streams js (stream_configs (bo_Replicas o1)) w of
           (Some err, w1) \<Rightarrow> (Inl (BadStream err), w1)
         | (None, w1) \<Rightarrow>
            (Inr \<lparr>jst_durable = bo_Durable o1, jst_ackWait = bo_AckWait o1, jst_maxDeliveries = bo_MaxDeliveries o1,
                  jst_workerIndex = bo_WorkerIndex o1, jst_workerCount = bo_WorkerCount o1,
                  jst_batchSize = bo_BatchSize o1\<rparr>, w1)))"

section \<open>Publishing alerts\<close>

definition pad3 :: "int \<Rightarrow> string" where
  "pad3 n = digits_padded 3 n"

definition alertSubject :: "alert \<Rightarrow> string" where
  "alertSubject a = ''alerts.events.'' @ pad3 (uint (fnv1a (series_Key (alr_Series a)) mod word_of_int EvaluationPartitions))"

definition MsgIdHdr :: string where "MsgIdHdr = ''Nats-Msg-Id''"

definition broker_Publish :: "('d, 'w) js_client \<Rightarrow> alert \<Rightarrow> 'w \<Rightarrow> nats_error option \<times> 'w" where
  "broker_Publish js a w =
    (let a1 = a\<lparr>alr_PublishStatus := ''''\<rparr>
     in if \<not> alert_marshals a1 then (Some (NatsFailure ''json''), w)
        else js_PublishMsg js
          \<lparr>og_Subject = alertSubject a1, og_Data = Alert_Event a1,
           og_Header = [(MsgIdHdr, alr_ID a1), (''Content-Type'', ''application/json'')]\<rparr> w)"

section \<open>Dispositions\<close>

definition retryDelay :: "u64 \<Rightarrow> duration" where
  "retryDelay delivery =
    (let delivery = (if delivery = 0 then 1 else delivery);
         exponent = delivery - 1;
         exponent = (if exponent > 9 then 9 else exponent);
         delay = duration_mul second (sint (push_bit (unat exponent) (1 :: u64)))
     in if delay > 5 * minute then 5 * minute else delay)"

datatype reason = DecodeFailed string | InvalidEvent adapter_error | RetriesExhausted string

datatype consume_error =
    PublishDeadLetter nats_error
  | TerminatePoison nats_error
  | NakFailed string nats_error
  | RetryScheduled string
  | AckFailed nats_error

text \<open>The text of a reason; \<open>json\<close> gives the text of the decoding error of an output's value.\<close>

definition reason_text :: "reason \<Rightarrow> string" where
  "reason_text r =
    (case r of
       DecodeFailed t \<Rightarrow> ''decode event: '' @ t
     | InvalidEvent e \<Rightarrow> ''invalid event: '' @
         (case e of
            InvalidEventEnvelope \<Rightarrow> ''invalid Signals event envelope''
          | NotMarketState \<Rightarrow> ''only complete smc.market_state events are accepted''
          | CorrelationMismatch \<Rightarrow> ''Signals candle correlation does not match''
          | InvalidOutput name \<Rightarrow> ''invalid '' @ name @ '' output'')
     | RetriesExhausted t \<Rightarrow> ''evaluation failed after retries: '' @ t)"

definition dead_letter_message :: "'d message \<Rightarrow> reason \<Rightarrow> 'd outgoing" where
  "dead_letter_message source reason =
     \<lparr>og_Subject = DeadLetterSubject, og_Data = Original (msg_Data source),
      og_Header = [(''X-Dead-Letter-Reason'', reason_text reason), (''X-Original-Subject'', msg_Subject source)] @
        (if msg_ID source \<noteq> '''' then [(MsgIdHdr, ''dlq-'' @ msg_ID source)] else [])\<rparr>"

definition deadLetter :: "('d, 'w) js_client \<Rightarrow> 'd message \<Rightarrow> reason \<Rightarrow> 'w \<Rightarrow> consume_error option \<times> 'w" where
  "deadLetter js source reason w =
    (case js_PublishMsg js (dead_letter_message source reason) w of
       (Some err, w1) \<Rightarrow> (Some (PublishDeadLetter err), snd (js_NakWithDelay js source (5 * second) w1))
     | (None, w1) \<Rightarrow>
        (case js_Term js source w1 of
           (Some err, w2) \<Rightarrow> (Some (TerminatePoison err), w2)
         | (None, w2) \<Rightarrow> (None, w2)))"

text \<open>What a message means: an observation, or the reason it can never be one.\<close>

definition read_message :: "('d \<Rightarrow> string + event) \<Rightarrow> 'd message \<Rightarrow> reason + observation" where
  "read_message decode m =
    (case decode (msg_Data m) of
       Inl t \<Rightarrow> Inl (DecodeFailed t)
     | Inr event \<Rightarrow> (case Observation event of Inl err \<Rightarrow> Inl (InvalidEvent err) | Inr obs \<Rightarrow> Inr obs))"

text \<open>The first loop of \<open>consumeBatch\<close>: the observations and their messages, or the error that stopped it.\<close>

fun collect ::
  "('d, 'w) js_client \<Rightarrow> ('d \<Rightarrow> string + event) \<Rightarrow> 'd message list \<Rightarrow> (observation \<times> 'd message) list \<Rightarrow> 'w
     \<Rightarrow> (consume_error + (observation \<times> 'd message) list) \<times> 'w" where
  "collect js decode [] valid w = (Inr valid, w)"
| "collect js decode (m # ms) valid w =
    (case read_message decode m of
       Inl reason \<Rightarrow>
        (case deadLetter js m reason w of
           (Some err, w1) \<Rightarrow> (Inl err, w1)
         | (None, w1) \<Rightarrow> collect js decode ms valid w1)
     | Inr obs \<Rightarrow> collect js decode ms (valid @ [(obs, m)]) w)"

definition exhausted :: "int \<Rightarrow> 'd message \<Rightarrow> bool" where
  "exhausted maxDeliveries m \<longleftrightarrow>
     (case msg_Metadata m of None \<Rightarrow> False | Some (_, delivered) \<Rightarrow> sint delivered \<ge> maxDeliveries)"

definition delivery_of :: "'d message \<Rightarrow> u64" where
  "delivery_of m = (case msg_Metadata m of None \<Rightarrow> 1 | Some (_, delivered) \<Rightarrow> delivered)"

text \<open>The loop after a failed evaluation.\<close>

fun retry_all ::
  "('d, 'w) js_client \<Rightarrow> int \<Rightarrow> string \<Rightarrow> 'd message list \<Rightarrow> 'w \<Rightarrow> consume_error option \<times> 'w" where
  "retry_all js maxDeliveries err [] w = (Some (RetryScheduled err), w)"
| "retry_all js maxDeliveries err (m # ms) w =
    (if exhausted maxDeliveries m
     then (case deadLetter js m (RetriesExhausted err) w of
             (Some e, w1) \<Rightarrow> (Some e, w1)
           | (None, w1) \<Rightarrow> retry_all js maxDeliveries err ms w1)
     else (case js_NakWithDelay js m (retryDelay (delivery_of m)) w of
             (Some e, w1) \<Rightarrow> (Some (NakFailed err e), w1)
           | (None, w1) \<Rightarrow> retry_all js maxDeliveries err ms w1))"

type_synonym 'w sink = "int \<Rightarrow> observation list \<Rightarrow> 'w \<Rightarrow> (string + alert list) \<times> 'w"

definition consumeBatch ::
  "('d, 'w) js_client \<Rightarrow> ('d \<Rightarrow> string + event) \<Rightarrow> 'w sink \<Rightarrow> int \<Rightarrow> int \<Rightarrow> 'd message list \<Rightarrow> 'w
     \<Rightarrow> consume_error option \<times> 'w" where
  "consumeBatch js decode sink maxDeliveries shard messages w =
    (case collect js decode messages [] w of
       (Inl err, w1) \<Rightarrow> (Some err, w1)
     | (Inr valid, w1) \<Rightarrow>
        if valid = [] then (None, w1)
        else (case sink shard (map fst valid) w1 of
                (Inl err, w2) \<Rightarrow> retry_all js maxDeliveries err (map snd valid) w2
              | (Inr _, w2) \<Rightarrow>
                  (case js_AckSync js (snd (last valid)) w2 of
                     (Some err, w3) \<Rightarrow> (Some (AckFailed err), w3)
                   | (None, w3) \<Rightarrow> (None, w3))))"

section \<open>Consuming\<close>

definition shard_subject :: "int \<Rightarrow> string" where
  "shard_subject shard = ''signals.evaluation.'' @ pad3 shard @ ''.>''"

definition shard_durable :: "jetstream \<Rightarrow> int \<Rightarrow> string" where
  "shard_durable j shard = jst_durable j @ ''_'' @ pad3 shard"

text \<open>The shards for which \<open>Consume\<close> starts a consumer.\<close>

definition consumed_shards :: "jetstream \<Rightarrow> int list" where
  "consumed_shards j = filter (\<lambda>shard. shard mod jst_workerCount j = jst_workerIndex j) [0..EvaluationPartitions - 1]"

datatype subscribe_error = Incompatible | UpdateFailed nats_error | SubscribeFailed nats_error

definition shardSubscription ::
  "('d, 'w) js_client \<Rightarrow> jetstream \<Rightarrow> string \<Rightarrow> string \<Rightarrow> string \<Rightarrow> 'w \<Rightarrow> (subscribe_error + subscription) \<times> 'w" where
  "shardSubscription js j stream subject durable w =
    (let subscribe = (\<lambda>create w.
           let sub = \<lparr>sub_Stream = stream, sub_Subject = subject, sub_Durable = durable, sub_Create = create\<rparr>
           in case js_PullSubscribe js sub w of
                (Some err, w1) \<Rightarrow> (Inl (SubscribeFailed err), w1)
              | (None, w1) \<Rightarrow> (Inr sub, w1))
     in case js_ConsumerInfo js stream durable w of
          (Inl ErrConsumerNotFound, w1) \<Rightarrow>
            subscribe (Some \<lparr>cc_FilterSubject = subject, cc_AckPolicy = AckAllPolicy, cc_AckWait = jst_ackWait j,
              cc_MaxDeliver = jst_maxDeliveries j, cc_MaxAckPending = jst_batchSize j\<rparr>) w1
        | (Inl err, w1) \<Rightarrow> (Inl (SubscribeFailed err), w1)
        | (Inr config, w1) \<Rightarrow>
            if cc_FilterSubject config \<noteq> subject \<or> cc_AckPolicy config \<noteq> AckAllPolicy then (Inl Incompatible, w1)
            else if cc_AckWait config \<noteq> jst_ackWait j \<or> cc_MaxDeliver config \<noteq> jst_maxDeliveries j
                    \<or> cc_MaxAckPending config \<noteq> jst_batchSize j
            then (case js_UpdateConsumer js stream durable
                         (config\<lparr>cc_AckWait := jst_ackWait j, cc_MaxDeliver := jst_maxDeliveries j,
                                 cc_MaxAckPending := jst_batchSize j\<rparr>) w1 of
                    (Some err, w2) \<Rightarrow> (Inl (UpdateFailed err), w2)
                  | (None, w2) \<Rightarrow> subscribe None w2)
            else subscribe None w1)"

text \<open>
  One round of the loop of \<open>consumeShard\<close>; \<open>Some\<close> is the error that ends it. An error of \<open>consumeBatch\<close> is
  only logged.
\<close>

definition shard_round ::
  "('d, 'w) js_client \<Rightarrow> ('d \<Rightarrow> string + event) \<Rightarrow> 'w sink \<Rightarrow> jetstream \<Rightarrow> int \<Rightarrow> subscription \<Rightarrow> 'w
     \<Rightarrow> nats_error option \<times> 'w" where
  "shard_round js decode sink j shard sub w =
    (case js_Fetch js sub (jst_batchSize j) w of
       ((messages, err), w1) \<Rightarrow>
         if err \<noteq> None \<and> err \<noteq> Some ErrTimeout then (err, w1)
         else if messages = [] then (None, w1)
         else (None, snd (consumeBatch js decode sink (jst_maxDeliveries j) shard messages w1)))"

fun shard_rounds ::
  "('d, 'w) js_client \<Rightarrow> ('d \<Rightarrow> string + event) \<Rightarrow> 'w sink \<Rightarrow> jetstream \<Rightarrow> int \<Rightarrow> subscription \<Rightarrow> nat \<Rightarrow> 'w
     \<Rightarrow> nats_error option \<times> 'w" where
  "shard_rounds js decode sink j shard sub 0 w = (None, w)"
| "shard_rounds js decode sink j shard sub (Suc n) w =
    (case shard_round js decode sink j shard sub w of
       (Some err, w1) \<Rightarrow> (Some err, w1)
     | (None, w1) \<Rightarrow> shard_rounds js decode sink j shard sub n w1)"

definition consumeShard ::
  "('d, 'w) js_client \<Rightarrow> ('d \<Rightarrow> string + event) \<Rightarrow> 'w sink \<Rightarrow> jetstream \<Rightarrow> int \<Rightarrow> nat \<Rightarrow> 'w
     \<Rightarrow> (subscribe_error + nats_error option) \<times> 'w" where
  "consumeShard js decode sink j shard n w =
    (case shardSubscription js j EvaluationStream (shard_subject shard) (shard_durable j shard) w of
       (Inl err, w1) \<Rightarrow> (Inl err, w1)
     | (Inr sub, w1) \<Rightarrow> (case shard_rounds js decode sink j shard sub n w1 of (err, w2) \<Rightarrow> (Inr err, w2)))"

end
