(* ===== verification/Api.thy ===== *)
theory Api
  imports Signals
begin

text \<open>
  \<open>internal/api/server.go\<close>: the HTTP interface of the service. A request is its method, the segments of its
  path, the headers and query values the handlers read, and a body \<open>'b\<close>; the decoders of the bodies
  (\<open>json.NewDecoder\<close>, the limit of one megabyte included) are the parameter \<open>dec\<close>, with the text of their
  errors. A response is its status and what its body encodes. Listening and shutting down are left out.
\<close>

section \<open>Requests and responses\<close>

record server_options =
  svo_Addr :: string
  svo_APIToken :: string
  svo_IngestToken :: string
  svo_Insecure :: bool

record create_request =
  cr_Name :: string
  cr_Series :: series
  cr_Rule :: rule
  cr_EvaluationMode :: string
  cr_TriggerMode :: string
  cr_CooldownSeconds :: int

record 'b request =
  rq_Method :: string
  rq_Path :: "string list"
  rq_Authorization :: string
  rq_After :: string
  rq_Limit :: string
  rq_Body :: 'b

record 'b decoders =
  dec_create :: "'b \<Rightarrow> string + create_request"
  dec_enabled :: "'b \<Rightarrow> string + bool option"
  dec_observation :: "'b \<Rightarrow> string + observation"
  dec_event :: "'b \<Rightarrow> string + event"

datatype message = Text string | Service_Text service_error | Adapter_Text adapter_error

datatype body =
    Problem string message
  | Definition_Body alert_definition
  | Definitions_Body "alert_definition list"
  | Alerts_Body "alert list"
  | Accepted_Body "alert list"
  | Status_Body string
  | Text_Body string
  | Catalog_Body "(string \<times> (string \<times> string list) list) list"
  | No_Body

type_synonym response = "int \<times> body"

definition problem :: "int \<Rightarrow> string \<Rightarrow> message \<Rightarrow> response" where
  "problem status code m = (status, Problem code m)"

section \<open>Authorisation\<close>

definition bearerOK :: "'b request \<Rightarrow> string \<Rightarrow> bool" where
  "bearerOK r expected \<longleftrightarrow> trim_prefix (rq_Authorization r) ''Bearer '' = expected"

text \<open>The wrappers around the handlers: \<open>Some\<close> is the response that stops the request.\<close>

definition control :: "server_options \<Rightarrow> 'b request \<Rightarrow> response option" where
  "control opts r =
    (if \<not> svo_Insecure opts \<and> \<not> bearerOK r (svo_APIToken opts)
     then Some (problem 401 ''unauthorized'' (Text ''invalid bearer token'')) else None)"

definition ingest :: "server_options \<Rightarrow> 'b request \<Rightarrow> response option" where
  "ingest opts r =
    (if \<not> svo_Insecure opts \<and> \<not> bearerOK r (svo_IngestToken opts)
     then Some (problem 401 ''unauthorized'' (Text ''invalid ingest token'')) else None)"

datatype server_error = AddressRequired | TokensRequired

definition New_error :: "server_options \<Rightarrow> server_error option" where
  "New_error opts =
    (if svo_Addr opts = '''' then Some AddressRequired
     else if \<not> svo_Insecure opts \<and> (svo_APIToken opts = '''' \<or> svo_IngestToken opts = '''') then Some TokensRequired
     else None)"

section \<open>Parameters\<close>

definition parseInt64 :: "string \<Rightarrow> int option" where
  "parseInt64 v = (if v = '''' then Some 0 else case atoi v of None \<Rightarrow> None | Some n \<Rightarrow> if n < 0 then None else Some n)"

definition parseInt :: "string \<Rightarrow> int option" where
  "parseInt v = (if v = '''' then Some 100 else case atoi v of None \<Rightarrow> None | Some n \<Rightarrow> if n < 1 then None else Some n)"

section \<open>Handlers\<close>

definition createDefinition ::
  "'r repository \<Rightarrow> (canonical \<Rightarrow> string) \<Rightarrow> 'b decoders \<Rightarrow> go_time \<Rightarrow> 'b request \<Rightarrow> 'r service \<Rightarrow> response \<times> 'r service" where
  "createDefinition ops canonical dec now r s =
    (case dec_create dec (rq_Body r) of
       Inl err \<Rightarrow> (problem 400 ''invalid_json'' (Text err), s)
     | Inr req \<Rightarrow>
        (case Create ops canonical now (cr_Name req)
                \<lparr>cn_Series = cr_Series req, cn_Rule = cr_Rule req, cn_EvaluationMode = cr_EvaluationMode req,
                 cn_TriggerMode = cr_TriggerMode req, cn_Cooldown = cr_CooldownSeconds req\<rparr> s of
           ((d, created, Some err), s1) \<Rightarrow> (problem 422 ''invalid_definition'' (Service_Text err), s1)
         | ((d, created, None), s1) \<Rightarrow> ((if created then 201 else 200, Definition_Body d), s1)))"

definition listDefinitions :: "'r repository \<Rightarrow> go_time \<Rightarrow> 'r service \<Rightarrow> response" where
  "listDefinitions ops now s =
    (case service_ListDefinitions ops now s of
       Inl _ \<Rightarrow> problem 500 ''store_error'' (Text ''could not list alert definitions'')
     | Inr ds \<Rightarrow> (200, Definitions_Body ds))"

definition updateDefinition ::
  "'r repository \<Rightarrow> 'b decoders \<Rightarrow> go_time \<Rightarrow> string \<Rightarrow> 'b request \<Rightarrow> 'r service \<Rightarrow> response \<times> 'r service" where
  "updateDefinition ops dec now i r s =
    (case dec_enabled dec (rq_Body r) of
       Inl err \<Rightarrow> (problem 400 ''invalid_json'' (Text err), s)
     | Inr None \<Rightarrow> (problem 422 ''invalid_definition'' (Text ''enabled is required''), s)
     | Inr (Some enabled) \<Rightarrow>
        (case SetEnabled ops now i enabled s of
           ((d, err), s1) \<Rightarrow>
             (if IsNotFound err then problem 404 ''not_found'' (Text ''alert definition not found'')
              else if err \<noteq> None then problem 500 ''store_error'' (Text ''could not update alert definition'')
              else (200, Definition_Body d), s1)))"

definition deleteDefinition :: "'r repository \<Rightarrow> go_time \<Rightarrow> string \<Rightarrow> 'r service \<Rightarrow> response \<times> 'r service" where
  "deleteDefinition ops now i s =
    (case Delete ops now i s of
       (err, s1) \<Rightarrow>
         (if IsNotFound err then problem 404 ''not_found'' (Text ''alert definition not found'')
          else if err \<noteq> None then problem 500 ''store_error'' (Text ''could not archive alert definition'')
          else (204, No_Body), s1))"

definition listAlerts :: "'r repository \<Rightarrow> 'b request \<Rightarrow> 'r service \<Rightarrow> response" where
  "listAlerts ops r s =
    (case parseInt64 (rq_After r) of
       None \<Rightarrow> problem 400 ''invalid_cursor'' (Text ''after must be a non-negative integer'')
     | Some after \<Rightarrow>
        (case parseInt (rq_Limit r) of
           None \<Rightarrow> problem 400 ''invalid_limit'' (Text ''limit must be an integer'')
         | Some limit \<Rightarrow>
            (case service_ListAlerts ops after limit s of
               Inl _ \<Rightarrow> problem 500 ''store_error'' (Text ''could not list alert events'')
             | Inr alerts \<Rightarrow> (200, Alerts_Body alerts))))"

text \<open>The end of both ingestion handlers.\<close>

definition ingest_response ::
  "'r repository \<Rightarrow> go_time \<Rightarrow> duration \<Rightarrow> observation \<Rightarrow> 'r service \<Rightarrow> (response \<times> 'r service) option" where
  "ingest_response ops now elapsed obs s =
    (case Ingest ops now elapsed obs s of
       None \<Rightarrow> None
     | Some (Inl err, s1) \<Rightarrow> Some (problem 422 ''invalid_observation'' (Service_Text err), s1)
     | Some (Inr alerts, s1) \<Rightarrow> Some ((202, Accepted_Body alerts), s1))"

definition post_observation ::
  "'r repository \<Rightarrow> 'b decoders \<Rightarrow> go_time \<Rightarrow> duration \<Rightarrow> 'b request \<Rightarrow> 'r service \<Rightarrow> (response \<times> 'r service) option" where
  "post_observation ops dec now elapsed r s =
    (case dec_observation dec (rq_Body r) of
       Inl err \<Rightarrow> Some (problem 400 ''invalid_json'' (Text err), s)
     | Inr obs \<Rightarrow> ingest_response ops now elapsed obs s)"

definition signalEvent ::
  "'r repository \<Rightarrow> 'b decoders \<Rightarrow> go_time \<Rightarrow> duration \<Rightarrow> 'b request \<Rightarrow> 'r service \<Rightarrow> (response \<times> 'r service) option" where
  "signalEvent ops dec now elapsed r s =
    (case dec_event dec (rq_Body r) of
       Inl err \<Rightarrow> Some (problem 400 ''invalid_json'' (Text err), s)
     | Inr event \<Rightarrow>
        (case Observation event of
           Inl err \<Rightarrow> Some (problem 422 ''invalid_signal_event'' (Adapter_Text err), s)
         | Inr obs \<Rightarrow> ingest_response ops now elapsed obs s))"

definition ready :: "'r repository \<Rightarrow> go_time \<Rightarrow> bool list \<Rightarrow> 'r service \<Rightarrow> response" where
  "ready ops now readiness s =
    (if service_Ready ops now readiness s then (200, Status_Body ''ready'') else (503, Status_Body ''not ready''))"

section \<open>Metrics and the catalog\<close>

definition metric_line :: "string \<Rightarrow> string \<Rightarrow> string" where
  "metric_line name v = name @ '' '' @ v @ [CHR 0x0A]"

definition counter :: "u64 \<Rightarrow> string" where
  "counter n = itoa (uint n)"

definition metrics_text :: "metric_snapshot \<Rightarrow> string" where
  "metrics_text m =
    (let c = ms_service m
     in concat
      ([metric_line ''alertsd_observations_total'' (counter (sm_Observations c)),
        metric_line ''alertsd_alerts_generated_total'' (counter (sm_Alerts c)),
        metric_line ''alertsd_alert_events_published_total'' (counter (sm_Published c)),
        metric_line ''alertsd_alert_event_publish_failures_total'' (counter (sm_PublishFails c)),
        metric_line ''alertsd_evaluation_batches_total'' (counter (sm_Batches c)),
        metric_line ''alertsd_evaluation_failures_total'' (counter (sm_IngestFails c)),
        metric_line ''alertsd_evaluation_duration_seconds_sum''
          (f_fmt 9 (f_div (f_of_int (uint (sm_EvalNanos c))) (f_of_int second))),
        metric_line ''alertsd_rule_evaluations_total'' (counter (ms_RuleEvaluations m)),
        metric_line ''alertsd_stale_events_total'' (counter (ms_StaleEvents m)),
        metric_line ''alertsd_reset_events_total'' (counter (ms_ResetEvents m)),
        metric_line ''alertsd_definition_refresh_failures_total'' (counter (sm_RefreshFails c)),
        metric_line ''alertsd_definition_cache_age_seconds'' (f_fmt 3 (ms_DefinitionCacheAgeSeconds m)),
        metric_line ''alertsd_outbox_pending'' (itoa (ms_PendingOutbox m)),
        metric_line ''alertsd_outbox_oldest_age_seconds'' (f_fmt 3 (ms_OldestOutboxAgeSeconds m)),
        metric_line ''alertsd_retention_inbox_deleted_total'' (counter (sm_InboxDeleted c)),
        metric_line ''alertsd_retention_alerts_deleted_total'' (counter (sm_AlertsDeleted c)),
        metric_line ''alertsd_retention_failures_total'' (counter (sm_MaintenanceFails c))] @
       map (\<lambda>(bound, n). metric_line (''alertsd_evaluation_duration_seconds_bucket{le='' @ [CHR 0x22] @ f_fmt 3 (seconds bound) @
              [CHR 0x22] @ ''}'') (counter n)) (zip evaluationBucketBounds (sm_EvalBuckets c)) @
       [metric_line (''alertsd_evaluation_duration_seconds_bucket{le='' @ [CHR 0x22] @ ''+Inf'' @ [CHR 0x22] @ ''}'') (counter (sm_Batches c)),
        metric_line ''alertsd_evaluation_duration_seconds_count'' (counter (sm_Batches c))]))"

text \<open>The catalog: per rule type its fields and the values offered for them; a single value is a list of one.\<close>

definition catalog :: "(string \<times> (string \<times> string list) list) list" where
  "catalog =
    (let zones = (''kinds'', [''fvg'', ''order_block''])
     in [(''price_hits_zone'', [zones, (''transitions'', [''touched'', ''mitigated''])]),
         (''zone_transition'', [zones, (''transitions'', [''created'', ''touched'', ''mitigated'', ''invalidated'', ''expired''])]),
         (''price_near_zone'', [zones, (''distance_unit'', [''basis_points''])]),
         (''price_crosses_indicator'', [(''directions'', [''above'', ''below'', ''either''])]),
         (''candle_color'', [(''directions'', [''red'', ''green''])]),
         (''candle_streak'', [(''directions'', [''red'', ''green''])]),
         (''candle_color_flip'', [(''directions'', [''either'', ''red_to_green'', ''green_to_red'']),
            (''threshold'', [''min_elapsed_percent'']), (''evaluation_mode'', [''intrabar''])]),
         (''pattern'', []), (''all'', []), (''any'', []), (''not'', [])])"

section \<open>The server\<close>

datatype endpoint =
    Healthz | Readyz | Metrics_Page | Rule_Types | Create_Definition | List_Definitions | Update_Definition string
  | Delete_Definition string | List_Events | Post_Observation | Post_Signal_Event

text \<open>The patterns registered for a path, by method; \<open>{id}\<close> is one segment that is not empty.\<close>

definition path_routes :: "string list \<Rightarrow> (string \<times> endpoint) list" where
  "path_routes path =
    (if path = [''healthz''] then [(''GET'', Healthz)]
     else if path = [''readyz''] then [(''GET'', Readyz)]
     else if path = [''metrics''] then [(''GET'', Metrics_Page)]
     else if path = [''v1'', ''rule-types''] then [(''GET'', Rule_Types)]
     else if path = [''v1'', ''definitions''] then [(''POST'', Create_Definition), (''GET'', List_Definitions)]
     else if path = [''v1'', ''events''] then [(''GET'', List_Events)]
     else if path = [''v1'', ''internal'', ''observations''] then [(''POST'', Post_Observation)]
     else if path = [''v1'', ''internal'', ''signal-events''] then [(''POST'', Post_Signal_Event)]
     else (case path of
             [v, d, i] \<Rightarrow> if v = ''v1'' \<and> d = ''definitions'' \<and> i \<noteq> ''''
                then [(''PATCH'', Update_Definition i), (''DELETE'', Delete_Definition i)] else []
           | _ \<Rightarrow> []))"

text \<open>The multiplexer: a pattern for \<open>GET\<close> also matches \<open>HEAD\<close>; \<open>Inl\<close> is the status when nothing matches.\<close>

definition mux :: "string \<Rightarrow> string list \<Rightarrow> int + endpoint" where
  "mux method path =
    (if path_routes path = [] then Inl 404
     else case map_of (path_routes path) (if method = ''HEAD'' then ''GET'' else method) of
            None \<Rightarrow> Inl 405 | Some e \<Rightarrow> Inr e)"

definition guard_of :: "server_options \<Rightarrow> endpoint \<Rightarrow> 'b request \<Rightarrow> response option" where
  "guard_of opts e r =
    (case e of
       Healthz \<Rightarrow> None | Readyz \<Rightarrow> None | Metrics_Page \<Rightarrow> None
     | Post_Observation \<Rightarrow> ingest opts r | Post_Signal_Event \<Rightarrow> ingest opts r
     | _ \<Rightarrow> control opts r)"

text \<open>One request; \<open>None\<close> is a panic of the evaluator.\<close>

definition handle ::
  "'r repository \<Rightarrow> (canonical \<Rightarrow> string) \<Rightarrow> 'b decoders \<Rightarrow> go_time \<Rightarrow> duration \<Rightarrow> bool list \<Rightarrow> endpoint \<Rightarrow> 'b request \<Rightarrow> 'r service
     \<Rightarrow> (response \<times> 'r service) option" where
  "handle ops canonical dec now elapsed readiness e r s =
    (case e of
       Healthz \<Rightarrow> Some ((200, Status_Body ''ok''), s)
     | Readyz \<Rightarrow> Some (ready ops now readiness s, s)
     | Metrics_Page \<Rightarrow> Some ((200, Text_Body (metrics_text (service_Metrics ops now s))), s)
     | Rule_Types \<Rightarrow> Some ((200, Catalog_Body catalog), s)
     | Create_Definition \<Rightarrow> Some (createDefinition ops canonical dec now r s)
     | List_Definitions \<Rightarrow> Some (listDefinitions ops now s, s)
     | Update_Definition i \<Rightarrow> Some (updateDefinition ops dec now i r s)
     | Delete_Definition i \<Rightarrow> Some (deleteDefinition ops now i s)
     | List_Events \<Rightarrow> Some (listAlerts ops r s, s)
     | Post_Observation \<Rightarrow> post_observation ops dec now elapsed r s
     | Post_Signal_Event \<Rightarrow> signalEvent ops dec now elapsed r s)"

definition serve ::
  "server_options \<Rightarrow> 'r repository \<Rightarrow> (canonical \<Rightarrow> string) \<Rightarrow> 'b decoders \<Rightarrow> go_time \<Rightarrow> duration \<Rightarrow> bool list \<Rightarrow> 'b request
     \<Rightarrow> 'r service \<Rightarrow> (response \<times> 'r service) option" where
  "serve opts ops canonical dec now elapsed readiness r s =
    (case mux (rq_Method r) (rq_Path r) of
       Inl status \<Rightarrow> Some ((status, No_Body), s)
     | Inr e \<Rightarrow>
        (case guard_of opts e r of
           Some resp \<Rightarrow> Some (resp, s)
         | None \<Rightarrow> handle ops canonical dec now elapsed readiness e r s))"

section \<open>What the interface guarantees\<close>

text \<open>
  C34. Nothing is reached without the right token: unless the server is insecure, a request to any route but
  health, readiness and metrics, whose bearer token is not the token of the route (the ingest token for
  observations and signal events, the API token for the rest), is answered 401 and the service stays as it is.
\<close>

theorem unauthorised_request_refused:
  assumes "mux (rq_Method r) (rq_Path r) = Inr e" and "e \<notin> {Healthz, Readyz, Metrics_Page}" and "\<not> svo_Insecure opts"
    and "trim_prefix (rq_Authorization r) ''Bearer '' \<noteq>
         (if e \<in> {Post_Observation, Post_Signal_Event} then svo_IngestToken opts else svo_APIToken opts)"
  shows "\<exists>m. serve opts ops canonical dec now elapsed readiness r s = Some (problem 401 ''unauthorized'' m, s)"
  using assms by (cases e) (auto simp: serve_def guard_of_def control_def ingest_def bearerOK_def)

definition sample_server :: server_options where
  "sample_server = \<lparr>svo_Addr = '':8100'', svo_APIToken = ''api'', svo_IngestToken = ''ingest'', svo_Insecure = False\<rparr>"

definition sample_get :: "string list \<Rightarrow> string \<Rightarrow> unit request" where
  "sample_get path token = \<lparr>rq_Method = ''GET'', rq_Path = path, rq_Authorization = ''Bearer '' @ token,
     rq_After = '''', rq_Limit = '''', rq_Body = ()\<rparr>"

definition no_decoders :: "unit decoders" where
  "no_decoders = \<lparr>dec_create = \<lambda>_. Inl '''', dec_enabled = \<lambda>_. Inl '''', dec_observation = \<lambda>_. Inl '''', dec_event = \<lambda>_. Inl ''''\<rparr>"

theorem unauthorised_request_refused_witness:
  "\<exists>m. serve sample_server memory_repository (\<lambda>_. ''{}'') no_decoders 3 1 [] (sample_get [''v1'', ''events''] ''ingest'')
       (NewWithOptions NewMemory sample_options) =
     Some (problem 401 ''unauthorized'' m, NewWithOptions NewMemory sample_options)"
  by (rule unauthorised_request_refused [where e = List_Events])
     (simp_all add: mux_def path_routes_def sample_get_def sample_server_def trim_prefix_def has_prefix_def)

text \<open>What the handlers that change definitions do to the service.\<close>

lemma createDefinition_state:
  "snd (createDefinition ops canonical dec now r s) =
     (case dec_create dec (rq_Body r) of Inl _ \<Rightarrow> s
      | Inr req \<Rightarrow> snd (Create ops canonical now (cr_Name req)
          \<lparr>cn_Series = cr_Series req, cn_Rule = cr_Rule req, cn_EvaluationMode = cr_EvaluationMode req,
           cn_TriggerMode = cr_TriggerMode req, cn_Cooldown = cr_CooldownSeconds req\<rparr> s))"
  by (simp add: createDefinition_def split: sum.splits prod.splits option.splits)

lemma updateDefinition_state:
  "snd (updateDefinition ops dec now i r s) =
     (case dec_enabled dec (rq_Body r) of Inr (Some b) \<Rightarrow> snd (SetEnabled ops now i b s) | _ \<Rightarrow> s)"
  by (simp add: updateDefinition_def split: sum.splits prod.splits option.splits)

lemma deleteDefinition_state: "snd (deleteDefinition ops now i s) = snd (Delete ops now i s)"
  by (simp add: deleteDefinition_def split: prod.splits)

lemma ingest_response_sound:
  assumes "service_reachable publish s"
  shows "\<exists>resp s'. ingest_response memory_repository now elapsed obs s = Some (resp, s') \<and> service_reachable publish s'"
proof -
  have wf: "service_wf s" by (rule service_reachable_wf [OF assms])
  then have "routes_ok (sv_runtime s)" by (simp add: service_wf_def engine_wf_def)
  from EvaluateBatch_total [OF this]
  have ev: "EvaluateBatch mem_CommitRuntimeBatch now pid os (sv_runtime s) (sv_repo s) \<noteq> None" for pid os
    by (metis option.distinct(1))
  have "IngestBatch memory_repository now elapsed pid os s \<noteq> None" for pid os
    using ev [of pid os] by (auto simp: IngestBatch_def memory_repository_def Let_def split: option.splits sum.splits)
  then have "Ingest memory_repository now elapsed obs s \<noteq> None" by (auto simp: Ingest_def split: option.splits)
  then obtain res s' where "Ingest memory_repository now elapsed obs s = Some (res, s')" by auto
  with service_reachable.ingest [OF assms] show ?thesis
    by (auto simp: ingest_response_def split: sum.splits)
qed

text \<open>
  C35. Every request is answered and none leaves the sound states: over the memory store, a request of any method,
  path, token and body to a service reached by client calls gets a response, without a panic, and the service
  afterwards is one that client calls reach.
\<close>

theorem every_request_answered:
  assumes "service_reachable publish s"
  shows "\<exists>resp s'. serve opts memory_repository canonical dec now elapsed readiness r s = Some (resp, s') \<and> service_reachable publish s'"
proof -
  have "\<exists>resp s'. handle memory_repository canonical dec now elapsed readiness e r s = Some (resp, s') \<and> service_reachable publish s'" for e
  proof (cases e)
    case Create_Definition
    have "service_reachable publish (snd (createDefinition memory_repository canonical dec now r s))"
      using service_reachable.create [OF assms] assms by (simp add: createDefinition_state split: sum.splits)
    with Create_Definition show ?thesis by (simp add: handle_def) (metis prod.collapse)
  next
    case (Update_Definition i)
    have "service_reachable publish (snd (updateDefinition memory_repository dec now i r s))"
      using service_reachable.set_enabled [OF assms] assms by (simp add: updateDefinition_state split: sum.splits option.splits)
    with Update_Definition show ?thesis by (simp add: handle_def) (metis prod.collapse)
  next
    case (Delete_Definition i)
    have "service_reachable publish (snd (deleteDefinition memory_repository now i s))"
      using service_reachable.delete [OF assms] by (simp add: deleteDefinition_state)
    with Delete_Definition show ?thesis by (simp add: handle_def) (metis prod.collapse)
  next
    case Post_Observation
    with ingest_response_sound [OF assms] assms show ?thesis
      by (auto simp: handle_def post_observation_def split: sum.splits)
  next
    case Post_Signal_Event
    with ingest_response_sound [OF assms] assms show ?thesis
      by (auto simp: handle_def signalEvent_def split: sum.splits)
  qed (use assms in \<open>simp_all add: handle_def\<close>)
  with assms show ?thesis by (auto simp: serve_def split: sum.splits option.splits)
qed

theorem every_request_answered_witness:
  "\<exists>resp s'. serve sample_server memory_repository (\<lambda>_. ''{}'') no_decoders 3 1 [] (sample_get [''v1'', ''events''] ''api'')
       (NewWithOptions NewMemory sample_options) = Some (resp, s') \<and> service_reachable log_publish s'"
  by (rule every_request_answered [OF service_reachable.start])

text \<open>
  The catalog does not lie: a rule of one of its leaf types, with a kind, a transition and a direction among those
  the catalog offers for that type, is accepted by the validator, provided its numbers and names are in
  range.
\<close>

definition offered :: "string \<Rightarrow> string \<Rightarrow> string \<Rightarrow> bool" where
  "offered t field v \<longleftrightarrow>
     (case map_of catalog t of
        None \<Rightarrow> False
      | Some offers \<Rightarrow> (case map_of offers field of None \<Rightarrow> True | Some vs \<Rightarrow> v \<in> set vs))"

definition numbers_in_range :: "rule \<Rightarrow> bool" where
  "numbers_in_range r \<longleftrightarrow>
     f_lt f_zero (r_DistanceBps r) \<and> f_le (r_DistanceBps r) (f_of_int 10000) \<and>
     f_lt f_zero (r_MinElapsedPercent r) \<and> f_le (r_MinElapsedPercent r) (f_of_int 100) \<and>
     2 \<le> r_Count r \<and> r_Count r \<le> 100 \<and> 1 \<le> r_Period r \<and> r_Name r \<noteq> ''''"

lemma offered_simps:
  "offered ''price_hits_zone'' ''kinds'' v = (v = ''fvg'' \<or> v = ''order_block'')"
  "offered ''price_hits_zone'' ''transitions'' v = (v = ''touched'' \<or> v = ''mitigated'')"
  "offered ''zone_transition'' ''kinds'' v = (v = ''fvg'' \<or> v = ''order_block'')"
  "offered ''zone_transition'' ''transitions'' v =
     (v = ''created'' \<or> v = ''touched'' \<or> v = ''mitigated'' \<or> v = ''invalidated'' \<or> v = ''expired'')"
  "offered ''price_near_zone'' ''kinds'' v = (v = ''fvg'' \<or> v = ''order_block'')"
  "offered ''price_crosses_indicator'' ''directions'' v = (v = ''above'' \<or> v = ''below'' \<or> v = ''either'')"
  "offered ''candle_color'' ''directions'' v = (v = ''red'' \<or> v = ''green'')"
  "offered ''candle_streak'' ''directions'' v = (v = ''red'' \<or> v = ''green'')"
  "offered ''candle_color_flip'' ''directions'' v = (v = ''either'' \<or> v = ''red_to_green'' \<or> v = ''green_to_red'')"
  "offered ''candle_color'' ''kinds'' v" "offered ''candle_color'' ''transitions'' v"
  by (simp_all add: offered_def catalog_def Let_def)

lemma f_order: "f_lt a b \<Longrightarrow> \<not> f_le b a" "f_le a b \<Longrightarrow> \<not> f_lt b a"
  by (cases a; cases b; auto simp: f_le_def split: if_splits)+

theorem catalog_rules_validate:
  assumes "r_Type r \<notin> {''all'', ''any'', ''not'', ''pattern''}" and "numbers_in_range r"
    and "offered (r_Type r) ''kinds'' (r_Kind r)" and "offered (r_Type r) ''transitions'' (r_Transition r)"
    and "offered (r_Type r) ''directions'' (r_Direction r)"
  shows "Validate r = None"
proof -
  from assms(3) have "map_of catalog (r_Type r) \<noteq> None" by (auto simp: offered_def split: option.splits)
  then have "r_Type r \<in> {''price_hits_zone'', ''zone_transition'', ''price_near_zone'', ''price_crosses_indicator'',
      ''candle_color'', ''candle_streak'', ''candle_color_flip''}"
    using assms(1) by (simp add: catalog_def Let_def split: if_splits)
  then consider "r_Type r = ''price_hits_zone''" | "r_Type r = ''zone_transition''" | "r_Type r = ''price_near_zone''"
    | "r_Type r = ''price_crosses_indicator''" | "r_Type r = ''candle_color''" | "r_Type r = ''candle_streak''"
    | "r_Type r = ''candle_color_flip''" unfolding insert_iff empty_iff by blast
  then show ?thesis
    by cases (insert assms(2-5), simp_all add: Validate_def validate.simps [of r] maxDepth_def numbers_in_range_def
        offered_simps f_order, (elim conjE disjE; simp)+)
qed

lemma small_floats: "f_of_int 100 = F_Fin False 100" "f_of_int 10000 = F_Fin False 10000"
  by (simp_all add: f_of_int_def f_of_rat_def f_round_def ilog2_def bit_len.simps pow2_def Let_def round_half_even_def)

lemma sample_numbers: "numbers_in_range (Rule t [] None k '''' tr ''ema'' 20 d 2 (F_Fin False 5) (F_Fin False 5))"
  by (simp add: numbers_in_range_def small_floats f_le_def f_zero_def f_signed_def)

theorem catalog_rules_validate_witness:
  "Validate (Rule ''candle_color'' [] None ''fvg'' '''' ''touched'' ''ema'' 20 ''red'' 2 (F_Fin False 5) (F_Fin False 5)) = None"
  by (rule catalog_rules_validate [OF _ sample_numbers]) (simp_all add: offered_simps)

end
