(* ===== verification/Postgres_Leases.thy ===== *)
theory Postgres_Leases
  imports Postgres_Laws
begin

text \<open>
  The leases of the PostgreSQL repository: at any instant they satisfy the lease contract, and over time a worker
  keeps what it acquired or renewed until the lease expires, whatever other workers do.
\<close>

section \<open>The table\<close>

lemma puts_lease: "pg_leases (foldl (put_lease owner t) s ps) q =
    (if q \<in> set ps then Some \<lparr>pl_owner_id = owner, pl_expires_at = t\<rparr> else pg_leases s q)"
  by (induction ps arbitrary: s) (auto simp: put_lease_def)

lemma length_filter_all: "length (filter p xs) = length xs \<Longrightarrow> \<forall>x \<in> set xs. p x"
  by (metis filter_id_conv length_filter_less less_irrefl)

lemma acquire_ids_True:
  assumes "acquire_ids drv now ttl owner ids s = (Inr True, s')"
  shows "s' = foldl (put_lease owner (now + ttl)) s ids" and "\<forall>p \<in> set ids. available now owner s p"
    and "\<forall>p \<in> set ids. 0 \<le> p \<and> p < 256"
proof -
  let ?granted = "filter (available now owner s) ids"
  from assms have len: "length ?granted = length ids" and s': "s' = foldl (put_lease owner (now + ttl)) s ?granted"
    and range: "\<not> list_ex (\<lambda>p. p < 0 \<or> p \<ge> 256) ids"
    by (auto simp: acquire_ids_def exec_def pg_fail_def settle_def Let_def split: option.splits if_splits)
  from len show all: "\<forall>p \<in> set ids. available now owner s p" by (rule length_filter_all)
  then have "?granted = ids" by (simp add: filter_id_conv)
  with s' show "s' = foldl (put_lease owner (now + ttl)) s ids" by simp
  show "\<forall>p \<in> set ids. 0 \<le> p \<and> p < 256" using range by (auto simp: list_ex_iff not_le not_less)
qed

lemma acquire_ids_other: "acquire_ids drv now ttl owner ids s = (res, s') \<Longrightarrow> res \<noteq> Inr True \<Longrightarrow> s' = s"
  by (auto simp: acquire_ids_def exec_def pg_fail_def settle_def Let_def split: option.splits if_splits)

section \<open>The lease contract at an instant\<close>

definition live_lease :: "go_time \<Rightarrow> pg \<Rightarrow> string \<Rightarrow> int \<Rightarrow> bool" where
  "live_lease now s owner p \<longleftrightarrow>
     (case pg_leases s p of None \<Rightarrow> False | Some r \<Rightarrow> pl_owner_id r = owner \<and> now < pl_expires_at r)"

definition acquire_live :: "driver \<Rightarrow> go_time \<Rightarrow> duration \<Rightarrow> string \<Rightarrow> int list \<Rightarrow> pg \<Rightarrow> bool \<times> pg" where
  "acquire_live drv now ttl owner ids s = (case acquire_ids drv now ttl owner ids s of (res, s') \<Rightarrow> (res = Inr True, s'))"

text \<open>A clock and a lease time that is positive; the release reaches the database.\<close>

locale lease_clock =
  fixes drv :: driver and now :: go_time and ttl :: duration
  assumes ttl_positive: "0 < ttl" and release_works: "drv_fault drv Stmt_Release = None"

sublocale lease_clock < lease: lease_store "acquire_live drv now ttl" "\<lambda>a s. snd (pg_ReleasePartitions drv a s)" "live_lease now"
proof
  fix a b ps p s s'
  note simps = acquire_live_def live_lease_def puts_lease
  have release: "snd (pg_ReleasePartitions drv a s) = s\<lparr>pg_leases := (\<lambda>p. if owns_lease a s p then None else pg_leases s p)\<rparr>"
    using release_works by (simp add: pg_ReleasePartitions_def exec_def settle_def)
  show "live_lease now s a p \<Longrightarrow> live_lease now s b p \<Longrightarrow> a = b"
    by (auto simp: live_lease_def split: option.splits)
  show "acquire_live drv now ttl a ps s = (False, s') \<Longrightarrow> s' = s"
    using acquire_ids_other [of drv now ttl a ps s] by (auto simp: acquire_live_def split: prod.splits)
  show "acquire_live drv now ttl a ps s = (True, s') \<Longrightarrow> p \<in> set ps \<Longrightarrow> live_lease now s' a p"
    using acquire_ids_True(1) [of drv now ttl a ps s s'] ttl_positive by (auto simp: simps split: prod.splits)
  show "acquire_live drv now ttl a ps s = (True, s') \<Longrightarrow> p \<in> set ps \<Longrightarrow> live_lease now s b p \<Longrightarrow> b = a"
    using acquire_ids_True(2) [of drv now ttl a ps s s'] by (auto simp: simps available_def split: prod.splits option.splits)
  show "acquire_live drv now ttl a ps s = (True, s') \<Longrightarrow> p \<notin> set ps \<Longrightarrow> live_lease now s' b p = live_lease now s b p"
    using acquire_ids_True(1) [of drv now ttl a ps s s'] by (auto simp: simps split: prod.splits)
  show "\<not> live_lease now (snd (pg_ReleasePartitions drv a s)) a p"
    by (auto simp: release live_lease_def owns_lease_def split: option.splits)
  show "b \<noteq> a \<Longrightarrow> live_lease now (snd (pg_ReleasePartitions drv a s)) b p = live_lease now s b p"
    by (auto simp: release live_lease_def owns_lease_def split: option.splits)
qed

interpretation default_lease: lease_clock plain_driver now "15 * second" for now
  by unfold_locales (simp_all add: plain_driver_def)

section \<open>Leases over time\<close>

text \<open>Calls of workers, each with the driver and the clock it met.\<close>

datatype lease_call = Acquire_Call string "int list" duration | Renew_Call string "int list" duration | Release_Call string

definition caller :: "lease_call \<Rightarrow> string" where
  "caller c = (case c of Acquire_Call a ps ttl \<Rightarrow> a | Renew_Call a ps ttl \<Rightarrow> a | Release_Call a \<Rightarrow> a)"

definition do_call :: "pg \<Rightarrow> driver \<times> go_time \<times> lease_call \<Rightarrow> pg" where
  "do_call s dnc = (case dnc of (drv, now, c) \<Rightarrow>
    (case c of Acquire_Call a ps ttl \<Rightarrow> snd (pg_AcquirePartitions drv now a ps ttl s)
     | Renew_Call a ps ttl \<Rightarrow> snd (pg_RenewPartitions drv now a ps ttl s)
     | Release_Call a \<Rightarrow> snd (pg_ReleasePartitions drv a s)))"

lemma renew_True:
  assumes "pg_RenewPartitions drv now a ps ttl s = (res, s')"
  shows "s' = s \<or> s' = foldl (put_lease a (now + ttl)) s (filter (owns_lease a s) (remdups (smallintPartitions ps)))"
  using assms by (auto simp: pg_RenewPartitions_def exec_def pg_fail_def settle_def Let_def split: option.splits)

lemma do_call_keeps:
  assumes "pg_leases s p = Some r" and "caller c \<noteq> pl_owner_id r" and "now < pl_expires_at r"
  shows "pg_leases (do_call s (drv, now, c)) p = Some r"
proof (cases c)
  case (Acquire_Call b ps ttl)
  obtain res s' where q: "acquire_ids drv now ttl b (smallintPartitions ps) s = (res, s')" by fastforce
  show ?thesis
  proof (cases "res = Inr True")
    case True
    from acquire_ids_True(1,2) [OF q [unfolded True]] assms Acquire_Call q show ?thesis
      by (auto simp: do_call_def pg_AcquirePartitions_def puts_lease available_def caller_def)
  next
    case False
    with acquire_ids_other [OF q] assms(1) Acquire_Call q show ?thesis
      by (simp add: do_call_def pg_AcquirePartitions_def)
  qed
next
  case (Renew_Call b ps ttl)
  obtain res s' where q: "pg_RenewPartitions drv now b ps ttl s = (res, s')" by fastforce
  with renew_True [OF q] assms Renew_Call show ?thesis
    by (auto simp: do_call_def puts_lease owns_lease_def caller_def)
next
  case (Release_Call b)
  with assms show ?thesis
    by (auto simp: do_call_def pg_ReleasePartitions_def exec_def pg_fail_def settle_def owns_lease_def caller_def split: option.splits)
qed

lemma do_calls_keep:
  "pg_leases s p = Some r \<Longrightarrow> \<forall>(drv, now, c) \<in> set calls. caller c \<noteq> pl_owner_id r \<and> now < pl_expires_at r \<Longrightarrow>
     pg_leases (foldl do_call s calls) p = Some r"
  by (induction calls arbitrary: s) (auto intro: do_call_keeps)

text \<open>
  A lease excludes every other worker until it expires: after a worker has acquired its partitions, and whatever
  acquisitions, renewals and releases other workers try before the lease time is over, no other worker gets any of the
  partitions, and a renewal by the holder that reaches the database succeeds.
\<close>

theorem lease_excludes_until_expiry:
  assumes "pg_AcquirePartitions drv t a ps ttl s = (Inr True, s1)"
    and "\<forall>(drv', now, c) \<in> set calls. caller c \<noteq> a \<and> now < t + ttl" and "distinct ps" and "\<forall>p \<in> set ps. 0 \<le> p \<and> p < 256"
    and "now < t + ttl" and "b \<noteq> a" and "set qs \<inter> set ps \<noteq> {}" and "drv_fault drv2 Stmt_Renew = None"
  shows "fst (pg_AcquirePartitions drv1 now b qs ttl1 (foldl do_call s1 calls)) \<noteq> Inr True \<and>
    fst (pg_RenewPartitions drv2 now a ps ttl2 (foldl do_call s1 calls)) = Inr True"
proof
  let ?s = "foldl do_call s1 calls"
  have small: "smallintPartitions ps = ps"
    unfolding smallintPartitions_def using assms(4) smallint_id by (intro map_idI) auto
  from assms(1) small have "acquire_ids drv t ttl a ps s = (Inr True, s1)"
    by (simp add: pg_AcquirePartitions_def split: if_splits)
  from acquire_ids_True(1) [OF this] have "pg_leases s1 p = Some \<lparr>pl_owner_id = a, pl_expires_at = t + ttl\<rparr>" if "p \<in> set ps" for p
    using that by (simp add: puts_lease)
  from do_calls_keep [OF this] assms(2) have held: "pg_leases ?s p = Some \<lparr>pl_owner_id = a, pl_expires_at = t + ttl\<rparr>" if "p \<in> set ps" for p
    using that by simp
  then have "filter (owns_lease a ?s) ps = ps" by (simp add: filter_id_conv owns_lease_def)
  with assms(3,8) small show "fst (pg_RenewPartitions drv2 now a ps ttl2 ?s) = Inr True"
    by (simp add: pg_RenewPartitions_def exec_def settle_def distinct_remdups_id)
  show "fst (pg_AcquirePartitions drv1 now b qs ttl1 ?s) \<noteq> Inr True"
  proof
    assume "fst (pg_AcquirePartitions drv1 now b qs ttl1 ?s) = Inr True"
    then obtain s2 where "acquire_ids drv1 now ttl1 b (smallintPartitions qs) ?s = (Inr True, s2)"
      by (cases "acquire_ids drv1 now ttl1 b (smallintPartitions qs) ?s") (auto simp: pg_AcquirePartitions_def split: if_splits)
    from acquire_ids_True(2) [OF this] have "\<forall>p \<in> set qs. available now b ?s (smallint p)" by (simp add: smallintPartitions_def)
    moreover obtain p where "p \<in> set qs" "p \<in> set ps" using assms(7) by blast
    moreover from this(2) assms(4) have "smallint p = p" by (intro smallint_id) auto
    ultimately show False using held [of p] assms(5,6) by (auto simp: available_def)
  qed
qed

theorem lease_excludes_until_expiry_witness:
  "\<exists>s1. pg_AcquirePartitions plain_driver 0 ''a'' [0, 2] (15 * second) empty_pg = (Inr True, s1) \<and>
     fst (pg_AcquirePartitions plain_driver 9 ''b'' [1, 2] second (foldl do_call s1 [(plain_driver, 8, Release_Call ''b'')])) \<noteq> Inr True"
proof -
  obtain s1 where s1: "pg_AcquirePartitions plain_driver 0 ''a'' [0, 2] (15 * second) empty_pg = (Inr True, s1)"
    by (simp add: pg_AcquirePartitions_def acquire_ids_def exec_def plain_driver_def available_def empty_pg_def
        smallintPartitions_def smallint_def settle_def Let_def)
  have "fst (pg_AcquirePartitions plain_driver 9 ''b'' [1, 2] second (foldl do_call s1 [(plain_driver, 8, Release_Call ''b'')])) \<noteq> Inr True \<and>
    fst (pg_RenewPartitions plain_driver 9 ''a'' [0, 2] second (foldl do_call s1 [(plain_driver, 8, Release_Call ''b'')])) = Inr True"
    by (rule lease_excludes_until_expiry [OF s1]) (simp_all add: caller_def plain_driver_def)
  with s1 show ?thesis by blast
qed

end
