(* ===== verification/Alertsd.thy ===== *)
theory Alertsd
  imports Config Broker Api Postgres_Leases
begin

text \<open>
  \<open>cmd/alertsd/main.go\<close>: a worker from its configuration to its loops. The repository is the parameter \<open>ops\<close>
  over \<open>'r\<close>, opened already; the connection to the broker is \<open>js\<close> over \<open>'w\<close>. The goroutines the command starts
  are the loops modelled with their components; the loop of this file, the renewal of leases, is given by its
  body. The end of \<open>run\<close> is what it returns for each case of its \<open>select\<close> and the release of the leases;
  how the goroutines interleave is modelled in \<open>Cluster\<close>. Logging and the shutdown of the HTTP server are left out.
\<close>

section \<open>Starting\<close>

definition main_partitions :: "config \<Rightarrow> int list" where
  "main_partitions c = filter (\<lambda>p. p mod cfg_WorkerCount c = cfg_WorkerIndex c) [0..255]"

definition main_broker_options :: "config \<Rightarrow> broker_options" where
  "main_broker_options c =
     \<lparr>bo_URL = cfg_NATSURL c, bo_Token = cfg_NATSToken c, bo_Durable = cfg_NATSDurable c, bo_Replicas = cfg_NATSReplicas c,
      bo_MaxDeliveries = cfg_NATSMaxDeliveries c, bo_AckWait = cfg_NATSAckWait c, bo_WorkerIndex = cfg_WorkerIndex c,
      bo_WorkerCount = cfg_WorkerCount c, bo_BatchSize = cfg_EvaluationBatchSize c\<rparr>"

definition main_service_options :: "config \<Rightarrow> service_options" where
  "main_service_options c =
     \<lparr>so_ActivationDelay = cfg_DefinitionActivationDelay c, so_DefinitionMaxStaleness = cfg_DefinitionMaxStaleness c,
      so_WorkerIndex = cfg_WorkerIndex c, so_WorkerCount = cfg_WorkerCount c\<rparr>"

definition main_retention :: "config \<Rightarrow> retention_policy" where
  "main_retention c =
     \<lparr>rp_ProvisionalInbox = cfg_ProvisionalInboxRetention c, rp_ConfirmedInbox = cfg_ConfirmedInboxRetention c,
      rp_AlertEvents = cfg_AlertEventRetention c, rp_BatchSize = cfg_MaintenanceBatchSize c\<rparr>"

definition main_server_options :: "config \<Rightarrow> server_options" where
  "main_server_options c =
     \<lparr>svo_Addr = cfg_Addr c, svo_APIToken = cfg_APIToken c, svo_IngestToken = cfg_IngestToken c, svo_Insecure = cfg_Insecure c\<rparr>"

datatype start_error =
    AcquireFailed store_error | AlreadyOwned | BrokerOpen open_error | InitializeFailed engine_error | ServerInvalid server_error

text \<open>
  What follows the lease: broker, service and server. \<open>run\<close> gives the leases back when it returns, so also when
  one of these fails.
\<close>

definition start_service ::
  "'r repository \<Rightarrow> go_time \<Rightarrow> config \<Rightarrow> jetstream option \<Rightarrow> 'r \<Rightarrow> start_error + jetstream option \<times> 'r service" where
  "start_service ops now c stream r =
    (case service_Initialize ops now (NewWithOptions r (main_service_options c)) of
       (Some err, _) \<Rightarrow> Inl (InitializeFailed err)
     | (None, s) \<Rightarrow>
        (case New_error (main_server_options c) of
           Some err \<Rightarrow> Inl (ServerInvalid err)
         | None \<Rightarrow> Inr (stream, s)))"

definition run_start ::
  "'r repository \<Rightarrow> ('d, 'w) js_client \<Rightarrow> go_time \<Rightarrow> config \<Rightarrow> 'r \<Rightarrow> 'w \<Rightarrow> (start_error + jetstream option \<times> 'r service) \<times> 'r \<times> 'w" where
  "run_start ops js now c r w =
    (case repo_AcquirePartitions ops (cfg_InstanceID c) (main_partitions c) (cfg_PartitionLeaseTTL c) r of
       (Inl err, r1) \<Rightarrow> (Inl (AcquireFailed err), r1, w)
     | (Inr False, r1) \<Rightarrow> (Inl AlreadyOwned, r1, w)
     | (Inr True, r1) \<Rightarrow>
        let release = snd (repo_ReleasePartitions ops (cfg_InstanceID c) r1)
        in case (if cfg_NATSURL c = '''' then (Inr None, w)
                 else (case broker_Open js (main_broker_options c) w of
                         (Inl err, w1) \<Rightarrow> (Inl err, w1) | (Inr j, w1) \<Rightarrow> (Inr (Some j), w1))) of
             (Inl err, w1) \<Rightarrow> (Inl (BrokerOpen err), release, w1)
           | (Inr stream, w1) \<Rightarrow>
               (case start_service ops now c stream r1 of
                  Inl err \<Rightarrow> (Inl err, release, w1)
                | Inr started \<Rightarrow> (Inr started, r1, w1)))"

section \<open>Renewing the leases\<close>

datatype lease_error = RenewFailed store_error | NoLongerOwned

text \<open>The body of \<open>renewLeases\<close> on a tick; \<open>Some\<close> is the error that stops the worker.\<close>

definition renew_tick :: "'r repository \<Rightarrow> config \<Rightarrow> 'r \<Rightarrow> lease_error option \<times> 'r" where
  "renew_tick ops c r =
    (case repo_RenewPartitions ops (cfg_InstanceID c) (main_partitions c) (cfg_PartitionLeaseTTL c) r of
       (Inl err, r1) \<Rightarrow> (Some (RenewFailed err), r1)
     | (Inr False, r1) \<Rightarrow> (Some NoLongerOwned, r1)
     | (Inr True, r1) \<Rightarrow> (None, r1))"

section \<open>The end of a worker\<close>

datatype server_end = Server_Closed | Server_Failure string

datatype stop_cause =
    Signalled
  | Server_Stopped server_end
  | Consumer_Stopped "(subscribe_error + nats_error) option"
  | Lease_Stopped lease_error

datatype run_error = Run_Server string | Run_Consumer "subscribe_error + nats_error" | Lease_Lost lease_error

text \<open>What \<open>run\<close> returns for each case of its \<open>select\<close>; a server that was closed falls through to nil.\<close>

definition run_result :: "stop_cause \<Rightarrow> run_error option" where
  "run_result cause =
    (case cause of
       Signalled \<Rightarrow> None
     | Server_Stopped Server_Closed \<Rightarrow> None
     | Server_Stopped (Server_Failure e) \<Rightarrow> Some (Run_Server e)
     | Consumer_Stopped err \<Rightarrow> map_option Run_Consumer err
     | Lease_Stopped err \<Rightarrow> Some (Lease_Lost err))"

text \<open>Whether the context is cancelled before the deferred calls run: by the signal, or by \<open>stop()\<close> when a lease is lost.\<close>

definition stops_context :: "stop_cause \<Rightarrow> bool" where
  "stops_context cause \<longleftrightarrow> (case cause of Signalled \<Rightarrow> True | Lease_Stopped _ \<Rightarrow> True | _ \<Rightarrow> False)"

text \<open>The deferred release of the leases; its error is dropped.\<close>

definition run_release :: "'r repository \<Rightarrow> config \<Rightarrow> 'r \<Rightarrow> 'r" where
  "run_release ops c r = snd (repo_ReleasePartitions ops (cfg_InstanceID c) r)"

end
