(* ===== verification/Alertsd_Laws.thy ===== *)
theory Alertsd_Laws
  imports Alertsd
begin

text \<open>
  Properties of a worker as a whole: the partitions it leases, evaluates and consumes are the same; a start that fails
  leaves no lease behind; a definition that was switched is known to every worker before the switch takes effect; and
  where the two stores make the interface answer differently.
\<close>

section \<open>Starting over PostgreSQL\<close>

lemma ints_upto: "map int [0..<n] = [0..int n - 1]"
proof (rule sorted_distinct_set_unique)
  have "x \<in> int ` {0..<n}" if "0 \<le> x" and "x < int n" for x
    using that by (intro image_eqI [of _ _ "nat x"]) auto
  then show "set (map int [0..<n]) = set [0..int n - 1]" by auto
qed (simp_all add: sorted_iff_nth_mono distinct_map)

lemma ownedPartitions_cong:
  "length (e_partitions e) = length (e_partitions e') \<Longrightarrow> e_workerIndex e = e_workerIndex e' \<Longrightarrow> e_workerCount e = e_workerCount e' \<Longrightarrow>
     ownedPartitions e = ownedPartitions e'"
  by (simp add: ownedPartitions_def owns_def [abs_def])

lemma owned_main: "1 \<le> n \<Longrightarrow> ownedPartitions (NewWithOwnership DefaultPartitions w n) = filter (\<lambda>p. p mod n = w) [0..255]"
  using ints_upto [of 256]
  by (simp add: ownedPartitions_def NewWithOwnership_def DefaultPartitions_def Let_def owns_def [abs_def] del: upt_conv_Cons)

lemma Initialize_owned: "Initialize now lst load e = (None, e') \<Longrightarrow> ownedPartitions e' = ownedPartitions e"
  by (rule ownedPartitions_cong)
     (auto simp: Initialize_def ReplaceDefinitions_def split: sum.splits prod.splits option.splits)

lemma main_partitions_small: "smallintPartitions (main_partitions c) = main_partitions c"
  unfolding smallintPartitions_def by (rule map_idI) (auto simp: main_partitions_def intro!: smallint_id)

lemma broker_Open_worker:
  assumes "broker_Open js opts w = (Inr j, w')" and "1 \<le> bo_WorkerCount opts"
  shows "jst_workerCount j = bo_WorkerCount opts \<and> jst_workerIndex j = bo_WorkerIndex opts"
  using assms by (auto simp: broker_Open_def open_options_def Let_def split: if_splits option.splits prod.splits)

lemma run_start_Inr:
  assumes "run_start ops js now c r w = (Inr (stream, s), r', w')"
  shows "repo_AcquirePartitions ops (cfg_InstanceID c) (main_partitions c) (cfg_PartitionLeaseTTL c) r = (Inr True, r')"
    and "start_service ops now c stream r' = Inr (stream, s)"
    and "stream = None \<or> (\<exists>j. stream = Some j \<and> broker_Open js (main_broker_options c) w = (Inr j, w'))"
  using assms by (auto simp: run_start_def Let_def start_service_def split: sum.splits prod.splits bool.splits if_splits option.splits)

text \<open>
  C32. What a worker leases, what it evaluates and what it consumes are the same: when a worker starts over PostgreSQL with a
  configuration that was accepted, it holds the lease of exactly the partitions its engine owns, until the time to
  live is over, and its consumer, if any, reads exactly the shards of these partitions.
\<close>

theorem worker_serves_what_it_leases:
  assumes "Load getenv hostname pid = Inr c" and "run_start (pg_repository drv now) js now c db w = (Inr (stream, s), db', w')"
  shows "ownedPartitions (sv_runtime s) = main_partitions c \<and>
         (\<forall>p \<in> set (main_partitions c). pg_leases db' p =
            Some \<lparr>pl_owner_id = cfg_InstanceID c, pl_expires_at = now + cfg_PartitionLeaseTTL c\<rparr>) \<and>
         (\<forall>j. stream = Some j \<longrightarrow> consumed_shards j = main_partitions c)"
proof -
  note started = run_start_Inr [OF assms(2)]
  have n: "1 \<le> cfg_WorkerCount c" using Load_sound [OF assms(1)] by simp
  from started(1) have "acquire_ids drv now (cfg_PartitionLeaseTTL c) (cfg_InstanceID c) (main_partitions c) db = (Inr True, db')"
    by (auto simp: pg_repository_def pg_AcquirePartitions_def main_partitions_small split: if_splits)
  from acquire_ids_True(1) [OF this] have leases: "\<forall>p \<in> set (main_partitions c). pg_leases db' p =
      Some \<lparr>pl_owner_id = cfg_InstanceID c, pl_expires_at = now + cfg_PartitionLeaseTTL c\<rparr>"
    by (simp add: puts_lease)
  from started(2) obtain lst load where
    "Initialize now lst load (NewWithOwnership DefaultPartitions (cfg_WorkerIndex c) (cfg_WorkerCount c)) = (None, sv_runtime s)"
    by (auto simp: start_service_def service_Initialize_def NewWithOptions_def main_service_options_def split: prod.splits option.splits)
  from Initialize_owned [OF this] n have engine: "ownedPartitions (sv_runtime s) = main_partitions c"
    by (simp add: owned_main main_partitions_def)
  have "consumed_shards j = main_partitions c" if "stream = Some j" for j
    using started(3) that n broker_Open_worker [of js "main_broker_options c" w j w']
    by (auto simp: consumed_shards_def main_partitions_def main_broker_options_def EvaluationPartitions_def)
  with engine leases show ?thesis by blast
qed

section \<open>Switching a definition on every worker\<close>

lemma served_after_refresh:
  assumes "ReplaceDefinitions r ds e0 = (None, e)" and "d \<in> set ds" and "matchSeries (dfn_Series d) s"
  shows "d \<in> cd_definition ` set (definitionsFor s e)"
proof -
  have route: "d \<in> cd_definition ` set (get_route (e_byRoute e) (routeKey (dfn_Series d)))"
    using assms(2) by (force simp: ReplaceDefinitions_route(1) [OF assms(1)] sort_route_def image_image)
  show ?thesis
  proof (cases "dfn_Series d = s")
    case True
    with route show ?thesis by (auto simp: definitionsFor_members)
  next
    case False
    with assms(3) have w: "dfn_Series d = wildcard_of s" by (simp add: matchSeries_iff)
    with False have "ser_Dataset s \<noteq> ''''" by (cases s) (auto simp: wildcard_of_def)
    with route w show ?thesis by (auto simp: definitionsFor_members)
  qed
qed

lemma Replace_refreshedAt: "ReplaceDefinitions r ds e = (None, e') \<Longrightarrow> e_refreshedAt e' = unix_nano r"
  by (auto simp: ReplaceDefinitions_def split: sum.splits)

lemma fresh_refreshed:
  assumes "DefinitionsFresh now stale e" and "e_refreshedAt e = unix_nano r" and "unix_epoch < r" and "r - unix_epoch < 2 ^ 63"
    and "0 < stale" and "stale < 2 ^ 63 - 1"
  shows "now - r \<le> stale"
  using assms by (auto simp: DefinitionsFresh_def unix_nano_def unix_epoch_def time_sub_def min_def max_def split: if_splits)

lemma pg_SetEnabled_row:
  assumes "pg_SetEnabled drv t i b eff db = (Inr d, db')"
  shows "dfn_Enabled d = b \<and> dfn_EffectiveAt d = pg_time eff"
  using assms
  by (auto simp: pg_SetEnabled_def exec_def pg_fail_def settle_def switched_def split: option.splits)

lemma listed_live:
  assumes "pg_ListDefinitions drv u db = Inr ds" and "row \<in> set (pg_definitions db)" and "live_row row"
  shows "pd_definition row \<in> set ds"
proof -
  have "row \<in> set (filter (\<lambda>r. case pd_archived_at r of None \<Rightarrow> True | Some t \<Rightarrow> t > u) (pg_definitions db))"
    using assms(2,3) by (simp add: live_row_def)
  then show ?thesis
    using assms(1) by (auto simp: pg_ListDefinitions_def exec_def pg_fail_def settle_def simp del: filter_set split: option.splits)
qed

lemma pg_time_bounds: "t - microsecond < pg_time t \<and> pg_time t \<le> t"
  using pos_mod_bound [of microsecond t] pos_mod_sign [of microsecond t] div_mult_mod_eq [of t microsecond]
  by (simp add: pg_time_def) linarith

text \<open>
  C31. A switch is in force on every worker when it takes effect: let a definition be switched over PostgreSQL at \<open>t\<close>, with the
  activation delay of an accepted configuration, and stay in the database. Any worker that evaluates a batch
  successfully at \<open>t\<close> plus the delay or later, its last refresh having been read at \<open>u\<close> and installed at \<open>r\<close> with less latency
  than the delay exceeds the staleness allowed, serves the switched definition for every series it
  selects, and every event from then on finds it as requested.
\<close>

theorem switch_in_force_everywhere:
  assumes "Load getenv hostname pid = Inr c" and "unix_epoch < t"
    and "pg_SetEnabled drv t i b (t + cfg_DefinitionActivationDelay c) db0 = (Inr d, db1)"
    and "\<forall>u > t. \<exists>row \<in> set (pg_definitions (db u)). pd_definition row = d \<and> live_row row"
    and "pg_ListDefinitions drv' u (db u) = Inr ds" and "ReplaceDefinitions r ds e0 = (None, sv_runtime s)"
    and "r - u < cfg_DefinitionActivationDelay c - cfg_DefinitionMaxStaleness c" and "unix_epoch < r" and "r - unix_epoch < 2 ^ 63"
    and "sv_definitionMaxStaleness s = cfg_DefinitionMaxStaleness c" and "cfg_DefinitionActivationDelay c < 2 ^ 63"
    and "IngestBatch ops now elapsed p os s = Some (Inr alerts, s')" and "t + cfg_DefinitionActivationDelay c \<le> now"
  shows "(\<forall>x. matchSeries (dfn_Series d) x \<longrightarrow> d \<in> cd_definition ` set (definitionsFor x (sv_runtime s))) \<and>
         (\<forall>v \<ge> t + cfg_DefinitionActivationDelay c. definitionEnabledAt d v = b)"
proof -
  let ?delay = "cfg_DefinitionActivationDelay c" and ?stale = "cfg_DefinitionMaxStaleness c"
  have bounds: "0 < ?stale" "?stale < ?delay" using Load_sound [OF assms(1)] by simp_all
  have "DefinitionsFresh now ?stale (sv_runtime s)"
    using assms(10,12) by (auto simp: IngestBatch_def split: if_splits)
  moreover have "e_refreshedAt (sv_runtime s) = unix_nano r"
    using assms(6) by (rule Replace_refreshedAt)
  ultimately have "now - r \<le> ?stale" using bounds assms(8,9,11) by (intro fresh_refreshed) simp_all
  with assms(7,13) have "t < u" by simp
  with assms(4) obtain row where "row \<in> set (pg_definitions (db u))" "pd_definition row = d" "live_row row" by blast
  with listed_live [OF assms(5)] have ds: "d \<in> set ds" by blast
  have d: "dfn_Enabled d = b" "dfn_EffectiveAt d = pg_time (t + ?delay)"
    using pg_SetEnabled_row [OF assms(3)] by simp_all
  have "0 < pg_time (t + ?delay)" "pg_time (t + ?delay) \<le> t + ?delay"
    using assms(2) bounds pg_time_bounds [of "t + ?delay"] by (simp_all add: unix_epoch_def)
  with d have "definitionEnabledAt d v = b" if "t + ?delay \<le> v" for v
    using that by (auto simp: definitionEnabledAt_def effectiveAt_def is_zero_def)
  with served_after_refresh [OF assms(6) ds] show ?thesis by blast
qed

section \<open>Witnesses of a start\<close>

lemma puts_definitions: "pg_definitions (foldl (put_lease owner t) s ps) = pg_definitions s"
  by (induction ps arbitrary: s) (simp_all add: put_lease_def)

lemma plain_load: "\<exists>snap. pg_LoadRuntimeStates plain_driver ps s = Inr snap"
  by (simp add: pg_LoadRuntimeStates_def plain_driver_def Let_def)

lemma plain_initialize:
  assumes "pg_definitions db = []"
  shows "\<exists>s. service_Initialize (pg_repository plain_driver t) t (NewWithOptions db opts) = (None, s)"
proof -
  have "pg_ListDefinitions plain_driver t db = Inr []"
    using assms by (simp add: pg_ListDefinitions_def exec_def plain_driver_def settle_def)
  moreover obtain e1 where "ReplaceDefinitions t [] (sv_runtime (NewWithOptions db opts)) = (None, e1)"
    by (simp add: ReplaceDefinitions_def)
  moreover obtain snap where "pg_LoadRuntimeStates plain_driver (ownedPartitions e1) db = Inr snap" using plain_load by blast
  ultimately show ?thesis
    by (simp add: service_Initialize_def Initialize_def pg_repository_def NewWithOptions_def)
qed

lemma plain_start:
  assumes "pg_definitions db = []"
  shows "New_error (main_server_options c) = None \<Longrightarrow>
           \<exists>s. start_service (pg_repository plain_driver t) t c stream db = Inr (stream, s)"
    and "New_error (main_server_options c) = Some err \<Longrightarrow>
           start_service (pg_repository plain_driver t) t c stream db = Inl (ServerInvalid err)"
  using plain_initialize [OF assms, of t "main_service_options c"] by (auto simp: start_service_def)

lemma development_acquire:
  assumes "Load development_env ''host'' 1 = Inr c"
  shows "\<exists>db. repo_AcquirePartitions (pg_repository plain_driver 7) (cfg_InstanceID c) (main_partitions c) (cfg_PartitionLeaseTTL c) empty_pg =
           (Inr True, db) \<and> pg_definitions db = []"
proof -
  let ?ps = "main_partitions c" and ?db = "foldl (put_lease (cfg_InstanceID c) (7 + cfg_PartitionLeaseTTL c)) empty_pg (main_partitions c)"
  have n: "1 \<le> cfg_WorkerCount c" "0 \<le> cfg_WorkerIndex c" "cfg_WorkerIndex c < cfg_WorkerCount c" "cfg_WorkerCount c \<le> 256"
    using Load_sound [OF assms(1)] by (auto split: if_splits)
  then have "cfg_WorkerIndex c \<in> set ?ps" by (auto simp: main_partitions_def)
  then have "?ps \<noteq> []" by auto
  moreover have "acquire_ids plain_driver 7 (cfg_PartitionLeaseTTL c) (cfg_InstanceID c) ?ps empty_pg = (Inr True, ?db)"
    by (auto simp: acquire_ids_def exec_def plain_driver_def settle_def list_ex_iff main_partitions_def available_def empty_pg_def Let_def)
  ultimately show ?thesis
    by (simp add: pg_repository_def pg_AcquirePartitions_def main_partitions_small puts_definitions empty_pg_def)
qed

lemma development_start:
  assumes "Load development_env ''host'' 1 = Inr c" and "cfg_NATSURL c = ''''" and "cfg_Insecure c" and "cfg_Addr c = '':8100''"
  shows "\<exists>s db'. run_start (pg_repository plain_driver 7) js 7 c empty_pg w = (Inr (None, s), db', w)"
proof -
  obtain db where db: "repo_AcquirePartitions (pg_repository plain_driver 7) (cfg_InstanceID c) (main_partitions c)
      (cfg_PartitionLeaseTTL c) empty_pg = (Inr True, db)" "pg_definitions db = []"
    using development_acquire [OF assms(1)] by blast
  have "New_error (main_server_options c) = None" using assms by (simp add: New_error_def main_server_options_def)
  then obtain s where "start_service (pg_repository plain_driver 7) 7 c None db = Inr (None, s)"
    using plain_start(1) [OF db(2)] by blast
  with db assms(2) show ?thesis by (simp add: run_start_def Let_def)
qed

theorem worker_serves_what_it_leases_witness:
  "\<forall>js :: (unit, unit) js_client. \<exists>c s db'. Load development_env ''host'' 1 = Inr c \<and>
     (\<forall>p \<in> set (main_partitions c). pg_leases db' p = Some \<lparr>pl_owner_id = cfg_InstanceID c, pl_expires_at = 7 + 15 * second\<rparr>) \<and>
     run_start (pg_repository plain_driver 7) js 7 c empty_pg () = (Inr (None, s), db', ())"
proof
  fix js :: "(unit, unit) js_client"
  obtain c where c: "Load development_env ''host'' 1 = Inr c" "cfg_NATSURL c = ''''" "cfg_Insecure c" "cfg_Addr c = '':8100''"
    "cfg_PartitionLeaseTTL c = 15 * second"
    using development_loads by blast
  obtain s db' where s: "run_start (pg_repository plain_driver 7) js 7 c empty_pg () = (Inr (None, s), db', ())"
    using development_start [OF c(1-4), of js "()"] by blast
  from worker_serves_what_it_leases [OF c(1) s] c s
  show "\<exists>c s db'. Load development_env ''host'' 1 = Inr c \<and>
     (\<forall>p \<in> set (main_partitions c). pg_leases db' p = Some \<lparr>pl_owner_id = cfg_InstanceID c, pl_expires_at = 7 + 15 * second\<rparr>) \<and>
     run_start (pg_repository plain_driver 7) js 7 c empty_pg () = (Inr (None, s), db', ())" by auto
qed

theorem switch_in_force_everywhere_witness:
  "\<exists>c d db1 ds e s s'. Load development_env ''host'' 1 = Inr c \<and>
     pg_SetEnabled plain_driver (unix_epoch + second) ''a'' False (unix_epoch + second + cfg_DefinitionActivationDelay c)
       (empty_pg\<lparr>pg_definitions := [sample_row]\<rparr>) = (Inr d, db1) \<and>
     pg_ListDefinitions plain_driver (unix_epoch + 2 * second) db1 = Inr ds \<and>
     ReplaceDefinitions (unix_epoch + 2 * second) ds (New 1) = (None, e) \<and> sv_runtime s = e \<and>
     IngestBatch (pg_repository plain_driver 0) (unix_epoch + 3 * second) 1 0 [] s = Some (Inr [], s') \<and>
     (\<forall>v \<ge> unix_epoch + 3 * second. \<not> definitionEnabledAt d v)"
proof -
  let ?t = "unix_epoch + second" and ?u = "unix_epoch + 2 * second"
  obtain c where c: "Load development_env ''host'' 1 = Inr c" "cfg_DefinitionActivationDelay c = 2 * second" "cfg_DefinitionMaxStaleness c = second"
    using development_loads by blast
  let ?db0 = "empty_pg\<lparr>pg_definitions := [sample_row]\<rparr>" and ?row = "switched ?t False (?t + 2 * second) sample_row"
  let ?d = "pd_definition ?row" and ?db1 = "?db0\<lparr>pg_definitions := [?row]\<rparr>"
  have i: "has_id ''a'' sample_row" "live_row sample_row" "live_row ?row"
    by (simp_all add: has_id_def live_row_def sample_row_def sample_definitions switched_def)
  have sw: "pg_SetEnabled plain_driver ?t ''a'' False (?t + cfg_DefinitionActivationDelay c) ?db0 = (Inr ?d, ?db1)"
    using i by (simp add: pg_SetEnabled_def exec_def plain_driver_def settle_def c(2))
  have l: "pg_ListDefinitions plain_driver ?u ?db1 = Inr [?d]"
    using i by (simp add: pg_ListDefinitions_def exec_def plain_driver_def settle_def live_row_def)
  have "Validate (dfn_Rule ?d) = None" using red_definition_valid by (simp add: switched_def sample_row_def sample_definition_def)
  then obtain e where e: "ReplaceDefinitions ?u [?d] (New 1) = (None, e)"
    using build_routes_total [of "[?d]" Map.empty] by (auto simp: ReplaceDefinitions_def)
  let ?s = "(NewWithOptions ?db1 (main_service_options c))\<lparr>sv_runtime := e\<rparr>"
  have shape: "length (e_partitions e) = 1" "e_workerIndex e = 0" "e_workerCount e = 1" "e_refreshedAt e = unix_nano ?u"
    using e by (auto simp: ReplaceDefinitions_def New_def NewWithOwnership_def Let_def split: sum.splits)
  have fresh: "DefinitionsFresh (unix_epoch + 3 * second) second e"
    by (simp add: DefinitionsFresh_def shape unix_nano_def time_sub_def)
  have ev: "EvaluateBatch commit n 0 [] e r = Some (Inr [], e, r)" for commit n and r :: pg
    by (simp add: EvaluateBatch_def shape owns_def start_batch_def count_events_def Let_def)
  then obtain s' where b: "IngestBatch (pg_repository plain_driver 0) (unix_epoch + 3 * second) 1 0 [] ?s = Some (Inr [], s')"
    using fresh ev by (simp add: IngestBatch_def NewWithOptions_def main_service_options_def c(3) Let_def)
  have "\<not> definitionEnabledAt ?d v" if "unix_epoch + 3 * second \<le> v" for v
    using switch_in_force_everywhere [OF c(1) _ sw, of "\<lambda>_. ?db1" plain_driver ?u "[?d]" ?u "New 1" ?s] that i l e b
    by (auto simp: c NewWithOptions_def main_service_options_def unix_epoch_def)
  with c sw l e b show ?thesis
    by (intro exI [of _ c] exI [of _ ?d] exI [of _ ?db1] exI [of _ "[?d]"] exI [of _ e] exI [of _ ?s] exI [of _ s']) simp
qed

section \<open>A start that fails\<close>

text \<open>
  A start that fails leaves nothing behind: when the broker, the restored state or the server's options stop a worker
  that already has its leases, it has given them back, so that the next worker can acquire any of its partitions at once;
  when the leases themselves were refused, the database is as it was.
\<close>

theorem failed_start_releases:
  assumes "run_start (pg_repository drv now) js now c db w = (Inl err, db', w')" and "drv_fault drv Stmt_Release = None"
  shows "if err = AlreadyOwned \<or> (\<exists>e. err = AcquireFailed e) then db' = db
         else \<forall>p. \<not> owns_lease (cfg_InstanceID c) db' p"
proof -
  let ?ops = "pg_repository drv now"
  obtain res db1 where acq: "pg_AcquirePartitions drv now (cfg_InstanceID c) (main_partitions c) (cfg_PartitionLeaseTTL c) db = (res, db1)"
    by fastforce
  have rel: "snd (repo_ReleasePartitions ?ops (cfg_InstanceID c) db1) =
      db1\<lparr>pg_leases := (\<lambda>p. if owns_lease (cfg_InstanceID c) db1 p then None else pg_leases db1 p)\<rparr>"
    using assms(2) by (simp add: pg_repository_def pg_ReleasePartitions_def exec_def settle_def)
  have gone: "\<not> owns_lease (cfg_InstanceID c) (snd (repo_ReleasePartitions ?ops (cfg_InstanceID c) db1)) p" for p
    by (auto simp: rel owns_lease_def split: option.splits)
  show ?thesis
  proof (cases "res = Inr True")
    case True
    with acq assms(1) gone show ?thesis
      by (auto simp: run_start_def pg_repository_def Let_def start_service_def split: sum.splits prod.splits if_splits option.splits)
  next
    case False
    then have "db1 = db"
      using acq acquire_ids_other [of drv now "cfg_PartitionLeaseTTL c" "cfg_InstanceID c" "smallintPartitions (main_partitions c)" db res db1]
      by (auto simp: pg_AcquirePartitions_def split: if_splits)
    with False acq assms(1) show ?thesis
      by (auto simp: run_start_def pg_repository_def split: sum.splits bool.splits)
  qed
qed

theorem failed_start_releases_witness:
  "\<forall>js :: (unit, unit) js_client. \<exists>c db'. Load development_env ''host'' 1 = Inr c \<and>
     run_start (pg_repository plain_driver 7) js 7 (c\<lparr>cfg_Addr := ''''\<rparr>) empty_pg () = (Inl (ServerInvalid AddressRequired), db', ()) \<and>
     (\<forall>p. \<not> owns_lease (cfg_InstanceID c) db' p)"
proof
  fix js :: "(unit, unit) js_client"
  obtain c where c: "Load development_env ''host'' 1 = Inr c" "cfg_NATSURL c = ''''" using development_loads by blast
  let ?c = "c\<lparr>cfg_Addr := ''''\<rparr>"
  obtain db where db: "repo_AcquirePartitions (pg_repository plain_driver 7) (cfg_InstanceID ?c) (main_partitions ?c)
      (cfg_PartitionLeaseTTL ?c) empty_pg = (Inr True, db)" "pg_definitions db = []"
    using development_acquire [OF c(1)] by (auto simp: main_partitions_def)
  have "New_error (main_server_options ?c) = Some AddressRequired" by (simp add: New_error_def main_server_options_def)
  from plain_start(2) [OF db(2) this, where stream = None and t = 7] db(1) c(2)
  obtain db' where s: "run_start (pg_repository plain_driver 7) js 7 ?c empty_pg () = (Inl (ServerInvalid AddressRequired), db', ())"
    by (simp add: run_start_def Let_def)
  from failed_start_releases [OF s] c s
  show "\<exists>c db'. Load development_env ''host'' 1 = Inr c \<and>
     run_start (pg_repository plain_driver 7) js 7 (c\<lparr>cfg_Addr := ''''\<rparr>) empty_pg () = (Inl (ServerInvalid AddressRequired), db', ()) \<and>
     (\<forall>p. \<not> owns_lease (cfg_InstanceID c) db' p)" by (auto simp: plain_driver_def)
qed

section \<open>Where the stores differ\<close>

text \<open>
  A definition that does not exist is a different error on the two stores: asked to enable or disable an unknown
  definition, the interface answers 404 over the memory store, but 500 over PostgreSQL, whose repository returns the
  driver's error and not the one the service looks for. Nothing changes in either.
\<close>

theorem unknown_definition_status:
  assumes "dec_enabled dec (rq_Body r) = Inr (Some b)" and "map_of (m_definitions (sv_repo sm)) i = None"
    and "no_faults drv" and "drv_uuid drv i = Some j" and "\<forall>row \<in> set (pg_definitions (sv_repo sp)). \<not> has_id j row"
  shows "updateDefinition memory_repository dec now i r sm = (problem 404 ''not_found'' (Text ''alert definition not found''), sm) \<and>
         updateDefinition (pg_repository drv now) dec now i r sp =
           (problem 500 ''store_error'' (Text ''could not update alert definition''), sp)"
proof -
  have "find (\<lambda>row. has_id j row \<and> live_row row) (pg_definitions (sv_repo sp)) = None"
    using assms(5) by (auto simp: find_None_iff)
  with assms show ?thesis
    by (simp add: updateDefinition_def SetEnabled_def memory_repository_def mem_SetEnabled_def pg_repository_def pg_SetEnabled_def
        exec_def no_faults_def settle_def IsNotFound_def)
qed

theorem unknown_definition_status_witness:
  "fst (updateDefinition (pg_repository plain_driver 7) (no_decoders\<lparr>dec_enabled := \<lambda>_. Inr (Some True)\<rparr>) 7 ''a''
      (sample_get [] '''') (NewWithOptions empty_pg sample_options)) = problem 500 ''store_error'' (Text ''could not update alert definition'')"
  using unknown_definition_status [of "no_decoders\<lparr>dec_enabled := \<lambda>_. Inr (Some True)\<rparr>" "sample_get [] ''''" True
      "NewWithOptions NewMemory sample_options" "''a''" plain_driver "''a''" "NewWithOptions empty_pg sample_options" 7]
  by (simp add: NewWithOptions_def NewMemory_def empty_pg_def no_faults_def plain_driver_def)

end
