(* ===== verification/Cluster.thy ===== *)
theory Cluster
  imports Alertsd_Laws
begin

text \<open>
  Several workers over one PostgreSQL database: \<open>cmd/alertsd/main.go\<close> from the start of a process to its end. A step is
  one transaction of one goroutine of one worker: a request of the HTTP interface, a batch of the consumer, a refresh
  of the definitions, maintenance, the publisher, the renewal of the leases, the end of \<open>run\<close>, or a process that
  disappears. The order of the steps is arbitrary. All clocks, the database's included, show \<open>cl_time\<close>; the
  broker is a world \<open>'w\<close> behind the client \<open>js\<close>, and what it delivers is arbitrary.
\<close>

section \<open>Processes\<close>

text \<open>
  A worker that has started. \<open>ps_lease\<close> is what \<open>renewLeases\<close> has sent to \<open>leaseDone\<close>, \<open>ps_ended\<close> what \<open>run\<close>
  returned for; \<open>ps_renewed\<close> is the time of the last acquisition or renewal of the leases that succeeded, which
  the program does not keep.
\<close>

record process =
  ps_config :: config
  ps_stream :: "jetstream option"
  ps_service :: "pg service"
  ps_lease :: "lease_error option"
  ps_ended :: "stop_cause option"
  ps_renewed :: go_time

definition new_process :: "go_time \<Rightarrow> config \<Rightarrow> jetstream option \<Rightarrow> pg service \<Rightarrow> process" where
  "new_process now c stream s =
     \<lparr>ps_config = c, ps_stream = stream, ps_service = s, ps_lease = None, ps_ended = None, ps_renewed = now\<rparr>"

text \<open>
  The goroutines of a process act until their context is cancelled or the process exits: while \<open>run\<close> executes its
  deferred calls, the context is still alive when it was the server or the consumer that ended.
\<close>

definition process_acts :: "process \<Rightarrow> bool" where
  "process_acts p \<longleftrightarrow> (case ps_ended p of None \<Rightarrow> True | Some cause \<Rightarrow> \<not> stops_context cause)"

definition can_stop :: "process \<Rightarrow> stop_cause \<Rightarrow> bool" where
  "can_stop p cause \<longleftrightarrow> ps_ended p = None \<and>
     (case cause of
        Signalled \<Rightarrow> True
      | Server_Stopped e \<Rightarrow> True
      | Consumer_Stopped e \<Rightarrow> ps_stream p \<noteq> None
      | Lease_Stopped e \<Rightarrow> ps_lease p = Some e)"

section \<open>Operations of a worker\<close>

datatype operation =
    Op_Create "canonical \<Rightarrow> string" string canonical
  | Op_SetEnabled string bool
  | Op_Delete string
  | Op_Refresh
  | Op_Maintain
  | Op_Ingest duration observation
  | Op_Batch duration int "observation list"

fun operate :: "driver \<Rightarrow> go_time \<Rightarrow> config \<Rightarrow> operation \<Rightarrow> pg service \<Rightarrow> pg service option" where
  "operate drv now c (Op_Create canonical name request) s = Some (snd (Create (pg_repository drv now) canonical now name request s))"
| "operate drv now c (Op_SetEnabled i b) s = Some (snd (SetEnabled (pg_repository drv now) now i b s))"
| "operate drv now c (Op_Delete i) s = Some (snd (Delete (pg_repository drv now) now i s))"
| "operate drv now c Op_Refresh s = Some (refresh_tick (pg_repository drv now) now s)"
| "operate drv now c Op_Maintain s = Some (maintenance_tick (pg_repository drv now) (main_retention c) s)"
| "operate drv now c (Op_Ingest elapsed obs) s = map_option snd (Ingest (pg_repository drv now) now elapsed obs s)"
| "operate drv now c (Op_Batch elapsed pid os) s = map_option snd (IngestBatch (pg_repository drv now) now elapsed pid os s)"

text \<open>The publishers of a worker: the broker when it is configured, then the log; \<open>wording\<close> is the text of an error of the client library.\<close>

definition broker_publisher :: "('d, 'w) js_client \<Rightarrow> (nats_error \<Rightarrow> string) \<Rightarrow> 'w publisher" where
  "broker_publisher js wording a w = (case broker_Publish js a w of (err, w1) \<Rightarrow> (map_option wording err, w1))"

definition main_publishers ::
  "('d, 'w) js_client \<Rightarrow> (nats_error \<Rightarrow> string) \<Rightarrow> jetstream option \<Rightarrow> 'w publisher list" where
  "main_publishers js wording stream = (case stream of None \<Rightarrow> [] | Some _ \<Rightarrow> [broker_publisher js wording]) @ [log_publish]"

section \<open>The cluster\<close>

record 'w cluster =
  cl_time :: go_time
  cl_db :: pg
  cl_broker :: 'w
  cl_procs :: "string \<rightharpoonup> process"

datatype cluster_event =
    Pass duration
  | is_Start: Start "string \<Rightarrow> string" string int driver
  | Operate string driver operation
  | Publish string driver "nats_error \<Rightarrow> string" nat
  | Renew string driver
  | Stop string driver stop_cause
  | Exit string

definition set_process :: "string \<Rightarrow> process \<Rightarrow> 'w cluster \<Rightarrow> 'w cluster" where
  "set_process w p cl = cl\<lparr>cl_procs := (cl_procs cl)(w \<mapsto> p)\<rparr>"

definition start_worker :: "('d, 'w) js_client \<Rightarrow> config \<Rightarrow> driver \<Rightarrow> 'w cluster \<Rightarrow> 'w cluster" where
  "start_worker js c drv cl =
    (case run_start (pg_repository drv (cl_time cl)) js (cl_time cl) c (cl_db cl) (cl_broker cl) of
       (Inl err, db, w) \<Rightarrow> cl\<lparr>cl_db := db, cl_broker := w\<rparr>
     | (Inr (stream, s), db, w) \<Rightarrow>
         set_process (cfg_InstanceID c) (new_process (cl_time cl) c stream s) (cl\<lparr>cl_db := db, cl_broker := w\<rparr>))"

definition operate_worker :: "string \<Rightarrow> process \<Rightarrow> driver \<Rightarrow> operation \<Rightarrow> 'w cluster \<Rightarrow> 'w cluster option" where
  "operate_worker w p drv op cl =
     map_option (\<lambda>s. set_process w (p\<lparr>ps_service := s\<rparr>) (cl\<lparr>cl_db := sv_repo s\<rparr>))
       (operate drv (cl_time cl) (ps_config p) op ((ps_service p)\<lparr>sv_repo := cl_db cl\<rparr>))"

definition publish_worker ::
  "('d, 'w) js_client \<Rightarrow> string \<Rightarrow> process \<Rightarrow> driver \<Rightarrow> (nats_error \<Rightarrow> string) \<Rightarrow> nat \<Rightarrow> 'w cluster \<Rightarrow> 'w cluster option" where
  "publish_worker js w p drv wording n cl =
     map_option (\<lambda>(s, world). set_process w (p\<lparr>ps_service := s\<rparr>) (cl\<lparr>cl_db := sv_repo s, cl_broker := world\<rparr>))
       (drain (pg_repository drv (cl_time cl)) (multi_publish (main_publishers js wording (ps_stream p))) n
         ((ps_service p)\<lparr>sv_repo := cl_db cl\<rparr>, cl_broker cl))"

definition renew_worker :: "string \<Rightarrow> process \<Rightarrow> driver \<Rightarrow> 'w cluster \<Rightarrow> 'w cluster" where
  "renew_worker w p drv cl =
    (case renew_tick (pg_repository drv (cl_time cl)) (ps_config p) (cl_db cl) of
       (None, db) \<Rightarrow> set_process w (p\<lparr>ps_renewed := cl_time cl\<rparr>) (cl\<lparr>cl_db := db\<rparr>)
     | (Some err, db) \<Rightarrow> set_process w (p\<lparr>ps_lease := Some err\<rparr>) (cl\<lparr>cl_db := db\<rparr>))"

definition stop_worker :: "string \<Rightarrow> process \<Rightarrow> driver \<Rightarrow> stop_cause \<Rightarrow> 'w cluster \<Rightarrow> 'w cluster" where
  "stop_worker w p drv cause cl =
     set_process w (p\<lparr>ps_ended := Some cause\<rparr>)
       (cl\<lparr>cl_db := run_release (pg_repository drv (cl_time cl)) (ps_config p) (cl_db cl)\<rparr>)"

text \<open>
  A step; \<open>None\<close> when the event cannot happen: time does not go back, an instance identifier is taken by one process,
  a worker without a database has no part in the cluster.
\<close>

fun cluster_step :: "('d, 'w) js_client \<Rightarrow> cluster_event \<Rightarrow> 'w cluster \<Rightarrow> 'w cluster option" where
  "cluster_step js (Pass d) cl = (if d < 0 then None else Some (cl\<lparr>cl_time := cl_time cl + d\<rparr>))"
| "cluster_step js (Start getenv hostname pid drv) cl =
    (case Load getenv hostname pid of
       Inl _ \<Rightarrow> Some cl
     | Inr c \<Rightarrow>
        if cl_procs cl (cfg_InstanceID c) \<noteq> None \<or> cfg_DatabaseURL c = '''' then None else Some (start_worker js c drv cl))"
| "cluster_step js (Operate w drv op) cl =
    (case cl_procs cl w of None \<Rightarrow> None | Some p \<Rightarrow> if process_acts p then operate_worker w p drv op cl else None)"
| "cluster_step js (Publish w drv wording n) cl =
    (case cl_procs cl w of None \<Rightarrow> None | Some p \<Rightarrow> if process_acts p then publish_worker js w p drv wording n cl else None)"
| "cluster_step js (Renew w drv) cl =
    (case cl_procs cl w of
       None \<Rightarrow> None | Some p \<Rightarrow> if process_acts p \<and> ps_lease p = None then Some (renew_worker w p drv cl) else None)"
| "cluster_step js (Stop w drv cause) cl =
    (case cl_procs cl w of None \<Rightarrow> None | Some p \<Rightarrow> if can_stop p cause then Some (stop_worker w p drv cause cl) else None)"
| "cluster_step js (Exit w) cl = (if cl_procs cl w = None then None else Some (cl\<lparr>cl_procs := (cl_procs cl)(w := None)\<rparr>))"

text \<open>
  What a schedule may contain. The identifiers the database knows are texts of UUIDs; symbols and datasets contain no
  slash; a worker evaluates only while its leases last. The program does not enforce the last of these: it is what its renewals
  are for, and \<open>any_schedule\<close> does without it.
\<close>

definition worker_live :: "'w cluster \<Rightarrow> string \<Rightarrow> bool" where
  "worker_live cl w \<longleftrightarrow>
     (case cl_procs cl w of
        None \<Rightarrow> False
      | Some p \<Rightarrow> ps_ended p = None \<and> cl_time cl < ps_renewed p + cfg_PartitionLeaseTTL (ps_config p))"

definition uuid_texts :: "driver \<Rightarrow> bool" where
  "uuid_texts drv \<longleftrightarrow> (\<forall>i j. drv_uuid drv i = Some j \<longrightarrow> CHR ''|'' \<notin> set j)"

fun op_observations :: "operation \<Rightarrow> observation list option" where
  "op_observations (Op_Ingest elapsed obs) = Some [obs]"
| "op_observations (Op_Batch elapsed pid os) = Some os"
| "op_observations _ = None"

fun timely :: "cluster_event \<Rightarrow> 'w cluster \<Rightarrow> bool" where
  "timely (Operate w drv op) cl \<longleftrightarrow> uuid_texts drv \<and>
     (case op_observations op of
        None \<Rightarrow> True | Some os \<Rightarrow> worker_live cl w \<and> (\<forall>obs \<in> set os. slash_free (obs_Series obs)))"
| "timely (Publish w drv wording n) cl \<longleftrightarrow> uuid_texts drv"
| "timely _ cl \<longleftrightarrow> True"

definition any_schedule :: "cluster_event \<Rightarrow> 'w cluster \<Rightarrow> bool" where
  "any_schedule ev cl \<longleftrightarrow> True"

text \<open>The states a schedule leads to.\<close>

inductive cluster_run ::
  "('d, 'w) js_client \<Rightarrow> (cluster_event \<Rightarrow> 'w cluster \<Rightarrow> bool) \<Rightarrow> 'w cluster \<Rightarrow> cluster_event list \<Rightarrow> 'w cluster \<Rightarrow> bool"
  for js and may where
  run_none: "cluster_run js may cl [] cl"
| run_step: "cluster_run js may cl evs cl1 \<Longrightarrow> may ev cl1 \<Longrightarrow> cluster_step js ev cl1 = Some cl2 \<Longrightarrow>
    cluster_run js may cl (evs @ [ev]) cl2"

text \<open>Before the first worker: no process, no lease, every stored state in the partition of its series.\<close>

definition cluster_start :: "'w cluster \<Rightarrow> bool" where
  "cluster_start cl \<longleftrightarrow> cl_procs cl = Map.empty \<and> placed (New DefaultPartitions) (cl_db cl) \<and> pg_rule_state (cl_db cl) = [] \<and>
     (\<forall>row \<in> set (pg_definitions (cl_db cl)). CHR ''|'' \<notin> set (dfn_ID (pd_definition row)))"

end
