(* ===== verification/Cluster_Leases.thy ===== *)
theory Cluster_Leases
  imports Cluster
begin

text \<open>
  The leases of a cluster: what the operations of a worker leave of the database, what a batch of a worker shows of
  itself elsewhere, and the rows a worker has while its lease lasts. Two workers whose leases last never own a
  partition both.
\<close>

section \<open>Frames of the repository\<close>

text \<open>What the operations other than commits leave unchanged, and what they keep of the identifiers.\<close>

definition kept_core :: "pg \<Rightarrow> pg \<Rightarrow> bool" where
  "kept_core s s' \<longleftrightarrow> pg_leases s' = pg_leases s \<and> runtime_part s' = runtime_part s"

definition bar_free_rows :: "pg \<Rightarrow> bool" where
  "bar_free_rows s \<longleftrightarrow> (\<forall>row \<in> set (pg_definitions s). CHR ''|'' \<notin> set (dfn_ID (pd_definition row)))"

lemma kept_core_refl [simp]: "kept_core s s"
  by (simp add: kept_core_def)

lemma kept_core_trans: "kept_core s s1 \<Longrightarrow> kept_core s1 s2 \<Longrightarrow> kept_core s s2"
  by (simp add: kept_core_def)

lemma kept_core_updates [simp]:
  "kept_core s (s\<lparr>pg_definitions := ds\<rparr>)" "kept_core s (s\<lparr>pg_outbox := os\<rparr>)"
  "kept_core s (s\<lparr>pg_inbox := is\<rparr>)" "kept_core s (s\<lparr>pg_events := es, pg_outbox := os\<rparr>)"
  by (simp_all add: kept_core_def runtime_part_def)

lemma row_ids [simp]:
  "dfn_ID (pd_definition (revive d r)) = dfn_ID (pd_definition r)" "dfn_ID (pd_definition (new_row i d)) = i"
  "dfn_ID (pd_definition (switched now b eff r)) = dfn_ID (pd_definition r)"
  "dfn_ID (pd_definition (archived_row now eff r)) = dfn_ID (pd_definition r)"
  by (simp_all add: revive_def new_row_def switched_def archived_row_def Let_def)

lemma find_in: "find p xs = Some x \<Longrightarrow> x \<in> set xs"
  by (auto simp: find_Some_iff)

lemma pg_Create_frame:
  assumes "pg_CreateDefinition drv d s = (res, s')"
  shows "kept_core s s'"
    and "uuid_texts drv \<Longrightarrow> bar_free_rows s \<Longrightarrow> bar_free_rows s' \<and> (\<forall>d' b. res = Inr (d', b) \<longrightarrow> CHR ''|'' \<notin> set (dfn_ID d'))"
  using assms
  by (auto simp: pg_CreateDefinition_def exec_def pg_fail_def settle_def bar_free_rows_def uuid_texts_def
      split: if_splits option.splits dest!: find_in)

lemma pg_SetEnabled_frame:
  assumes "pg_SetEnabled drv now i b eff s = (res, s')"
  shows "kept_core s s'" and "bar_free_rows s \<Longrightarrow> bar_free_rows s' \<and> (\<forall>d'. res = Inr d' \<longrightarrow> CHR ''|'' \<notin> set (dfn_ID d'))"
  using assms
  by (auto simp: pg_SetEnabled_def exec_def pg_fail_def settle_def bar_free_rows_def split: option.splits dest!: find_in)

lemma pg_Archive_frame:
  assumes "pg_ArchiveDefinition drv now i eff s = (res, s')"
  shows "kept_core s s'" and "bar_free_rows s \<Longrightarrow> bar_free_rows s'"
  using assms
  by (auto simp: pg_ArchiveDefinition_def exec_def pg_fail_def settle_def bar_free_rows_def split: option.splits if_splits)

lemma pg_List_bar_free:
  "pg_ListDefinitions drv now s = Inr ds \<Longrightarrow> bar_free_rows s \<Longrightarrow> \<forall>d \<in> set ds. CHR ''|'' \<notin> set (dfn_ID d)"
  by (auto simp: pg_ListDefinitions_def exec_def pg_fail_def settle_def bar_free_rows_def split: option.splits)

lemma pg_Maintain_frame:
  assumes "pg_Maintain drv now policy s = (res, s')"
  shows "kept_core s s' \<and> pg_definitions s' = pg_definitions s"
proof -
  have a: "kept_core s (snd (settle s (expire_alerts drv now q s))) \<and> pg_definitions (snd (settle s (expire_alerts drv now q s))) = pg_definitions s" for q s
    by (auto simp: expire_alerts_def settle_def exec_def pg_fail_def Let_def split: option.splits)
  have i: "kept_core s (snd (settle s (expire_inbox drv now q s))) \<and> pg_definitions (snd (settle s (expire_inbox drv now q s))) = pg_definitions s" for q s
    by (auto simp: expire_inbox_def settle_def exec_def pg_fail_def Let_def split: option.splits)
  let ?q = "policy\<lparr>rp_BatchSize := (if rp_BatchSize policy \<le> 0 then 5000 else rp_BatchSize policy)\<rparr>"
  obtain r1 s1 where 1: "settle s (expire_alerts drv now ?q s) = (r1, s1)" by fastforce
  obtain r2 s2 where 2: "settle s1 (expire_inbox drv now ?q s1) = (r2, s2)" by fastforce
  from a [of s ?q] 1 have k1: "kept_core s s1" "pg_definitions s1 = pg_definitions s" by simp_all
  from i [of s1 ?q] 2 have k2: "kept_core s1 s2" "pg_definitions s2 = pg_definitions s1" by simp_all
  from assms 1 2 have "s' = s1 \<or> s' = s2" by (auto simp: pg_Maintain_def Let_def split: sum.splits)
  with k1 k2 show ?thesis by (auto intro: kept_core_trans)
qed

lemma pg_Claim_frame:
  "pg_ClaimPending drv now limit s = (res, s') \<Longrightarrow> kept_core s s' \<and> pg_definitions s' = pg_definitions s"
  by (auto simp: pg_ClaimPending_def settle_def exec_def pg_fail_def Let_def split: option.splits if_splits)

lemma update_outbox_frame:
  "update_outbox drv st i f s = (res, s') \<Longrightarrow> kept_core s s' \<and> pg_definitions s' = pg_definitions s"
  by (auto simp: update_outbox_def settle_def exec_def pg_fail_def split: option.splits)

lemma update_outbox_kept [simp]:
  "kept_core s (snd (update_outbox drv st i f s))" "pg_definitions (snd (update_outbox drv st i f s)) = pg_definitions s"
  using update_outbox_frame [of drv st i f s] by (simp_all add: prod_eq_iff)

text \<open>A commit does not touch the leases.\<close>

lemma insert_inboxes_leases [state_simps]: "pg_leases (foldl (insert_inbox now) s os) = pg_leases s"
  by (induction os arbitrary: s) (auto simp: insert_inbox_def)

lemma insert_events_leases: "insert_events as s = Inr (x, s') \<Longrightarrow> pg_leases s' = pg_leases s"
proof (induction as arbitrary: s x)
  case (Cons a as)
  then obtain i c s1 cs where "insert_event a s = Inr ((i, c), s1)" "insert_events as s1 = Inr (cs, s')"
    by (auto simp: pg_then_Inr)
  with Cons.IH show ?case by (auto simp: insert_event_def pg_fail_def Let_def split: if_splits option.splits)
qed simp

lemma insert_outboxes_leases: "insert_outboxes now as s = Inr (x, s') \<Longrightarrow> pg_leases s' = pg_leases s"
  by (induction as arbitrary: s) (fastforce simp: pg_then_Inr insert_outbox_def pg_fail_def Let_def split: if_splits)+

lemma commit_leases:
  assumes "pg_CommitRuntimeBatch drv now b s = (res, s')"
  shows "pg_leases s' = pg_leases s"
proof (cases res)
  case (Inr created)
  with assms have "commit_tx drv now b s = Inr (created, s')" by (simp add: pg_CommitRuntimeBatch_def settle_Inr)
  then obtain s1 s2 s3 s4 where steps:
    "commit_inbox drv now b s = Inr ((), s1)" "commit_series drv b s1 = Inr ((), s2)"
    "commit_resets drv b s2 = Inr ((), s3)" "commit_definitions drv b s3 = Inr ((), s4)"
    "commit_alerts drv now b s4 = Inr (created, s')" by (rule commit_tx_steps)
  have "pg_leases s' = pg_leases s4"
    by (rule commit_alerts_steps [OF steps(5)]) (simp_all add: insert_events_leases insert_outboxes_leases)
  then show ?thesis
    using commit_inbox_frame [OF steps(1)] commit_series_effect [OF steps(2)] commit_resets_effect [OF steps(3)]
      commit_definitions_effect(1) [OF steps(4)] by (simp add: insert_inboxes_leases)
qed (use assms in \<open>simp add: pg_CommitRuntimeBatch_def settle_Inl\<close>)

section \<open>Operations on the definitions\<close>

text \<open>A step of a service that leaves leases, checkpoint and partitions alone and keeps identifiers free of the separator.\<close>

definition control_step :: "driver \<Rightarrow> pg service \<Rightarrow> pg service \<Rightarrow> bool" where
  "control_step drv s s' \<longleftrightarrow> kept_core (sv_repo s) (sv_repo s') \<and>
     e_partitions (sv_runtime s') = e_partitions (sv_runtime s) \<and> same_shape (sv_runtime s) (sv_runtime s') \<and>
     (uuid_texts drv \<and> bar_free_rows (sv_repo s) \<and> bar_free_ids (sv_runtime s) \<longrightarrow>
        bar_free_rows (sv_repo s') \<and> bar_free_ids (sv_runtime s'))"

lemma same_shape_refl [simp]: "same_shape e e"
  by (simp add: same_shape_def)

lemma control_step_refl [simp]: "control_step drv s s"
  by (simp add: control_step_def)

lemma control_step_trans: "control_step drv s s1 \<Longrightarrow> control_step drv s1 s2 \<Longrightarrow> control_step drv s s2"
  unfolding control_step_def using kept_core_trans same_shape_trans by metis

lemma control_step_repo:
  "kept_core (sv_repo s) r \<Longrightarrow> (uuid_texts drv \<Longrightarrow> bar_free_rows (sv_repo s) \<Longrightarrow> bar_free_rows r) \<Longrightarrow> control_step drv s (s\<lparr>sv_repo := r\<rparr>)"
  by (simp add: control_step_def)

lemma control_step_metrics: "control_step drv s s' \<Longrightarrow> control_step drv s (s'\<lparr>sv_metrics := m\<rparr>)"
  by (simp add: control_step_def)

lemma upsert_control:
  assumes "upsert_runtime d s = (err, s')" and "uuid_texts drv \<Longrightarrow> bar_free_rows (sv_repo s) \<Longrightarrow> CHR ''|'' \<notin> set (dfn_ID d)"
  shows "control_step drv s s'"
  using assms definition_changes_frame(2) [of d "sv_runtime s"] bar_free_Upsert [of "sv_runtime s" d]
  by (auto simp: upsert_runtime_def control_step_def split: prod.splits)

lemma refresh_control:
  assumes "RefreshDefinitions (pg_repository drv now) now s = (err, s')"
  shows "control_step drv s s'"
proof (cases "pg_ListDefinitions drv now (sv_repo s)")
  case (Inl e)
  with assms show ?thesis by (simp add: RefreshDefinitions_def pg_repository_def control_step_def)
next
  case (Inr ds)
  with assms pg_List_bar_free [OF Inr] definition_changes_frame(1) [of now ds "sv_runtime s"] bar_free_Replace [of "sv_runtime s" ds now]
  show ?thesis by (auto simp: RefreshDefinitions_def pg_repository_def control_step_def split: prod.splits)
qed

lemma create_control: "control_step drv s (snd (Create (pg_repository drv now) canonical now name request s))"
proof -
  let ?c = "request\<lparr>cn_EvaluationMode := default_mode ''confirmed_close'' (cn_EvaluationMode request),
                    cn_TriggerMode := default_mode ''on_occurrence'' (cn_TriggerMode request)\<rparr>"
  let ?d = "new_definition canonical now (sv_activationDelay s) name ?c"
  obtain res r where create: "pg_CreateDefinition drv ?d (sv_repo s) = (res, r)" by fastforce
  note f = pg_Create_frame [OF create]
  have r: "control_step drv s (s\<lparr>sv_repo := r\<rparr>)" using f by (intro control_step_repo) auto
  show ?thesis
  proof (cases "create_error name ?c = None \<and> (\<exists>d b. res = Inr (d, b))")
    case True
    then obtain d b err s1 where res: "res = Inr (d, b)" and u: "upsert_runtime d (s\<lparr>sv_repo := r\<rparr>) = (err, s1)" by fastforce
    have "control_step drv s s1"
      using r u f definition_changes_frame(2) [of d "sv_runtime s"] bar_free_Upsert [of "sv_runtime s" d] res
      by (auto simp: upsert_runtime_def control_step_def split: prod.splits)
    with create res u True show ?thesis by (simp add: Create_def pg_repository_def Let_def)
  qed (use create r in \<open>auto simp: Create_def pg_repository_def Let_def split: option.splits sum.splits\<close>)
qed

lemma set_enabled_control: "control_step drv s (snd (SetEnabled (pg_repository drv now) now i b s))"
proof (cases "pg_SetEnabled drv now i b (time_add now (sv_activationDelay s)) (sv_repo s)")
  case (Pair res r)
  note f = pg_SetEnabled_frame [OF Pair]
  have r: "control_step drv s (s\<lparr>sv_repo := r\<rparr>)" using f by (intro control_step_repo) auto
  show ?thesis
  proof (cases res)
    case (Inr d')
    obtain err s1 where u: "upsert_runtime d' (s\<lparr>sv_repo := r\<rparr>) = (err, s1)" by fastforce
    have "control_step drv s s1"
      using r u f definition_changes_frame(2) [of d' "sv_runtime s"] bar_free_Upsert [of "sv_runtime s" d'] Inr
      by (auto simp: upsert_runtime_def control_step_def split: prod.splits)
    with Pair Inr u show ?thesis by (simp add: SetEnabled_def pg_repository_def)
  qed (use Pair r in \<open>simp add: SetEnabled_def pg_repository_def\<close>)
qed

lemma delete_control: "control_step drv s (snd (Delete (pg_repository drv now) now i s))"
proof (cases "pg_ArchiveDefinition drv now i (time_add now (sv_activationDelay s)) (sv_repo s)")
  case (Pair res r)
  have r: "control_step drv s (s\<lparr>sv_repo := r\<rparr>)" using pg_Archive_frame [OF Pair] by (intro control_step_repo) auto
  show ?thesis
  proof (cases res)
    case None
    obtain err s' where "RefreshDefinitions (pg_repository drv now) now (s\<lparr>sv_repo := r\<rparr>) = (err, s')" by fastforce
    with control_step_trans [OF r refresh_control] Pair None show ?thesis by (simp add: Delete_def pg_repository_def)
  qed (use Pair r in \<open>simp add: Delete_def pg_repository_def\<close>)
qed

lemma maintenance_control: "control_step drv s (maintenance_tick (pg_repository drv now) policy s)"
proof (cases "pg_Maintain drv now policy (sv_repo s)")
  case (Pair res r)
  from pg_Maintain_frame [OF Pair] have "control_step drv s (s\<lparr>sv_repo := r\<rparr>)"
    by (intro control_step_repo) (auto simp: bar_free_rows_def)
  with Pair show ?thesis by (auto simp: maintenance_tick_def pg_repository_def intro: control_step_metrics split: sum.splits)
qed

lemma refresh_tick_control: "control_step drv s (refresh_tick (pg_repository drv now) now s)"
  using refresh_control [of drv now s]
  by (auto simp: refresh_tick_def intro: control_step_metrics split: prod.splits option.splits)

lemma operate_control:
  assumes "operate drv now c op s = Some s'" and "op_observations op = None"
  shows "control_step drv s s'"
  using assms create_control set_enabled_control delete_control maintenance_control refresh_tick_control
  by (cases op) auto

text \<open>The publisher works on the outbox and the metrics.\<close>

lemma publish_event_control:
  "publish_event (pg_repository drv now) publish (s, w) a = (s', w') \<Longrightarrow> control_step drv s s'"
  by (auto simp: publish_event_def pg_repository_def pg_MarkPublished_def pg_MarkPublishFailed_def Let_def control_step_def
      bar_free_rows_def split: prod.splits option.splits dest: update_outbox_frame)

lemma publish_events_control:
  "foldl (publish_event (pg_repository drv now) publish) (s, w) as = (s', w') \<Longrightarrow> control_step drv s s'"
proof (induction as arbitrary: s w)
  case Nil
  then show ?case by (simp add: control_step_def)
next
  case (Cons a as)
  obtain s1 w1 where 1: "publish_event (pg_repository drv now) publish (s, w) a = (s1, w1)" by fastforce
  with Cons.prems have "foldl (publish_event (pg_repository drv now) publish) (s1, w1) as = (s', w')" by simp
  from control_step_trans [OF publish_event_control [OF 1] Cons.IH [OF this]] show ?case .
qed

lemma drain_control:
  "drain (pg_repository drv now) publish n (s, w) = Some (s', w') \<Longrightarrow> control_step drv s s'"
proof (induction n arbitrary: s w)
  case (Suc n)
  obtain res r where claim: "pg_ClaimPending drv now 100 (sv_repo s) = (res, r)" by fastforce
  from pg_Claim_frame [OF this] have r: "control_step drv s (s\<lparr>sv_repo := r\<rparr>)"
    by (intro control_step_repo) (auto simp: bar_free_rows_def)
  show ?case
  proof (cases res)
    case (Inr events)
    obtain s2 w2 where p: "foldl (publish_event (pg_repository drv now) publish) (s\<lparr>sv_repo := r\<rparr>, w) events = (s2, w2)" by fastforce
    note 2 = control_step_trans [OF r publish_events_control [OF p]]
    from Suc.prems claim Inr p consider "s' = s\<lparr>sv_repo := r\<rparr>" | "s' = s2" | "drain (pg_repository drv now) publish n (s2, w2) = Some (s', w')"
      by (auto simp: pg_repository_def Let_def split: if_splits)
    then show ?thesis using r 2 Suc.IH control_step_trans by cases blast+
  qed (use Suc.prems claim r in \<open>simp add: pg_repository_def\<close>)
qed simp

section \<open>Batches over the shared database\<close>

definition valid_config :: "config \<Rightarrow> bool" where
  "valid_config c \<longleftrightarrow> 0 \<le> cfg_WorkerIndex c \<and> cfg_WorkerIndex c < cfg_WorkerCount c \<and> cfg_WorkerCount c \<le> 256 \<and>
     0 < cfg_PartitionLeaseTTL c"

lemma Load_valid: "Load getenv hostname pid = Inr c \<Longrightarrow> valid_config c"
  using Load_sound [of getenv hostname pid c] by (auto simp: valid_config_def split: if_splits)

definition worker_engine :: "config \<Rightarrow> engine" where
  "worker_engine c = NewWithOwnership DefaultPartitions (cfg_WorkerIndex c) (cfg_WorkerCount c)"

text \<open>What the database holds of the partitions of a worker.\<close>

definition checkpoint :: "config \<Rightarrow> pg \<Rightarrow> runtime_snapshot" where
  "checkpoint c db = \<lparr>snap_Series = visible_series (main_partitions c) db, snap_Definitions = visible_definitions (main_partitions c) db\<rparr>"

definition in_step :: "config \<Rightarrow> engine \<Rightarrow> pg \<Rightarrow> bool" where
  "in_step c e db \<longleftrightarrow> mirror stored_series e (checkpoint c db)"

lemma view_load_checkpoint: "view_load (main_partitions c) (x, db) = checkpoint c db"
  by (simp add: view_load_def checkpoint_def main_partitions_small)

lemma checkpoint_frame: "runtime_part db' = runtime_part db \<Longrightarrow> checkpoint c db' = checkpoint c db"
  by (simp add: checkpoint_def runtime_part_def visible_series_def visible_definitions_def cong: option.case_cong)

lemma worker_engine_owned: "valid_config c \<Longrightarrow> ownedPartitions (worker_engine c) = main_partitions c"
  by (simp add: worker_engine_def owned_main main_partitions_def valid_config_def)

lemma worker_engine_pids: "valid_config c \<Longrightarrow> valid_pid (worker_engine c) q \<longleftrightarrow> q \<in> set (main_partitions c)"
  using owned_smallint [of "cfg_WorkerIndex c" "cfg_WorkerCount c"] worker_engine_owned [of c]
  by (auto simp: worker_engine_def main_partitions_small)

lemma worker_partitions: "valid_config c \<Longrightarrow> main_partitions c \<noteq> [] \<and> distinct (main_partitions c)"
proof -
  assume "valid_config c"
  then have "cfg_WorkerIndex c \<in> set (main_partitions c)" by (auto simp: main_partitions_def valid_config_def)
  then have "main_partitions c \<noteq> []" by auto
  then show ?thesis by (simp add: main_partitions_def)
qed

lemma PartitionForKey_length:
  "length (e_partitions e) = length (e_partitions e') \<Longrightarrow> PartitionForKey e k = PartitionForKey e' k"
  by (simp add: PartitionForKey_def Partition_def hash_partition_def split: list.splits)

lemma worker_engine_length: "length (e_partitions (worker_engine c)) = length (e_partitions (New DefaultPartitions))"
  by (simp add: worker_engine_def New_def NewWithOwnership_def DefaultPartitions_def Let_def)

lemma evaluate_commits:
  "EvaluateBatch commit now pid os e r = Some (res, e', r') \<Longrightarrow> r' = r \<or> (\<exists>b res'. commit b r = (res', r'))"
  by (auto simp: EvaluateBatch_def Let_def split: if_splits option.splits prod.splits sum.splits)

lemma commit_rule_state: "pg_CommitRuntimeBatch drv t b s = (res, s') \<Longrightarrow> pg_rule_state s' = pg_rule_state s"
  by (cases res) (auto simp: pg_CommitRuntimeBatch_def settle_Inl settle_Inr dest: commit_tx_runtime(3))

lemma commit_row_ids: "pg_CommitRuntimeBatch drv t b s = (res, s') \<Longrightarrow> pg_definitions s' = pg_definitions s"
  by (cases res) (auto simp: pg_CommitRuntimeBatch_def settle_Inl settle_Inr commit_tx_definitions)

lemma EvaluateBatch_shape: "EvaluateBatch commit now pid os e r = Some (res, e', r') \<Longrightarrow> same_shape e e'"
  by (auto simp: EvaluateBatch_def same_shape_def count_events_def Let_def split: if_splits option.splits prod.splits sum.splits)

lemma EvaluateBatch_view:
  "EvaluateBatch (pg_CommitRuntimeBatch drv t) now pid os e r = Some (res, e', r') \<Longrightarrow>
     EvaluateBatch view_commit now pid os e ((drv, t), r) = Some (res, e', ((drv, t), r'))"
  by (auto simp: EvaluateBatch_def Let_def view_commit_def split: if_splits option.splits prod.splits sum.splits)

lemma IngestBatch_cases:
  assumes "IngestBatch (pg_repository drv now) now elapsed pid os s = Some (res, s')"
  shows "(sv_runtime s' = sv_runtime s \<and> sv_repo s' = sv_repo s) \<or>
    (\<exists>res. EvaluateBatch (pg_CommitRuntimeBatch drv now) now pid os (sv_runtime s) (sv_repo s) = Some (res, sv_runtime s', sv_repo s'))"
  using assms
  by (auto simp: IngestBatch_def pg_repository_def Let_def split: if_splits option.splits prod.splits sum.splits)

lemma ingest_cases:
  assumes "operate drv now c op s = Some s'" and "op_observations op = Some os"
  shows "(sv_runtime s' = sv_runtime s \<and> sv_repo s' = sv_repo s) \<or>
    (\<exists>pid res. EvaluateBatch (pg_CommitRuntimeBatch drv now) now pid os (sv_runtime s) (sv_repo s) = Some (res, sv_runtime s', sv_repo s'))"
  using assms by (cases op) (auto simp: Ingest_def split: option.splits dest!: IngestBatch_cases)

text \<open>A batch of a worker shows only in its own partitions.\<close>

lemma batch_elsewhere:
  assumes "EvaluateBatch (pg_CommitRuntimeBatch drv t) now pid os e db = Some (res, e', db')"
    and "bar_free_ids e" and "\<forall>obs \<in> set os. slash_free (obs_Series obs)" and "same_shape (worker_engine c) e"
    and "placed (New DefaultPartitions) db" and "pid \<notin> set ids"
  shows "visible_series ids db' = visible_series ids db \<and> visible_definitions ids db' = visible_definitions ids db \<and>
    placed (New DefaultPartitions) db'"
proof (cases "db' = db")
  case False
  obtain created where res: "res = Inr created"
    using assms(1) False
    by (auto simp: EvaluateBatch_def Let_def pg_CommitRuntimeBatch_def settle_Inl split: if_splits option.splits prod.splits sum.splits)
  from assms(1) [unfolded res] obtain b where b: "process_inputs now e pid (e_partitions e ! nat pid) os (start_batch e) = Some (None, b)"
    "pg_CommitRuntimeBatch drv t (batch_of pid b) db = (Inr created, db')"
    using False by (blast elim: EvaluateBatch_ok)
  have "confined e pid b" by (rule process_inputs_confined [OF b(1) confined_start assms(2,3)])
  moreover have "PartitionForKey e k = PartitionForKey (New DefaultPartitions) k" for k
    using assms(4) by (intro PartitionForKey_length) (simp add: same_shape_def worker_engine_length)
  ultimately have "confined (New DefaultPartitions) pid b" by (simp add: confined_def)
  moreover from b(2) have "commit_tx drv t (batch_of pid b) db = Inr (created, db')"
    by (simp add: pg_CommitRuntimeBatch_def settle_Inr)
  ultimately show ?thesis using other_workers_commit [OF _ _ assms(5,6)] by blast
qed (use assms(5) in simp)

lemma batch_in_step:
  assumes "EvaluateBatch (pg_CommitRuntimeBatch drv t) now pid os e db = Some (res, e', db')"
    and "valid_config c" and "same_shape (worker_engine c) e" and "bar_free_ids e"
    and "\<forall>obs \<in> set os. slash_free (obs_Series obs)" and "pg_rule_state db = []"
  shows "in_step c e db \<Longrightarrow> in_step c e' db'" and "same_shape (worker_engine c) e'" and "bar_free_ids e'"
    and "pg_rule_state db' = []" and "pid \<in> set (main_partitions c) \<or> db' = db"
proof -
  note view = EvaluateBatch_view [OF assms(1)]
  have pids: "valid_pid e = valid_pid (worker_engine c)" using assms(3) valid_pid_frame by blast
  show shape: "same_shape (worker_engine c) e'"
    using same_shape_trans [OF assms(3) EvaluateBatch_shape [OF assms(1)]] .
  show "bar_free_ids e'" using assms(4) EvaluateBatch_routes [OF assms(1)] by (simp add: bar_free_ids_def)
  have own: "\<forall>p. valid_pid e p \<longrightarrow> p \<in> set (smallintPartitions (main_partitions c))"
    using worker_engine_pids [OF assms(2)] by (simp add: pids main_partitions_small)
  have ok: "view_ok ((drv, t), db)" using assms(6) by (simp add: view_ok_def)
  show "in_step c e' db'" if "in_step c e db"
    using pg_restart.batch_keeps_mirror [OF _ view assms(4,5) ok own] that by (simp add: in_step_def view_load_checkpoint)
  show "pg_rule_state db' = []"
    using evaluate_commits [OF assms(1)] assms(6)
    by (auto dest: commit_rule_state)
  have "valid_pid e pid \<or> db' = db" using assms(1) by (auto simp: EvaluateBatch_def valid_pid_def split: if_splits)
  then show "pid \<in> set (main_partitions c) \<or> db' = db" using worker_engine_pids [OF assms(2)] by (simp add: pids)
qed

section \<open>Leases in a cluster\<close>

text \<open>What a call of one worker on the leases leaves of the rows of another, \<open>v\<close>.\<close>

definition spares :: "go_time \<Rightarrow> string \<Rightarrow> pg \<Rightarrow> pg \<Rightarrow> bool" where
  "spares t v db db' \<longleftrightarrow>
     (\<forall>q r. pg_leases db q = Some r \<and> pl_owner_id r = v \<and> t < pl_expires_at r \<longrightarrow> pg_leases db' q = Some r) \<and>
     (\<forall>q r. pg_leases db' q = Some r \<and> pl_owner_id r = v \<longrightarrow> pg_leases db q = Some r)"

lemma spares_same: "pg_leases db' = pg_leases db \<Longrightarrow> spares t v db db'"
  by (simp add: spares_def)

lemma spares_row:
  "spares t v db db' \<Longrightarrow> pg_leases db q = Some r \<Longrightarrow> pl_owner_id r = v \<Longrightarrow> t < pl_expires_at r \<Longrightarrow> pg_leases db' q = Some r"
  unfolding spares_def by blast

lemma spares_trans: "spares t v db db1 \<Longrightarrow> spares t v db1 db2 \<Longrightarrow> spares t v db db2"
  unfolding spares_def by blast

lemma acquire_effect:
  assumes "pg_AcquirePartitions drv t w ps ttl db = (res, db')"
  shows "runtime_part db' = runtime_part db \<and> pg_definitions db' = pg_definitions db" and "v \<noteq> w \<Longrightarrow> spares t v db db'"
    and "res = Inr True \<Longrightarrow> q \<in> set (smallintPartitions ps) \<Longrightarrow> pg_leases db' q = Some \<lparr>pl_owner_id = w, pl_expires_at = t + ttl\<rparr>"
proof -
  have puts: "runtime_part (foldl (put_lease a x) s qs) = runtime_part s \<and> pg_definitions (foldl (put_lease a x) s qs) = pg_definitions s"
    for a x s qs by (induction qs arbitrary: s) (simp_all add: put_lease_def runtime_part_def)
  have got: "acquire_ids drv t ttl w (smallintPartitions ps) db = (Inr True, db')" if "res = Inr True"
    using assms that by (simp add: pg_AcquirePartitions_def split: if_splits)
  have not_got: "db' = db" if "res \<noteq> Inr True"
    using assms that acquire_ids_other by (auto simp: pg_AcquirePartitions_def split: if_splits)
  note True = acquire_ids_True [OF got]
  show "runtime_part db' = runtime_part db \<and> pg_definitions db' = pg_definitions db"
    using True(1) not_got puts by (cases "res = Inr True") auto
  show "spares t v db db'" if "v \<noteq> w"
  proof (cases "res = Inr True")
    case True
    from acquire_ids_True(1,2) [OF got [OF True]] that show ?thesis
      by (auto simp: spares_def puts_lease available_def split: option.splits if_splits)
  qed (use not_got in \<open>simp add: spares_same\<close>)
  show "res = Inr True \<Longrightarrow> q \<in> set (smallintPartitions ps) \<Longrightarrow> pg_leases db' q = Some \<lparr>pl_owner_id = w, pl_expires_at = t + ttl\<rparr>"
    using True(1) by (simp add: puts_lease)
qed

lemma renew_effect:
  assumes "pg_RenewPartitions drv t w ps ttl db = (res, db')"
  shows "runtime_part db' = runtime_part db \<and> pg_definitions db' = pg_definitions db" and "v \<noteq> w \<Longrightarrow> spares u v db db'"
    and "owns_lease w db' q = owns_lease w db q"
    and "pg_leases db' q = Some r \<Longrightarrow> pl_owner_id r = w \<Longrightarrow> pg_leases db q = Some r \<or> r = \<lparr>pl_owner_id = w, pl_expires_at = t + ttl\<rparr>"
    and "res = Inr True \<Longrightarrow> distinct (smallintPartitions ps) \<Longrightarrow> q \<in> set (smallintPartitions ps) \<Longrightarrow>
      pg_leases db' q = Some \<lparr>pl_owner_id = w, pl_expires_at = t + ttl\<rparr>"
proof -
  have puts: "runtime_part (foldl (put_lease a x) s qs) = runtime_part s \<and> pg_definitions (foldl (put_lease a x) s qs) = pg_definitions s"
    for a x s qs by (induction qs arbitrary: s) (simp_all add: put_lease_def runtime_part_def)
  note cases = renew_True [OF assms]
  show "runtime_part db' = runtime_part db \<and> pg_definitions db' = pg_definitions db" using cases puts by auto
  show "v \<noteq> w \<Longrightarrow> spares u v db db'"
    using cases by (auto simp: spares_def puts_lease owns_lease_def split: option.splits if_splits)
  show "owns_lease w db' q = owns_lease w db q" using cases by (auto simp: puts_lease owns_lease_def split: option.splits if_splits)
  show "pg_leases db' q = Some r \<Longrightarrow> pl_owner_id r = w \<Longrightarrow> pg_leases db q = Some r \<or> r = \<lparr>pl_owner_id = w, pl_expires_at = t + ttl\<rparr>"
    using cases by (auto simp: puts_lease split: if_splits)
  assume "res = Inr True" "distinct (smallintPartitions ps)" "q \<in> set (smallintPartitions ps)"
  let ?ids = "smallintPartitions ps"
  from assms \<open>res = Inr True\<close> \<open>distinct ?ids\<close> have len: "length (filter (owns_lease w db) ?ids) = length ?ids"
    and db': "db' = foldl (put_lease w (t + ttl)) db (filter (owns_lease w db) ?ids)"
    by (auto simp: pg_RenewPartitions_def exec_def pg_fail_def settle_def Let_def distinct_remdups_id smallintPartitions_def split: option.splits)
  from length_filter_all [OF len] \<open>q \<in> set ?ids\<close> show "pg_leases db' q = Some \<lparr>pl_owner_id = w, pl_expires_at = t + ttl\<rparr>"
    by (simp add: db' puts_lease)
qed

lemma release_effect:
  fixes drv t c db
  defines "db' \<equiv> run_release (pg_repository drv t) c db"
  shows "runtime_part db' = runtime_part db \<and> pg_definitions db' = pg_definitions db"
    and "v \<noteq> cfg_InstanceID c \<Longrightarrow> spares u v db db'"
    and "pg_leases db' q = Some r \<Longrightarrow> pg_leases db q = Some r"
  by (auto simp: db'_def run_release_def pg_repository_def pg_ReleasePartitions_def exec_def pg_fail_def settle_def runtime_part_def
      spares_def owns_lease_def split: option.splits if_splits)

text \<open>
  The lease of a process: while it lasts, the database has exactly the rows of its last renewal; and no row of the process
  lasts longer than a renewal made now would.
\<close>

definition lasting :: "go_time \<Rightarrow> process \<Rightarrow> bool" where
  "lasting t p \<longleftrightarrow> ps_ended p = None \<and> t < ps_renewed p + cfg_PartitionLeaseTTL (ps_config p)"

definition leased :: "string \<Rightarrow> process \<Rightarrow> pg \<Rightarrow> bool" where
  "leased w p db \<longleftrightarrow> (\<forall>q \<in> set (main_partitions (ps_config p)).
     pg_leases db q = Some \<lparr>pl_owner_id = w, pl_expires_at = ps_renewed p + cfg_PartitionLeaseTTL (ps_config p)\<rparr>)"

definition lease_inv :: "go_time \<Rightarrow> string \<Rightarrow> process \<Rightarrow> pg \<Rightarrow> bool" where
  "lease_inv t w p db \<longleftrightarrow>
     cfg_InstanceID (ps_config p) = w \<and> valid_config (ps_config p) \<and> ps_renewed p \<le> t \<and> (lasting t p \<longrightarrow> leased w p db) \<and>
     (\<forall>q \<in> set (main_partitions (ps_config p)). \<forall>r. pg_leases db q = Some r \<and> pl_owner_id r = w \<longrightarrow>
        pl_expires_at r \<le> t + cfg_PartitionLeaseTTL (ps_config p))"

lemma worker_live_iff: "worker_live cl w \<longleftrightarrow> (\<exists>p. cl_procs cl w = Some p \<and> lasting (cl_time cl) p)"
  by (simp add: worker_live_def lasting_def split: option.splits)

lemma lasting_earlier: "lasting (t + d) p \<Longrightarrow> 0 \<le> d \<Longrightarrow> lasting t p"
  by (simp add: lasting_def)

lemma lease_inv_later:
  assumes "lease_inv t w p db" and "0 \<le> d"
  shows "lease_inv (t + d) w p db"
proof -
  have "pl_expires_at r \<le> t + d + cfg_PartitionLeaseTTL (ps_config p)"
    if "q \<in> set (main_partitions (ps_config p))" "pg_leases db q = Some r" "pl_owner_id r = w" for q r
    using assms that unfolding lease_inv_def by (smt (verit))
  with assms show ?thesis by (auto simp: lease_inv_def dest: lasting_earlier)
qed

lemma lease_inv_spared:
  assumes "lease_inv t w p db" and "spares t w db db'"
  shows "lease_inv t w p db'"
proof -
  note kept = spares_row [OF assms(2)]
  have "leased w p db'" if "lasting t p"
  proof -
    from assms(1) that have "leased w p db" by (simp add: lease_inv_def)
    with kept that show ?thesis unfolding leased_def lasting_def by simp
  qed
  moreover have "pg_leases db q = Some r" if "pg_leases db' q = Some r" "pl_owner_id r = w" for q r
    using assms(2) that unfolding spares_def by blast
  ultimately show ?thesis using assms(1) by (simp add: lease_inv_def)
qed

lemma lease_inv_process:
  "lease_inv t w p db \<Longrightarrow> ps_config p' = ps_config p \<Longrightarrow> ps_renewed p' = ps_renewed p \<Longrightarrow>
     (ps_ended p' = None \<Longrightarrow> ps_ended p = None) \<Longrightarrow> lease_inv t w p' db"
  by (auto simp: lease_inv_def leased_def lasting_def)

definition cluster_leases :: "'w cluster \<Rightarrow> bool" where
  "cluster_leases cl \<longleftrightarrow> (\<forall>w p. cl_procs cl w = Some p \<longrightarrow> lease_inv (cl_time cl) w p (cl_db cl))"

text \<open>A step of \<open>w\<close> keeps the leases of a cluster when it spares the rows of the others and its own process is as it should be.\<close>

lemma cluster_leases_set:
  assumes "cluster_leases cl" and "cl_time cl' = cl_time cl" and "\<And>v. v \<noteq> w \<Longrightarrow> spares (cl_time cl) v (cl_db cl) (cl_db cl')"
    and "\<And>v. v \<noteq> w \<Longrightarrow> cl_procs cl' v = cl_procs cl v" and "\<And>p. cl_procs cl' w = Some p \<Longrightarrow> lease_inv (cl_time cl) w p (cl_db cl')"
  shows "cluster_leases cl'"
  unfolding cluster_leases_def
proof (intro allI impI)
  fix v p assume p: "cl_procs cl' v = Some p"
  show "lease_inv (cl_time cl') v p (cl_db cl')"
  proof (cases "v = w")
    case True
    with p assms(2,5) show ?thesis by simp
  next
    case False
    with p assms(1,4) have "lease_inv (cl_time cl) v p (cl_db cl)" by (simp add: cluster_leases_def)
    with lease_inv_spared assms(2,3) False show ?thesis by metis
  qed
qed

lemma operate_leases: "operate drv now c op s = Some s' \<Longrightarrow> pg_leases (sv_repo s') = pg_leases (sv_repo s)"
proof (cases "op_observations op")
  case None
  then show "operate drv now c op s = Some s' \<Longrightarrow> ?thesis"
    using operate_control by (auto simp: control_step_def kept_core_def)
next
  case (Some os)
  assume "operate drv now c op s = Some s'"
  from ingest_cases [OF this Some] show ?thesis
    by (auto dest!: evaluate_commits commit_leases)
qed

text \<open>What a start does to the leases, whether it succeeds or not.\<close>

lemma run_start_leases:
  assumes "run_start (pg_repository drv t) js t c db w = (res, db', w')"
  shows "runtime_part db' = runtime_part db \<and> pg_definitions db' = pg_definitions db"
    and "v \<noteq> cfg_InstanceID c \<Longrightarrow> spares t v db db'"
    and "\<forall>stream s. res = Inr (stream, s) \<longrightarrow> (\<forall>q \<in> set (main_partitions c).
      pg_leases db' q = Some \<lparr>pl_owner_id = cfg_InstanceID c, pl_expires_at = t + cfg_PartitionLeaseTTL c\<rparr>)"
proof -
  obtain got db1 where acq: "pg_AcquirePartitions drv t (cfg_InstanceID c) (main_partitions c) (cfg_PartitionLeaseTTL c) db = (got, db1)"
    by fastforce
  note a = acquire_effect [OF acq, unfolded main_partitions_small]
  note r = release_effect [where drv = drv and t = t and c = c and db = db1]
  have cases: "db' = db1 \<or> db' = run_release (pg_repository drv t) c db1"
    using assms acq
    by (auto simp: run_start_def run_release_def pg_repository_def Let_def split: sum.splits prod.splits bool.splits if_splits)
  show "runtime_part db' = runtime_part db \<and> pg_definitions db' = pg_definitions db" using cases a(1) r(1) by auto
  show "spares t v db db'" if "v \<noteq> cfg_InstanceID c" using cases a(2) [OF that] r(2) [OF that] spares_trans by blast
  show "\<forall>stream s. res = Inr (stream, s) \<longrightarrow> (\<forall>q \<in> set (main_partitions c).
      pg_leases db' q = Some \<lparr>pl_owner_id = cfg_InstanceID c, pl_expires_at = t + cfg_PartitionLeaseTTL c\<rparr>)"
    using run_start_Inr(1) [of "pg_repository drv t" js t c db w] assms acq a(3) by (auto simp: pg_repository_def)
qed

lemma lease_inv_new: "valid_config c \<Longrightarrow> \<forall>q \<in> set (main_partitions c).
    pg_leases db q = Some \<lparr>pl_owner_id = cfg_InstanceID c, pl_expires_at = t + cfg_PartitionLeaseTTL c\<rparr> \<Longrightarrow>
  lease_inv t (cfg_InstanceID c) (new_process t c stream s) db"
  by (simp add: lease_inv_def leased_def new_process_def)

lemma renew_leases:
  assumes "lease_inv t w p db" and "renew_tick (pg_repository drv t) (ps_config p) db = (err, db')"
  shows "lease_inv t w (if err = None then p\<lparr>ps_renewed := t\<rparr> else p\<lparr>ps_lease := err\<rparr>) db'"
proof -
  let ?c = "ps_config p" and ?ps = "main_partitions (ps_config p)"
  from assms(1) have c: "cfg_InstanceID ?c = w" "valid_config ?c" by (simp_all add: lease_inv_def)
  note ps = worker_partitions [OF c(2)]
  obtain res where res: "pg_RenewPartitions drv t w ?ps (cfg_PartitionLeaseTTL ?c) db = (res, db')" "err = None \<longleftrightarrow> res = Inr True"
    using assms(2) c by (auto simp: renew_tick_def pg_repository_def split: sum.splits prod.splits bool.splits)
  note e = renew_effect [OF res(1), unfolded main_partitions_small]
  have late: "pl_expires_at r \<le> t + cfg_PartitionLeaseTTL ?c" if "q \<in> set ?ps" "pg_leases db' q = Some r" "pl_owner_id r = w" for q r
  proof -
    have "pg_leases db q = Some r \<or> pl_expires_at r = t + cfg_PartitionLeaseTTL ?c"
      using e(4) [OF that(2,3)] by (auto dest: arg_cong [where f = pl_expires_at])
    with assms(1) that show ?thesis by (auto simp: lease_inv_def)
  qed
  show ?thesis
  proof (cases "err = None")
    case True
    with res e(5) ps late c show ?thesis by (simp add: lease_inv_def leased_def)
  next
    case False
    have "leased w p db'" if "lasting t p"
    proof -
      from assms(1) that have all: "leased w p db" by (simp add: lease_inv_def)
      then have "filter (owns_lease w db) ?ps = ?ps" by (simp add: filter_id_conv owns_lease_def leased_def)
      with False res ps have "db' = db"
        by (auto simp: pg_RenewPartitions_def exec_def pg_fail_def settle_def Let_def distinct_remdups_id main_partitions_small split: option.splits)
      with all show ?thesis by simp
    qed
    moreover obtain e where "err = Some e" using False by blast
    ultimately show ?thesis using late c assms(1) by (simp add: lease_inv_def lasting_def leased_def)
  qed
qed

lemma set_process_simps [simp]:
  "cl_time (set_process w p cl) = cl_time cl" "cl_db (set_process w p cl) = cl_db cl" "cl_broker (set_process w p cl) = cl_broker cl"
  "cl_procs (set_process w p cl) = (cl_procs cl)(w \<mapsto> p)"
  by (simp_all add: set_process_def)

lemma service_step_leases:
  assumes "cluster_leases cl" and "cl_procs cl w = Some p" and "cl_time cl1 = cl_time cl" and "cl_procs cl1 = cl_procs cl"
    and "pg_leases (cl_db cl1) = pg_leases (cl_db cl)"
  shows "cluster_leases (set_process w (p\<lparr>ps_service := s\<rparr>) cl1)"
proof (rule cluster_leases_set [OF assms(1), where w = w])
  have "lease_inv (cl_time cl) w p (cl_db cl)" using assms(1,2) by (simp add: cluster_leases_def)
  from lease_inv_spared [OF this spares_same [OF assms(5)]] have "lease_inv (cl_time cl) w p (cl_db cl1)" .
  then have "lease_inv (cl_time cl) w (p\<lparr>ps_service := s\<rparr>) (cl_db cl1)" by (rule lease_inv_process) simp_all
  then show "lease_inv (cl_time cl) w p' (cl_db (set_process w (p\<lparr>ps_service := s\<rparr>) cl1))"
    if "cl_procs (set_process w (p\<lparr>ps_service := s\<rparr>) cl1) w = Some p'" for p' using that by simp
qed (simp_all add: assms(3,4) spares_same [OF assms(5)])

lemma step_leases:
  assumes "cluster_leases cl" and "cluster_step js ev cl = Some cl'"
  shows "cluster_leases cl'"
proof (cases ev)
  case (Pass d)
  with assms(2) have d: "0 \<le> d" "cl' = cl\<lparr>cl_time := cl_time cl + d\<rparr>" by (simp_all split: if_splits)
  from assms(1) lease_inv_later [OF _ d(1)] show ?thesis unfolding cluster_leases_def d(2) by simp
next
  case (Start getenv hostname pid drv)
  show ?thesis
  proof (cases "Load getenv hostname pid")
    case (Inr c)
    obtain res db w where start: "run_start (pg_repository drv (cl_time cl)) js (cl_time cl) c (cl_db cl) (cl_broker cl) = (res, db, w)"
      using prod_cases3 by blast
    note s = run_start_leases [OF start]
    have "cl' = start_worker js c drv cl" "cl_procs cl (cfg_InstanceID c) = None"
      using assms(2) Start Inr by (auto split: if_splits)
    with start s Load_valid [OF Inr] show ?thesis
      by (intro cluster_leases_set [OF assms(1), where w = "cfg_InstanceID c"])
        (auto simp: start_worker_def intro: lease_inv_new split: sum.splits)
  qed (use assms Start in simp)
next
  case (Operate w drv op)
  with assms(2) obtain p s where p: "cl_procs cl w = Some p"
    "operate drv (cl_time cl) (ps_config p) op ((ps_service p)\<lparr>sv_repo := cl_db cl\<rparr>) = Some s"
    "cl' = set_process w (p\<lparr>ps_service := s\<rparr>) (cl\<lparr>cl_db := sv_repo s\<rparr>)"
    by (auto simp: operate_worker_def split: option.splits if_splits)
  show ?thesis unfolding p(3)
    by (rule service_step_leases [OF assms(1) p(1)]) (simp_all add: operate_leases [OF p(2)])
next
  case (Publish w drv wording n)
  with assms(2) obtain p s world where p: "cl_procs cl w = Some p"
    "drain (pg_repository drv (cl_time cl)) (multi_publish (main_publishers js wording (ps_stream p))) n ((ps_service p)\<lparr>sv_repo := cl_db cl\<rparr>, cl_broker cl) = Some (s, world)"
    "cl' = set_process w (p\<lparr>ps_service := s\<rparr>) (cl\<lparr>cl_db := sv_repo s, cl_broker := world\<rparr>)"
    by (auto simp: publish_worker_def split: option.splits if_splits)
  have "pg_leases (sv_repo s) = pg_leases (cl_db cl)" using drain_control [OF p(2)] by (simp add: control_step_def kept_core_def)
  then show ?thesis unfolding p(3) by (intro service_step_leases [OF assms(1) p(1)]) simp_all
next
  case (Renew w drv)
  with assms(2) obtain p where p: "cl_procs cl w = Some p" "cl' = renew_worker w p drv cl" by (auto split: option.splits if_splits)
  obtain err db' where r: "renew_tick (pg_repository drv (cl_time cl)) (ps_config p) (cl_db cl) = (err, db')" by fastforce
  have inv: "lease_inv (cl_time cl) w p (cl_db cl)" using assms(1) p(1) by (simp add: cluster_leases_def)
  then have id: "cfg_InstanceID (ps_config p) = w" by (simp add: lease_inv_def)
  obtain res where "pg_RenewPartitions drv (cl_time cl) w (main_partitions (ps_config p)) (cfg_PartitionLeaseTTL (ps_config p)) (cl_db cl) = (res, db')"
    using r id by (auto simp: renew_tick_def pg_repository_def split: sum.splits prod.splits bool.splits)
  with renew_effect(2) renew_leases [OF inv r] p(2) r show ?thesis
    by (intro cluster_leases_set [OF assms(1), where w = w])
      (auto simp: renew_worker_def split: option.splits)
next
  case (Stop w drv cause)
  with assms(2) obtain p where p: "cl_procs cl w = Some p" "cl' = stop_worker w p drv cause cl" by (auto split: option.splits if_splits)
  have inv: "lease_inv (cl_time cl) w p (cl_db cl)" using assms(1) p(1) by (simp add: cluster_leases_def)
  then have id: "cfg_InstanceID (ps_config p) = w" by (simp add: lease_inv_def)
  note r = release_effect [where drv = drv and t = "cl_time cl" and c = "ps_config p" and db = "cl_db cl"]
  have "lease_inv (cl_time cl) w (p\<lparr>ps_ended := Some cause\<rparr>) (run_release (pg_repository drv (cl_time cl)) (ps_config p) (cl_db cl))"
    using inv r(3) by (auto simp: lease_inv_def lasting_def)
  with r(2) id p(2) show ?thesis
    by (intro cluster_leases_set [OF assms(1), where w = w]) (auto simp: stop_worker_def)
next
  case (Exit w)
  with assms show ?thesis by (auto simp: cluster_leases_def split: if_splits)
qed

lemma run_leases: "cluster_run js may cl0 evs cl \<Longrightarrow> cluster_start cl0 \<Longrightarrow> cluster_leases cl"
proof (induction rule: cluster_run.induct)
  case (run_none cl)
  then show ?case by (simp add: cluster_start_def cluster_leases_def)
next
  case (run_step cl evs cl1 ev cl2)
  then show ?case using step_leases by blast
qed

section \<open>The engines of a cluster\<close>

text \<open>An engine keeps the shape its configuration gave it, whatever the schedule.\<close>

definition cluster_shapes :: "'w cluster \<Rightarrow> bool" where
  "cluster_shapes cl \<longleftrightarrow>
     (\<forall>w p. cl_procs cl w = Some p \<longrightarrow> same_shape (worker_engine (ps_config p)) (sv_runtime (ps_service p)))"

lemma Initialize_shape: "Initialize now lst load e = (None, e') \<Longrightarrow> same_shape e e'"
  by (auto simp: Initialize_def ReplaceDefinitions_def same_shape_def split: sum.splits prod.splits option.splits)

lemma operate_shape: "operate drv now c op s = Some s' \<Longrightarrow> same_shape (sv_runtime s) (sv_runtime s')"
proof (cases "op_observations op")
  case None
  then show "operate drv now c op s = Some s' \<Longrightarrow> ?thesis" using operate_control by (auto simp: control_step_def)
next
  case (Some os)
  assume "operate drv now c op s = Some s'"
  from ingest_cases [OF this Some] show ?thesis by (auto dest: EvaluateBatch_shape)
qed

lemma start_shape:
  assumes "run_start ops js t c db w = (Inr (stream, s), db', w')"
  shows "same_shape (worker_engine c) (sv_runtime s)"
proof -
  from run_start_Inr(2) [OF assms] obtain lst load where "Initialize t lst load (worker_engine c) = (None, sv_runtime s)"
    by (auto simp: start_service_def service_Initialize_def NewWithOptions_def main_service_options_def worker_engine_def
        split: prod.splits option.splits)
  then show ?thesis by (rule Initialize_shape)
qed

lemma cluster_shapes_set:
  "cluster_shapes cl \<Longrightarrow> cl_procs cl1 = cl_procs cl \<Longrightarrow>
     same_shape (worker_engine (ps_config p)) (sv_runtime (ps_service p)) \<Longrightarrow> cluster_shapes (set_process w p cl1)"
  by (simp add: cluster_shapes_def)

lemma step_shapes:
  assumes "cluster_shapes cl" and "cluster_step js ev cl = Some cl'"
  shows "cluster_shapes cl'"
proof -
  have old: "same_shape (worker_engine (ps_config p)) (sv_runtime (ps_service p))" if "cl_procs cl w = Some p" for w p
    using assms(1) that by (simp add: cluster_shapes_def)
  show ?thesis
  proof (cases ev)
    case (Start getenv hostname pid drv)
    show ?thesis
    proof (cases "Load getenv hostname pid")
      case (Inr c)
      have cl': "cl' = start_worker js c drv cl" using assms(2) Start Inr by (auto split: if_splits)
      obtain res db w where start: "run_start (pg_repository drv (cl_time cl)) js (cl_time cl) c (cl_db cl) (cl_broker cl) = (res, db, w)"
        using prod_cases3 by blast
      show ?thesis
      proof (cases res)
        case (Inr started)
        obtain stream s where "started = (stream, s)" by (cases started)
        with start Inr cl' start_shape [of "pg_repository drv (cl_time cl)" js "cl_time cl" c "cl_db cl" "cl_broker cl" stream s db w]
        show ?thesis by (auto simp: start_worker_def new_process_def intro!: cluster_shapes_set [OF assms(1)])
      qed (use cl' start assms(1) in \<open>simp add: start_worker_def cluster_shapes_def\<close>)
    qed (use assms Start in simp)
  next
    case (Operate w drv op)
    with assms(2) obtain p s where p: "cl_procs cl w = Some p"
      "operate drv (cl_time cl) (ps_config p) op ((ps_service p)\<lparr>sv_repo := cl_db cl\<rparr>) = Some s"
      "cl' = set_process w (p\<lparr>ps_service := s\<rparr>) (cl\<lparr>cl_db := sv_repo s\<rparr>)"
      by (auto simp: operate_worker_def split: option.splits if_splits)
    from same_shape_trans [OF old [OF p(1)], of "sv_runtime s"] operate_shape [OF p(2)] p(3) show ?thesis
      by (auto intro!: cluster_shapes_set [OF assms(1)])
  next
    case (Publish w drv wording n)
    with assms(2) obtain p s world where p: "cl_procs cl w = Some p"
      "drain (pg_repository drv (cl_time cl)) (multi_publish (main_publishers js wording (ps_stream p))) n ((ps_service p)\<lparr>sv_repo := cl_db cl\<rparr>, cl_broker cl) = Some (s, world)"
      "cl' = set_process w (p\<lparr>ps_service := s\<rparr>) (cl\<lparr>cl_db := sv_repo s, cl_broker := world\<rparr>)"
      by (auto simp: publish_worker_def split: option.splits if_splits)
    from drain_control [OF p(2)] same_shape_trans [OF old [OF p(1)], of "sv_runtime s"] p(3) show ?thesis
      by (auto simp: control_step_def intro!: cluster_shapes_set [OF assms(1)])
  next
    case (Renew w drv)
    with assms old show ?thesis
      by (auto simp: renew_worker_def intro!: cluster_shapes_set [OF assms(1)] split: option.splits if_splits prod.splits)
  next
    case (Stop w drv cause)
    with assms old show ?thesis
      by (auto simp: stop_worker_def intro!: cluster_shapes_set [OF assms(1)] split: option.splits if_splits)
  qed (use assms in \<open>auto simp: cluster_shapes_def split: if_splits\<close>)
qed

lemma run_shapes: "cluster_run js may cl0 evs cl \<Longrightarrow> cluster_start cl0 \<Longrightarrow> cluster_shapes cl"
proof (induction rule: cluster_run.induct)
  case (run_none cl)
  then show ?case by (simp add: cluster_start_def cluster_shapes_def)
next
  case (run_step cl evs cl1 ev cl2)
  then show ?case using step_shapes by blast
qed

lemma worker_pids: "valid_config c \<Longrightarrow> same_shape (worker_engine c) e \<Longrightarrow> valid_pid e q \<longleftrightarrow> q \<in> set (main_partitions c)"
  using valid_pid_frame [of "worker_engine c" e q] worker_engine_pids [of c q] by simp

text \<open>
  C4. No partition has two evaluators: in every state of a cluster, whatever its workers do and in whatever order, also
  when processes crash, restart and lose the database, two workers whose leases last own no partition both, so there is
  none for which both engines accept a batch.
\<close>

theorem live_workers_disjoint:
  assumes "cluster_run js any_schedule cl0 evs cl" and "cluster_start cl0" and "worker_live cl v" and "worker_live cl w" and "v \<noteq> w"
    and "cl_procs cl v = Some p" and "cl_procs cl w = Some p'"
  shows "\<not> (valid_pid (sv_runtime (ps_service p)) q \<and> valid_pid (sv_runtime (ps_service p')) q)"
proof
  assume both: "valid_pid (sv_runtime (ps_service p)) q \<and> valid_pid (sv_runtime (ps_service p')) q"
  note inv = run_leases [OF assms(1,2)] run_shapes [OF assms(1,2)]
  have "lease_inv (cl_time cl) v p (cl_db cl)" "lease_inv (cl_time cl) w p' (cl_db cl)"
    using inv(1) assms(6,7) by (simp_all add: cluster_leases_def)
  moreover from this both have "q \<in> set (main_partitions (ps_config p))" "q \<in> set (main_partitions (ps_config p'))"
    using inv(2) assms(6,7) worker_pids by (auto simp: cluster_shapes_def lease_inv_def)
  moreover have "lasting (cl_time cl) p" "lasting (cl_time cl) p'" using assms(3,4,6,7) by (simp_all add: worker_live_iff)
  ultimately show False using assms(5) by (auto simp: lease_inv_def leased_def)
qed

section \<open>A cluster of two workers\<close>

definition cluster_env :: "string \<Rightarrow> string \<Rightarrow> string" where
  "cluster_env i key =
    (if key = ''ALERTS_INSECURE_NO_AUTH'' then ''TRUE''
     else if key = ''ALERTS_DATABASE_URL'' then ''postgres''
     else if key = ''ALERTS_WORKER_COUNT'' then ''2''
     else if key = ''ALERTS_WORKER_INDEX'' then i else '''')"

lemma cluster_loads:
  assumes "i = ''0'' \<or> i = ''1''"
  shows "\<exists>c. Load (cluster_env i) host pid = Inr c \<and> cfg_PartitionLeaseTTL c = 15 * second \<and> cfg_NATSURL c = '''' \<and>
     cfg_Insecure c \<and> cfg_Addr c = '':8100'' \<and> cfg_WorkerCount c = 2 \<and> cfg_WorkerIndex c = (if i = ''0'' then 0 else 1) \<and>
     cfg_DatabaseURL c = ''postgres'' \<and> cfg_InstanceID c = instanceID host pid ''alertsd''"
proof -
  have t: "is_true ''TRUE''" "\<not> is_true ''''" by code_simp+
  have two: "integer (cluster_env i) ''ALERTS_WORKER_COUNT'' 1 1 256 = Inr 2"
    by (simp add: integer_def env_def cluster_env_def atoi_def digits_value_def Let_def is_digit_def byte_def)
  have index: "integer (cluster_env i) ''ALERTS_WORKER_INDEX'' 0 0 1 = Inr (if i = ''0'' then 0 else 1)"
    using assms by (elim disjE) (simp_all add: integer_def env_def cluster_env_def atoi_def digits_value_def Let_def is_digit_def byte_def)
  show ?thesis
    unfolding Load_Inr
    by (intro exI conjI, ((rule two) | (simp, rule index) | (rule integer_default config_duration_default;
            simp add: cluster_env_def default_texts [simplified] default_durations)
          | simp add: t cluster_env_def env_def)+)
qed

text \<open>A worker of this configuration starts over a database without definitions in which its partitions are free.\<close>

lemma cluster_starts:
  assumes "Load getenv host pid = Inr c" and "cfg_NATSURL c = ''''" and "cfg_Insecure c" and "cfg_Addr c = '':8100''"
    and "cfg_DatabaseURL c = ''postgres''" and "pg_definitions (cl_db cl) = []"
    and "\<forall>q \<in> set (main_partitions c). available (cl_time cl) (cfg_InstanceID c) (cl_db cl) q" and "cl_procs cl (cfg_InstanceID c) = None"
  shows "\<exists>s db. cluster_step js (Start getenv host pid plain_driver) cl =
      Some (set_process (cfg_InstanceID c) (new_process (cl_time cl) c None s) (cl\<lparr>cl_db := db\<rparr>)) \<and> pg_definitions db = [] \<and>
    (\<forall>q. pg_leases db q = (if q \<in> set (main_partitions c)
       then Some \<lparr>pl_owner_id = cfg_InstanceID c, pl_expires_at = cl_time cl + cfg_PartitionLeaseTTL c\<rparr> else pg_leases (cl_db cl) q))"
proof -
  let ?ps = "main_partitions c" and ?t = "cl_time cl"
  let ?db = "foldl (put_lease (cfg_InstanceID c) (?t + cfg_PartitionLeaseTTL c)) (cl_db cl) ?ps"
  note ps = worker_partitions [OF Load_valid [OF assms(1)]]
  have free: "filter (available ?t (cfg_InstanceID c) (cl_db cl)) ?ps = ?ps" using assms(7) by (simp add: filter_id_conv)
  have "\<not> list_ex (\<lambda>p. p < 0 \<or> p \<ge> 256) ?ps" by (auto simp: list_ex_iff main_partitions_def)
  then have "acquire_ids plain_driver ?t (cfg_PartitionLeaseTTL c) (cfg_InstanceID c) ?ps (cl_db cl) = (Inr True, ?db)"
    using ps free by (simp add: acquire_ids_def exec_def plain_driver_def settle_def Let_def)
  then have acq: "repo_AcquirePartitions (pg_repository plain_driver ?t) (cfg_InstanceID c) ?ps (cfg_PartitionLeaseTTL c) (cl_db cl) = (Inr True, ?db)"
    using ps by (simp add: pg_repository_def pg_AcquirePartitions_def main_partitions_small)
  have d: "pg_definitions ?db = []" using assms(6) by (simp add: puts_definitions)
  have "New_error (main_server_options c) = None" using assms(3,4) by (simp add: New_error_def main_server_options_def)
  from plain_start(1) [OF d this] obtain s where "start_service (pg_repository plain_driver ?t) ?t c None ?db = Inr (None, s)" by blast
  with acq assms(2) have "run_start (pg_repository plain_driver ?t) js ?t c (cl_db cl) (cl_broker cl) = (Inr (None, s), ?db, cl_broker cl)"
    by (simp add: run_start_def Let_def)
  with assms(1,5,8) d show ?thesis
    by (intro exI [of _ s] exI [of _ ?db]) (simp add: start_worker_def puts_lease)
qed

definition sample_cluster :: "unit cluster" where
  "sample_cluster = \<lparr>cl_time = 7, cl_db = empty_pg, cl_broker = (), cl_procs = Map.empty\<rparr>"

lemma sample_cluster_start: "cluster_start sample_cluster"
  by (simp add: cluster_start_def sample_cluster_def empty_pg_def placed_def)

lemma cluster_run_one: "may ev cl \<Longrightarrow> cluster_step js ev cl = Some cl1 \<Longrightarrow> cluster_run js may cl [ev] cl1"
  using run_step [OF run_none] by fastforce

lemma cluster_run_snoc: "cluster_run js may cl evs cl1 \<Longrightarrow> may ev cl1 \<Longrightarrow> cluster_step js ev cl1 = Some cl2 \<Longrightarrow> cluster_run js may cl (evs @ [ev]) cl2"
  by (rule run_step)

theorem live_workers_disjoint_witness:
  "\<forall>js :: (unit, unit) js_client. \<exists>cl v w p p'.
     cluster_run js any_schedule sample_cluster
       [Start (cluster_env ''0'') ''a'' 1 plain_driver, Start (cluster_env ''1'') ''b'' 1 plain_driver] cl \<and>
     worker_live cl v \<and> worker_live cl w \<and> v \<noteq> w \<and> cl_procs cl v = Some p \<and> cl_procs cl w = Some p' \<and>
     \<not> (valid_pid (sv_runtime (ps_service p)) 0 \<and> valid_pid (sv_runtime (ps_service p')) 0)"
proof
  fix js :: "(unit, unit) js_client"
  obtain c where c: "Load (cluster_env ''0'') ''a'' 1 = Inr c" "cfg_NATSURL c = ''''" "cfg_Insecure c" "cfg_Addr c = '':8100''"
    "cfg_DatabaseURL c = ''postgres''" "cfg_PartitionLeaseTTL c = 15 * second" "cfg_WorkerCount c = 2" "cfg_WorkerIndex c = 0"
    "cfg_InstanceID c = instanceID ''a'' 1 ''alertsd''"
    using cluster_loads [of "''0''" "''a''" 1] by auto
  obtain c' where c': "Load (cluster_env ''1'') ''b'' 1 = Inr c'" "cfg_NATSURL c' = ''''" "cfg_Insecure c'" "cfg_Addr c' = '':8100''"
    "cfg_DatabaseURL c' = ''postgres''" "cfg_PartitionLeaseTTL c' = 15 * second" "cfg_WorkerCount c' = 2" "cfg_WorkerIndex c' = 1"
    "cfg_InstanceID c' = instanceID ''b'' 1 ''alertsd''"
    using cluster_loads [of "''1''" "''b''" 1] by auto
  have other: "cfg_InstanceID c' \<noteq> cfg_InstanceID c" by (simp add: c c' instanceID_def)
  have apart: "q \<notin> set (main_partitions c)" if "q \<in> set (main_partitions c')" for q
    using that by (auto simp: main_partitions_def c c')
  obtain s db where 1: "cluster_step js (Start (cluster_env ''0'') ''a'' 1 plain_driver) sample_cluster =
      Some (set_process (cfg_InstanceID c) (new_process 7 c None s) (sample_cluster\<lparr>cl_db := db\<rparr>))"
    and db: "pg_definitions db = []" "\<And>q. q \<notin> set (main_partitions c) \<Longrightarrow> pg_leases db q = None"
    using cluster_starts [OF c(1-5), where js = js and cl = sample_cluster]
    by (auto simp: sample_cluster_def empty_pg_def available_def)
  let ?cl = "set_process (cfg_InstanceID c) (new_process 7 c None s) (sample_cluster\<lparr>cl_db := db\<rparr>)"
  obtain s' db' where 2: "cluster_step js (Start (cluster_env ''1'') ''b'' 1 plain_driver) ?cl =
      Some (set_process (cfg_InstanceID c') (new_process 7 c' None s') (?cl\<lparr>cl_db := db'\<rparr>))"
    using cluster_starts [OF c'(1-5), where js = js and cl = ?cl] db apart other
    by (auto simp: sample_cluster_def available_def)
  let ?cl2 = "set_process (cfg_InstanceID c') (new_process 7 c' None s') (?cl\<lparr>cl_db := db'\<rparr>)"
  have run: "cluster_run js any_schedule sample_cluster
      [Start (cluster_env ''0'') ''a'' 1 plain_driver, Start (cluster_env ''1'') ''b'' 1 plain_driver] ?cl2"
    using cluster_run_snoc [OF cluster_run_one [OF _ 1] _ 2, of any_schedule] by (simp add: any_schedule_def)
  have p: "cl_procs ?cl2 (cfg_InstanceID c) = Some (new_process 7 c None s)"
    "cl_procs ?cl2 (cfg_InstanceID c') = Some (new_process 7 c' None s')" using other by simp_all
  have live: "worker_live ?cl2 (cfg_InstanceID c)" "worker_live ?cl2 (cfg_InstanceID c')"
    unfolding worker_live_iff using p c(6) c'(6) by (simp_all add: lasting_def new_process_def sample_cluster_def)
  from live_workers_disjoint [OF run sample_cluster_start live other [symmetric] p, of 0] run live other p
  show "\<exists>cl v w p p'. cluster_run js any_schedule sample_cluster
       [Start (cluster_env ''0'') ''a'' 1 plain_driver, Start (cluster_env ''1'') ''b'' 1 plain_driver] cl \<and>
     worker_live cl v \<and> worker_live cl w \<and> v \<noteq> w \<and> cl_procs cl v = Some p \<and> cl_procs cl w = Some p' \<and>
     \<not> (valid_pid (sv_runtime (ps_service p)) 0 \<and> valid_pid (sv_runtime (ps_service p')) 0)" by metis
qed

end
