(* ===== verification/Cluster_Laws.thy ===== *)
theory Cluster_Laws
  imports Cluster_Leases
begin

text \<open>
  What the workers of a cluster guarantee together: while workers evaluate only under their leases, each of them holds in
  memory what the database holds of its partitions, so that a worker that takes partitions over continues where the last
  one stopped, and it can take them over when the leases are over; but a commit does not look at the leases.
\<close>

section \<open>Memory and database in a cluster\<close>

definition holds_all :: "string \<Rightarrow> config \<Rightarrow> pg \<Rightarrow> bool" where
  "holds_all w c db \<longleftrightarrow> (\<forall>q \<in> set (main_partitions c). owns_lease w db q)"

text \<open>While the rows of its partitions are its own, a worker holds in memory what the database holds.\<close>

definition worker_inv :: "string \<Rightarrow> process \<Rightarrow> pg \<Rightarrow> bool" where
  "worker_inv w p db \<longleftrightarrow>
     same_shape (worker_engine (ps_config p)) (sv_runtime (ps_service p)) \<and> bar_free_ids (sv_runtime (ps_service p)) \<and>
     (holds_all w (ps_config p) db \<longrightarrow> in_step (ps_config p) (sv_runtime (ps_service p)) db)"

definition db_inv :: "pg \<Rightarrow> bool" where
  "db_inv db \<longleftrightarrow> placed (New DefaultPartitions) db \<and> pg_rule_state db = [] \<and> bar_free_rows db"

definition cluster_inv :: "'w cluster \<Rightarrow> bool" where
  "cluster_inv cl \<longleftrightarrow> cluster_leases cl \<and> db_inv (cl_db cl) \<and> (\<forall>w p. cl_procs cl w = Some p \<longrightarrow> worker_inv w p (cl_db cl))"

lemma owns_lease_iff: "owns_lease w db q \<longleftrightarrow> (\<exists>r. pg_leases db q = Some r \<and> pl_owner_id r = w)"
  by (simp add: owns_lease_def split: option.splits)

lemma cluster_invD:
  "cluster_inv cl \<Longrightarrow> cl_procs cl w = Some p \<Longrightarrow> worker_inv w p (cl_db cl) \<and> lease_inv (cl_time cl) w p (cl_db cl)"
  by (simp add: cluster_inv_def cluster_leases_def)

lemma holds_spared:
  assumes "holds_all v c db'" and "spares t v db db'"
  shows "holds_all v c db"
proof -
  have "owns_lease v db q" if "owns_lease v db' q" for q
    using assms(2) that unfolding owns_lease_iff spares_def by blast
  with assms(1) show ?thesis by (simp add: holds_all_def)
qed

lemma leased_holds: "leased w p db \<Longrightarrow> holds_all w (ps_config p) db"
  by (simp add: leased_def holds_all_def owns_lease_def)

lemma in_step_checkpoint: "checkpoint c db' = checkpoint c db \<Longrightarrow> in_step c e db' = in_step c e db"
  by (simp add: in_step_def)

lemma worker_inv_spared:
  assumes "worker_inv v p db" and "spares t v db db'"
    and "holds_all v (ps_config p) db' \<Longrightarrow> checkpoint (ps_config p) db' = checkpoint (ps_config p) db"
  shows "worker_inv v p db'"
proof -
  have "in_step (ps_config p) (sv_runtime (ps_service p)) db'" if h: "holds_all v (ps_config p) db'"
    using assms(1) holds_spared [OF h assms(2)] in_step_checkpoint [OF assms(3) [OF h]] by (simp add: worker_inv_def)
  with assms(1) show ?thesis by (simp add: worker_inv_def)
qed

lemma db_inv_frame: "db_inv db \<Longrightarrow> runtime_part db' = runtime_part db \<Longrightarrow> bar_free_rows db' \<Longrightarrow> db_inv db'"
  by (simp add: db_inv_def runtime_part_def placed_def)

lemma cluster_inv_set:
  assumes "cluster_inv cl" and "cluster_leases cl'" and "db_inv (cl_db cl')"
    and "\<And>v. v \<noteq> w \<Longrightarrow> spares t v (cl_db cl) (cl_db cl')"
    and "\<And>v p. v \<noteq> w \<Longrightarrow> cl_procs cl v = Some p \<Longrightarrow> holds_all v (ps_config p) (cl_db cl') \<Longrightarrow>
      checkpoint (ps_config p) (cl_db cl') = checkpoint (ps_config p) (cl_db cl)"
    and "\<And>v. v \<noteq> w \<Longrightarrow> cl_procs cl' v = cl_procs cl v" and "\<And>p. cl_procs cl' w = Some p \<Longrightarrow> worker_inv w p (cl_db cl')"
  shows "cluster_inv cl'"
proof -
  have "worker_inv v p (cl_db cl')" if "cl_procs cl' v = Some p" for v p
  proof (cases "v = w")
    case False
    with that assms(6) have p: "cl_procs cl v = Some p" by simp
    with assms(1) have "worker_inv v p (cl_db cl)" by (simp add: cluster_inv_def)
    from worker_inv_spared [OF this assms(4) [OF False] assms(5) [OF False p]] show ?thesis .
  qed (use that assms(7) in simp)
  with assms(2,3) show ?thesis by (simp add: cluster_inv_def)
qed

text \<open>The state a worker starts with is what the database holds of its partitions.\<close>

lemma load_is_checkpoint:
  assumes "pg_LoadRuntimeStates drv (main_partitions c) db = Inr snap" and "pg_rule_state db = []"
  shows "snap = checkpoint c db"
proof -
  have "legacy_rows db = []" using assms(2) by (simp add: legacy_rows_def)
  with assms(1) show ?thesis
    by (auto simp: pg_LoadRuntimeStates_def checkpoint_def main_partitions_small Let_def split: option.splits if_splits)
qed

lemma start_service_in_step:
  assumes "start_service (pg_repository drv t) t c stream db = Inr (stream', s)" and "valid_config c" and "db_inv db"
  shows "in_step c (sv_runtime s) db \<and> same_shape (worker_engine c) (sv_runtime s) \<and> bar_free_ids (sv_runtime s) \<and> stream' = stream"
proof -
  let ?lst = "pg_ListDefinitions drv t db" and ?load = "\<lambda>ps. pg_LoadRuntimeStates drv ps db"
  from assms(1) have init: "Initialize t ?lst ?load (worker_engine c) = (None, sv_runtime s)" "stream' = stream"
    by (auto simp: start_service_def service_Initialize_def NewWithOptions_def main_service_options_def worker_engine_def
        pg_repository_def split: prod.splits option.splits)
  then obtain ds e1 snap where ds: "?lst = Inr ds" and e1: "ReplaceDefinitions t ds (worker_engine c) = (None, e1)"
    and snap: "?load (ownedPartitions e1) = Inr snap"
    by (auto simp: Initialize_def split: sum.splits prod.splits option.splits)
  have "ownedPartitions e1 = main_partitions c"
    using definition_changes_frame(1) [of t ds "worker_engine c"] e1 worker_engine_owned [OF assms(2)]
      ownedPartitions_cong [of e1 "worker_engine c"] by (simp add: same_shape_def)
  with snap load_is_checkpoint assms(3) have load: "?load (ownedPartitions (worker_engine c)) = Inr (checkpoint c db)"
    by (auto simp: worker_engine_owned [OF assms(2)] db_inv_def)
  have fresh: "fresh_engine (worker_engine c)" by (simp add: worker_engine_def fresh_New)
  from init ds Initialize_load [where load = ?load, OF load]
  have "Initialize t (Inr ds) (\<lambda>_. Inr (checkpoint c db)) (worker_engine c) = (None, sv_runtime s)" by simp
  note ok = Initialize_ok [OF this fresh]
  have "bar_free_ids (worker_engine c)" using fresh by (simp add: bar_free_ids_def fresh_engine_def get_route_def)
  with pg_List_bar_free [OF ds] assms(3) have "bar_free_ids (snd (ReplaceDefinitions t ds (worker_engine c)))"
    by (intro bar_free_Replace) (simp_all add: db_inv_def)
  with ok init(2) show ?thesis by (simp add: in_step_def bar_free_ids_def)
qed

lemma run_start_service:
  "run_start (pg_repository drv t) js t c db w = (Inr (stream, s), db', w') \<Longrightarrow> start_service (pg_repository drv t) t c stream db' = Inr (stream, s)"
  by (rule run_start_Inr(2))

lemma control_worker_inv:
  assumes "worker_inv w p db" and "control_step drv ((ps_service p)\<lparr>sv_repo := db\<rparr>) s" and "uuid_texts drv" and "bar_free_rows db"
  shows "worker_inv w (p\<lparr>ps_service := s\<rparr>) (sv_repo s)"
proof -
  from assms have s: "kept_core db (sv_repo s)" "e_partitions (sv_runtime s) = e_partitions (sv_runtime (ps_service p))"
    "same_shape (sv_runtime (ps_service p)) (sv_runtime s)" "bar_free_ids (sv_runtime s)"
    by (simp_all add: control_step_def worker_inv_def)
  then have "holds_all w (ps_config p) (sv_repo s) = holds_all w (ps_config p) db"
    "checkpoint (ps_config p) (sv_repo s) = checkpoint (ps_config p) db"
    using checkpoint_frame [of "sv_repo s" db] by (simp_all add: holds_all_def owns_lease_def kept_core_def)
  then have "in_step (ps_config p) (sv_runtime s) (sv_repo s)" if "holds_all w (ps_config p) (sv_repo s)"
    using assms(1) that mirror_frame [OF _ s(3,2)] by (simp add: worker_inv_def in_step_def)
  moreover have "same_shape (worker_engine (ps_config p)) (sv_runtime s)"
    using assms(1) same_shape_trans [OF _ s(3)] by (simp add: worker_inv_def)
  ultimately show ?thesis using s(4) by (simp add: worker_inv_def)
qed

lemma ingest_step:
  assumes "cluster_inv cl" and "cl_procs cl w = Some p" and "worker_live cl w"
    and "operate drv (cl_time cl) (ps_config p) op ((ps_service p)\<lparr>sv_repo := cl_db cl\<rparr>) = Some s"
    and "op_observations op = Some os" and "\<forall>obs \<in> set os. slash_free (obs_Series obs)"
  shows "db_inv (sv_repo s)" and "worker_inv w (p\<lparr>ps_service := s\<rparr>) (sv_repo s)"
    and "v \<noteq> w \<Longrightarrow> holds_all v c (sv_repo s) \<Longrightarrow> checkpoint c (sv_repo s) = checkpoint c (cl_db cl)"
proof -
  let ?c = "ps_config p" and ?e = "sv_runtime (ps_service p)" and ?db = "cl_db cl"
  from assms(1,2) have inv: "db_inv ?db" "worker_inv w p ?db" "lease_inv (cl_time cl) w p ?db"
    by (simp_all add: cluster_inv_def cluster_leases_def)
  have leased: "leased w p ?db" using inv(3) assms(2,3) by (auto simp: lease_inv_def worker_live_iff)
  have leases: "pg_leases (sv_repo s) = pg_leases ?db" using operate_leases [OF assms(4)] by simp
  have c: "valid_config ?c" and e: "same_shape (worker_engine ?c) ?e" "bar_free_ids ?e" "in_step ?c ?e ?db"
    using inv leased_holds [OF leased] by (simp_all add: lease_inv_def worker_inv_def)
  from ingest_cases [OF assms(4,5)] consider "sv_runtime s = ?e" "sv_repo s = ?db"
    | pid res where "EvaluateBatch (pg_CommitRuntimeBatch drv (cl_time cl)) (cl_time cl) pid os ?e ?db = Some (res, sv_runtime s, sv_repo s)"
    by auto
  then have "db_inv (sv_repo s) \<and> worker_inv w (p\<lparr>ps_service := s\<rparr>) (sv_repo s) \<and>
    (v \<noteq> w \<longrightarrow> holds_all v c (sv_repo s) \<longrightarrow> checkpoint c (sv_repo s) = checkpoint c ?db)"
  proof cases
    case 1
    with inv show ?thesis by (simp add: worker_inv_def)
  next
    case b: 2
    have rule: "pg_rule_state ?db = []" and placed: "placed (New DefaultPartitions) ?db" using inv(1) by (simp_all add: db_inv_def)
    note own = batch_in_step [OF b c e(1,2) assms(6) rule]
    note other = batch_elsewhere [OF b e(2) assms(6) e(1) placed]
    have "bar_free_rows (sv_repo s)"
      using evaluate_commits [OF b] inv(1) by (auto simp: db_inv_def bar_free_rows_def dest: commit_row_ids)
    with own(4) other [of "[]"] have "db_inv (sv_repo s)" by (simp add: db_inv_def)
    moreover have "worker_inv w (p\<lparr>ps_service := s\<rparr>) (sv_repo s)" using own(1-3) e(3) by (simp add: worker_inv_def)
    moreover have "checkpoint c (sv_repo s) = checkpoint c ?db" if "v \<noteq> w" "holds_all v c (sv_repo s)"
    proof (cases "pid \<in> set (main_partitions c)")
      case True
      with that leases have "owns_lease v ?db pid" by (simp add: holds_all_def owns_lease_def)
      moreover have "owns_lease w ?db pid" if "pid \<in> set (main_partitions ?c)"
        using leased_holds [OF leased] that by (simp add: holds_all_def)
      ultimately have "pid \<notin> set (main_partitions ?c)" using that(1) by (auto simp: owns_lease_iff)
      with own(5) show ?thesis by simp
    next
      case False
      with other [of "main_partitions c"] show ?thesis by (simp add: checkpoint_def)
    qed
    ultimately show ?thesis by blast
  qed
  then show "db_inv (sv_repo s)" and "worker_inv w (p\<lparr>ps_service := s\<rparr>) (sv_repo s)"
    and "v \<noteq> w \<Longrightarrow> holds_all v c (sv_repo s) \<Longrightarrow> checkpoint c (sv_repo s) = checkpoint c ?db" by blast+
qed

lemma control_step_inv:
  assumes "cluster_inv cl" and "cl_procs cl w = Some p" and "control_step drv ((ps_service p)\<lparr>sv_repo := cl_db cl\<rparr>) s" and "uuid_texts drv"
    and "cl_db cl1 = sv_repo s" and "cl_procs cl1 = cl_procs cl" and "cluster_leases (set_process w (p\<lparr>ps_service := s\<rparr>) cl1)"
  shows "cluster_inv (set_process w (p\<lparr>ps_service := s\<rparr>) cl1)"
proof (rule cluster_inv_set [OF assms(1,7), where w = w and t = 0])
  from assms(1,2) have inv: "db_inv (cl_db cl)" "worker_inv w p (cl_db cl)" by (simp_all add: cluster_inv_def)
  from assms(3) have core: "kept_core (cl_db cl) (sv_repo s)" by (simp add: control_step_def)
  from control_worker_inv [OF inv(2) assms(3,4)] inv(1) have "worker_inv w (p\<lparr>ps_service := s\<rparr>) (sv_repo s)" by (simp add: db_inv_def)
  with assms(5) show "worker_inv w p' (cl_db (set_process w (p\<lparr>ps_service := s\<rparr>) cl1))"
    if "cl_procs (set_process w (p\<lparr>ps_service := s\<rparr>) cl1) w = Some p'" for p' using that by simp
  have "bar_free_rows (sv_repo s)" using assms(3,4) inv by (simp add: control_step_def worker_inv_def db_inv_def)
  with db_inv_frame [OF inv(1)] core assms(5) show "db_inv (cl_db (set_process w (p\<lparr>ps_service := s\<rparr>) cl1))" by (simp add: kept_core_def)
  show "checkpoint (ps_config p') (cl_db (set_process w (p\<lparr>ps_service := s\<rparr>) cl1)) = checkpoint (ps_config p') (cl_db cl)" for p'
    using core assms(5) by (simp add: kept_core_def checkpoint_frame [of "sv_repo s" "cl_db cl"])
  show "spares 0 v (cl_db cl) (cl_db (set_process w (p\<lparr>ps_service := s\<rparr>) cl1))" for v
    using core assms(5) by (simp add: kept_core_def spares_same)
qed (simp_all add: assms(6))

text \<open>Steps that change only leases, and nobody's but their own.\<close>

lemma lease_step_inv:
  assumes "cluster_inv cl" and "cluster_leases cl'" and "runtime_part (cl_db cl') = runtime_part (cl_db cl)"
    and "pg_definitions (cl_db cl') = pg_definitions (cl_db cl)"
    and "\<And>v. v \<noteq> w \<Longrightarrow> spares t v (cl_db cl) (cl_db cl')" and "\<And>v. v \<noteq> w \<Longrightarrow> cl_procs cl' v = cl_procs cl v"
    and "\<And>p. cl_procs cl' w = Some p \<Longrightarrow> worker_inv w p (cl_db cl')"
  shows "cluster_inv cl'"
proof (rule cluster_inv_set [OF assms(1,2), where w = w and t = t])
  show "db_inv (cl_db cl')" using assms(1) db_inv_frame [OF _ assms(3)] assms(4) by (simp add: cluster_inv_def db_inv_def bar_free_rows_def)
  show "checkpoint (ps_config p) (cl_db cl') = checkpoint (ps_config p) (cl_db cl)" for p by (rule checkpoint_frame [OF assms(3)])
qed (use assms(5-7) in simp_all)

lemma worker_inv_leases:
  assumes "worker_inv w p db" and "runtime_part db' = runtime_part db" and "\<And>q. owns_lease w db' q \<Longrightarrow> owns_lease w db q"
    and "ps_config p' = ps_config p" and "ps_service p' = ps_service p"
  shows "worker_inv w p' db'"
  using assms(1,3-5) in_step_checkpoint [OF checkpoint_frame [OF assms(2)]] by (auto simp: worker_inv_def holds_all_def)

lemma step_inv:
  assumes "cluster_inv cl" and "timely ev cl" and "cluster_step js ev cl = Some cl'"
  shows "cluster_inv cl'"
proof -
  have leases: "cluster_leases cl'" using step_leases [OF _ assms(3)] assms(1) by (simp add: cluster_inv_def)
  have inv: "worker_inv w p (cl_db cl) \<and> cfg_InstanceID (ps_config p) = w" if "cl_procs cl w = Some p" for w p
    using assms(1) that by (simp add: cluster_inv_def cluster_leases_def lease_inv_def)
  show ?thesis
  proof (cases ev)
    case (Pass d)
    with assms(1,3) leases show ?thesis by (auto simp: cluster_inv_def split: if_splits)
  next
    case (Start getenv hostname pid drv)
    show ?thesis
    proof (cases "Load getenv hostname pid")
      case (Inr c)
      obtain res db w where start: "run_start (pg_repository drv (cl_time cl)) js (cl_time cl) c (cl_db cl) (cl_broker cl) = (res, db, w)"
        using prod_cases3 by blast
      have cl': "cl' = start_worker js c drv cl" "cl_procs cl (cfg_InstanceID c) = None"
        using assms(3) Start Inr by (auto split: if_splits)
      note s = run_start_leases(1,2) [OF start]
      have "db_inv db" using assms(1) s(1) db_inv_frame [of "cl_db cl" db] by (simp add: cluster_inv_def db_inv_def bar_free_rows_def)
      then have "in_step c (sv_runtime s) db \<and> same_shape (worker_engine c) (sv_runtime s) \<and> bar_free_ids (sv_runtime s)"
        if "res = Inr (stream, s)" for stream s
        using start_service_in_step [OF run_start_service [OF start [unfolded that]] Load_valid [OF Inr]] by blast
      then have "worker_inv (cfg_InstanceID c) p (cl_db cl')" if "cl_procs cl' (cfg_InstanceID c) = Some p" for p
        using that start cl' by (auto simp: start_worker_def worker_inv_def new_process_def split: sum.splits)
      with leases s cl' start show ?thesis
        by (intro lease_step_inv [OF assms(1), where w = "cfg_InstanceID c" and t = "cl_time cl"])
          (auto simp: start_worker_def split: sum.splits)
    qed (use assms(1,3) Start in simp)
  next
    case (Operate w drv op)
    with assms(3) obtain p s where p: "cl_procs cl w = Some p"
      "operate drv (cl_time cl) (ps_config p) op ((ps_service p)\<lparr>sv_repo := cl_db cl\<rparr>) = Some s"
      "cl' = set_process w (p\<lparr>ps_service := s\<rparr>) (cl\<lparr>cl_db := sv_repo s\<rparr>)"
      by (auto simp: operate_worker_def split: option.splits if_splits)
    show ?thesis
    proof (cases "op_observations op")
      case None
      with assms(2) Operate have "uuid_texts drv" by simp
      show ?thesis unfolding p(3)
        by (rule control_step_inv [OF assms(1) p(1) operate_control [OF p(2) None] \<open>uuid_texts drv\<close>]) (use leases p(3) in simp_all)
    next
      case (Some os)
      with assms(2) Operate have live: "worker_live cl w" "\<forall>obs \<in> set os. slash_free (obs_Series obs)" by simp_all
      note i = ingest_step [OF assms(1) p(1) live(1) p(2) Some live(2)]
      show ?thesis
        using i p(3) leases operate_leases [OF p(2)]
        by (intro cluster_inv_set [OF assms(1), where w = w and t = 0]) (auto simp: spares_same)
    qed
  next
    case (Publish w drv wording n)
    with assms(3) obtain p s world where p: "cl_procs cl w = Some p"
      "drain (pg_repository drv (cl_time cl)) (multi_publish (main_publishers js wording (ps_stream p))) n ((ps_service p)\<lparr>sv_repo := cl_db cl\<rparr>, cl_broker cl) = Some (s, world)"
      "cl' = set_process w (p\<lparr>ps_service := s\<rparr>) (cl\<lparr>cl_db := sv_repo s, cl_broker := world\<rparr>)"
      by (auto simp: publish_worker_def split: option.splits if_splits)
    from assms(2) Publish have "uuid_texts drv" by simp
    show ?thesis unfolding p(3)
      by (rule control_step_inv [OF assms(1) p(1) drain_control [OF p(2)] \<open>uuid_texts drv\<close>]) (use leases p(3) in simp_all)
  next
    case (Renew w drv)
    with assms(3) obtain p where p: "cl_procs cl w = Some p" "cl' = renew_worker w p drv cl" by (auto split: option.splits if_splits)
    obtain err db' where r: "renew_tick (pg_repository drv (cl_time cl)) (ps_config p) (cl_db cl) = (err, db')" by fastforce
    obtain res where "pg_RenewPartitions drv (cl_time cl) w (main_partitions (ps_config p)) (cfg_PartitionLeaseTTL (ps_config p)) (cl_db cl) = (res, db')"
      using r inv [OF p(1)] by (auto simp: renew_tick_def pg_repository_def split: sum.splits prod.splits bool.splits)
    note e = renew_effect(1-3) [OF this]
    have "worker_inv w p' db'" if "p' = p\<lparr>ps_renewed := cl_time cl\<rparr> \<or> p' = p\<lparr>ps_lease := err\<rparr>" for p'
      using worker_inv_leases [of w p "cl_db cl" db' p'] inv [OF p(1)] e that by auto
    with e p(2) r leases show ?thesis
      by (intro lease_step_inv [OF assms(1), where w = w and t = "cl_time cl"]) (auto simp: renew_worker_def split: option.splits)
  next
    case (Stop w drv cause)
    with assms(3) obtain p where p: "cl_procs cl w = Some p" "cl' = stop_worker w p drv cause cl" by (auto split: option.splits if_splits)
    note r = release_effect [where drv = drv and t = "cl_time cl" and c = "ps_config p" and db = "cl_db cl"]
    have w: "worker_inv w (p\<lparr>ps_ended := Some cause\<rparr>) (run_release (pg_repository drv (cl_time cl)) (ps_config p) (cl_db cl))"
    proof (rule worker_inv_leases)
      show "worker_inv w p (cl_db cl)" using inv [OF p(1)] by simp
      show "runtime_part (run_release (pg_repository drv (cl_time cl)) (ps_config p) (cl_db cl)) = runtime_part (cl_db cl)"
        using r(1) by simp
      show "owns_lease w (cl_db cl) q" if "owns_lease w (run_release (pg_repository drv (cl_time cl)) (ps_config p) (cl_db cl)) q" for q
        using that r(3) unfolding owns_lease_iff by blast
    qed simp_all
    show ?thesis
    proof (rule lease_step_inv [OF assms(1) leases, where w = w and t = "cl_time cl"])
      show "spares (cl_time cl) v (cl_db cl) (cl_db cl')" if "v \<noteq> w" for v
        using r(2) [of v] that inv [OF p(1)] p(2) by (simp add: stop_worker_def)
    qed (use r(1) w p(2) in \<open>simp_all add: stop_worker_def\<close>)
  next
    case (Exit w)
    with assms(1,3) leases show ?thesis by (auto simp: cluster_inv_def split: if_splits)
  qed
qed

lemma run_inv: "cluster_run js timely cl0 evs cl \<Longrightarrow> cluster_start cl0 \<Longrightarrow> cluster_inv cl"
proof (induction rule: cluster_run.induct)
  case (run_none cl)
  then show ?case by (simp add: cluster_start_def cluster_inv_def cluster_leases_def db_inv_def bar_free_rows_def)
next
  case (run_step cl evs cl1 ev cl2)
  then show ?case using step_inv by blast
qed

section \<open>Taking partitions over\<close>

text \<open>
  The partitions of a process that is gone: as long as no worker starts, nobody acquires its rows and no live worker
  evaluates them, so that the rows and what the database holds of the partitions stay as they are.
\<close>

lemma held_step:
  assumes "cluster_inv cl" and "timely ev cl" and "\<not> is_Start ev" and "cluster_step js ev cl = Some cl'"
    and "cl_procs cl w = None" and "holds_all w c (cl_db cl)"
  shows "cl_procs cl' w = None \<and> cl_time cl \<le> cl_time cl' \<and> checkpoint c (cl_db cl') = checkpoint c (cl_db cl) \<and>
    (\<forall>q \<in> set (main_partitions c). pg_leases (cl_db cl') q = pg_leases (cl_db cl) q)"
proof -
  have id: "cfg_InstanceID (ps_config p) = v \<and> v \<noteq> w \<and> w \<noteq> v" if "cl_procs cl v = Some p" for v p
    using assms(1,5) that by (auto simp: cluster_inv_def cluster_leases_def lease_inv_def)
  have rows: "\<forall>q \<in> set (main_partitions c). pg_leases db' q = pg_leases (cl_db cl) q" if "\<And>u. spares u w (cl_db cl) db'" for db'
  proof
    fix q assume "q \<in> set (main_partitions c)"
    with assms(6) obtain r where r: "pg_leases (cl_db cl) q = Some r" "pl_owner_id r = w" by (auto simp: holds_all_def owns_lease_iff)
    with spares_row [OF that [of "pl_expires_at r - 1"] r] show "pg_leases db' q = pg_leases (cl_db cl) q" by simp
  qed
  have core: "checkpoint c db' = checkpoint c (cl_db cl) \<and> (\<forall>q \<in> set (main_partitions c). pg_leases db' q = pg_leases (cl_db cl) q)"
    if "kept_core (cl_db cl) db'" for db'
    using that checkpoint_frame [of db' "cl_db cl" c] unfolding kept_core_def by (elim conjE) (simp (no_asm_simp))
  show ?thesis
  proof (cases ev)
    case (Operate v drv op)
    with assms(4) obtain p s where p: "cl_procs cl v = Some p"
      "operate drv (cl_time cl) (ps_config p) op ((ps_service p)\<lparr>sv_repo := cl_db cl\<rparr>) = Some s"
      "cl' = set_process v (p\<lparr>ps_service := s\<rparr>) (cl\<lparr>cl_db := sv_repo s\<rparr>)"
      by (auto simp: operate_worker_def split: option.splits if_splits)
    have "checkpoint c (sv_repo s) = checkpoint c (cl_db cl) \<and> (\<forall>q \<in> set (main_partitions c). pg_leases (sv_repo s) q = pg_leases (cl_db cl) q)"
    proof (cases "op_observations op")
      case None
      from operate_control [OF p(2) None] have "kept_core (cl_db cl) (sv_repo s)" by (simp add: control_step_def)
      from core [OF this] show ?thesis .
    next
      case (Some os)
      with assms(2) Operate have live: "worker_live cl v" "\<forall>obs \<in> set os. slash_free (obs_Series obs)" by simp_all
      have same: "pg_leases (sv_repo s) = pg_leases (cl_db cl)" using operate_leases [OF p(2)] by simp
      then have "holds_all w c (sv_repo s)" using assms(6) by (simp add: holds_all_def owns_lease_def)
      from ingest_step(3) [OF assms(1) p(1) live(1) p(2) Some live(2) _ this] id [OF p(1)]
      have "checkpoint c (sv_repo s) = checkpoint c (cl_db cl)" by blast
      with same show ?thesis by simp
    qed
    with p(3) id [OF p(1)] assms(5) show ?thesis by simp
  next
    case (Publish v drv wording n)
    with assms(4) obtain p s world where p: "cl_procs cl v = Some p"
      "drain (pg_repository drv (cl_time cl)) (multi_publish (main_publishers js wording (ps_stream p))) n ((ps_service p)\<lparr>sv_repo := cl_db cl\<rparr>, cl_broker cl) = Some (s, world)"
      "cl' = set_process v (p\<lparr>ps_service := s\<rparr>) (cl\<lparr>cl_db := sv_repo s, cl_broker := world\<rparr>)"
      by (auto simp: publish_worker_def split: option.splits if_splits)
    from drain_control [OF p(2)] have "kept_core (cl_db cl) (sv_repo s)" by (simp add: control_step_def)
    from core [OF this] p(3) id [OF p(1)] assms(5) show ?thesis by simp
  next
    case (Renew v drv)
    with assms(4) obtain p where p: "cl_procs cl v = Some p" "cl' = renew_worker v p drv cl" by (auto split: option.splits if_splits)
    obtain err db' where r: "renew_tick (pg_repository drv (cl_time cl)) (ps_config p) (cl_db cl) = (err, db')" by fastforce
    obtain res where "pg_RenewPartitions drv (cl_time cl) v (main_partitions (ps_config p)) (cfg_PartitionLeaseTTL (ps_config p)) (cl_db cl) = (res, db')"
      using r id [OF p(1)] by (auto simp: renew_tick_def pg_repository_def split: sum.splits prod.splits bool.splits)
    note e = renew_effect(1,2) [OF this]
    have "cl_db cl' = db'" "cl_procs cl' w = None" "cl_time cl' = cl_time cl"
      using p(2) r id [OF p(1)] assms(5) by (simp_all add: renew_worker_def split: option.splits)
    with e(2) [of w] rows id [OF p(1)] checkpoint_frame [of db' "cl_db cl"] e(1) show ?thesis by (metis order_refl)
  next
    case (Stop v drv cause)
    with assms(4) obtain p where p: "cl_procs cl v = Some p" "cl' = stop_worker v p drv cause cl" by (auto split: option.splits if_splits)
    let ?db = "run_release (pg_repository drv (cl_time cl)) (ps_config p) (cl_db cl)"
    note r = release_effect(1,2) [where drv = drv and t = "cl_time cl" and c = "ps_config p" and db = "cl_db cl"]
    have "cl_db cl' = ?db" "cl_procs cl' w = None" "cl_time cl' = cl_time cl"
      using p(2) id [OF p(1)] assms(5) by (simp_all add: stop_worker_def)
    with r(2) [of w] rows id [OF p(1)] checkpoint_frame [of ?db "cl_db cl"] r(1) show ?thesis by (metis order_refl)
  qed (use assms in \<open>auto split: if_splits\<close>)
qed

lemma held_run:
  "cluster_run js timely cl evs cl' \<Longrightarrow> cluster_inv cl \<Longrightarrow> cl_procs cl w = None \<Longrightarrow> holds_all w c (cl_db cl) \<Longrightarrow>
     \<forall>ev \<in> set evs. \<not> is_Start ev \<Longrightarrow>
     cluster_inv cl' \<and> cl_procs cl' w = None \<and> cl_time cl \<le> cl_time cl' \<and> checkpoint c (cl_db cl') = checkpoint c (cl_db cl) \<and>
     (\<forall>q \<in> set (main_partitions c). pg_leases (cl_db cl') q = pg_leases (cl_db cl) q)"
proof (induction rule: cluster_run.induct)
  case (run_step cl evs cl1 ev cl2)
  then have ih: "cluster_inv cl1" "cl_procs cl1 w = None" "cl_time cl \<le> cl_time cl1" "checkpoint c (cl_db cl1) = checkpoint c (cl_db cl)"
    "\<forall>q \<in> set (main_partitions c). pg_leases (cl_db cl1) q = pg_leases (cl_db cl) q" by simp_all
  from ih(5) run_step.prems(3) have "holds_all w c (cl_db cl1)" by (simp add: holds_all_def owns_lease_def)
  with held_step [OF ih(1) run_step.hyps(2) _ run_step.hyps(3) ih(2), of c] run_step.prems(4)
  have "cl_procs cl2 w = None" "cl_time cl1 \<le> cl_time cl2" "checkpoint c (cl_db cl2) = checkpoint c (cl_db cl1)"
    "\<forall>q \<in> set (main_partitions c). pg_leases (cl_db cl2) q = pg_leases (cl_db cl1) q" by simp_all
  with ih step_inv [OF ih(1) run_step.hyps(2,3)] show ?case by simp
qed simp

lemma exit_inv: "cluster_inv cl \<Longrightarrow> cluster_inv (cl\<lparr>cl_procs := (cl_procs cl)(w := None)\<rparr>)"
  by (simp add: cluster_inv_def cluster_leases_def)

lemma started_process:
  assumes "cluster_step js (Start getenv host pid drv) cl = Some cl'" and "Load getenv host pid = Inr c"
    and "cl_procs cl' (cfg_InstanceID c) = Some p"
  shows "ps_config p = c \<and> ps_ended p = None \<and> ps_renewed p = cl_time cl' \<and> runtime_part (cl_db cl') = runtime_part (cl_db cl)"
proof -
  obtain res db w where start: "run_start (pg_repository drv (cl_time cl)) js (cl_time cl) c (cl_db cl) (cl_broker cl) = (res, db, w)"
    using prod_cases3 by blast
  have "cl' = start_worker js c drv cl" "cl_procs cl (cfg_InstanceID c) = None" using assms(1,2) by (auto split: if_splits)
  with start run_start_leases(1) [OF start] assms(3) show ?thesis
    by (auto simp: start_worker_def new_process_def split: sum.splits)
qed

lemma started_in_step:
  assumes "cluster_inv cl" and "cluster_step js (Start getenv host pid drv) cl = Some cl'" and "Load getenv host pid = Inr c"
    and "cl_procs cl' (cfg_InstanceID c) = Some p"
  shows "in_step c (sv_runtime (ps_service p)) (cl_db cl') \<and> same_shape (worker_engine c) (sv_runtime (ps_service p))"
proof -
  have inv: "cluster_inv cl'" by (rule step_inv [OF assms(1) _ assms(2)]) simp
  note s = started_process [OF assms(2-4)]
  have "lasting (cl_time cl') p" using s Load_valid [OF assms(3)] by (simp add: lasting_def valid_config_def)
  with cluster_invD [OF inv assms(4)] have "leased (cfg_InstanceID c) p (cl_db cl')" by (simp add: lease_inv_def)
  from leased_holds [OF this] cluster_invD [OF inv assms(4)] s show ?thesis by (simp add: worker_inv_def)
qed


text \<open>
  C6. And it can start: when the lease time of the lost worker is over, the database grants all its partitions to a worker
  with its place in the cluster, whatever the workers that are left have done in between.
\<close>

theorem takeover_possible:
  assumes "cluster_run js timely cl0 evs cl" and "cluster_start cl0"
    and "cl_procs cl w = Some p" and "holds_all w (ps_config p) (cl_db cl)"
    and "cluster_run js timely (cl\<lparr>cl_procs := (cl_procs cl)(w := None)\<rparr>) evs' cl1" and "\<forall>ev \<in> set evs'. \<not> is_Start ev"
    and "cl_time cl + cfg_PartitionLeaseTTL (ps_config p) \<le> cl_time cl1"
    and "valid_config c" and "cfg_WorkerIndex c = cfg_WorkerIndex (ps_config p)" and "cfg_WorkerCount c = cfg_WorkerCount (ps_config p)"
    and "no_faults drv"
  shows "fst (pg_AcquirePartitions drv (cl_time cl1) (cfg_InstanceID c) (main_partitions c) (cfg_PartitionLeaseTTL c) (cl_db cl1)) = Inr True"
proof -
  let ?cl = "cl\<lparr>cl_procs := (cl_procs cl)(w := None)\<rparr>" and ?ps = "main_partitions c"
  have inv: "cluster_inv cl" by (rule run_inv [OF assms(1,2)])
  have parts: "main_partitions (ps_config p) = ?ps" using assms(9,10) by (simp add: main_partitions_def)
  have same: "\<forall>q \<in> set ?ps. pg_leases (cl_db cl1) q = pg_leases (cl_db cl) q"
    using held_run [OF assms(5) exit_inv [OF inv] _ _ assms(6), of w c] assms(4) parts by (simp add: holds_all_def)
  have "available (cl_time cl1) (cfg_InstanceID c) (cl_db cl1) q" if q: "q \<in> set ?ps" for q
  proof -
    from assms(4) parts q obtain r where r: "pg_leases (cl_db cl) q = Some r" "pl_owner_id r = w"
      by (auto simp: holds_all_def owns_lease_iff)
    moreover have "lease_inv (cl_time cl) w p (cl_db cl)" using inv assms(3) by (simp add: cluster_inv_def cluster_leases_def)
    ultimately have "pl_expires_at r \<le> cl_time cl + cfg_PartitionLeaseTTL (ps_config p)"
      using q parts by (simp add: lease_inv_def)
    with r q same assms(7) show ?thesis by (simp add: available_def)
  qed
  then have "filter (available (cl_time cl1) (cfg_InstanceID c) (cl_db cl1)) ?ps = ?ps" by (simp add: filter_id_conv)
  moreover have "\<not> list_ex (\<lambda>p. p < 0 \<or> p \<ge> 256) ?ps" by (auto simp: list_ex_iff main_partitions_def)
  ultimately show ?thesis
    using worker_partitions [OF assms(8)] assms(11)
    by (simp add: pg_AcquirePartitions_def main_partitions_small acquire_ids_def exec_def no_faults_def settle_def Let_def)
qed

text \<open>A run for the two: the first of two workers starts, disappears, and is replaced when its lease is over.\<close>

lemma takeover_run:
  fixes js :: "(unit, unit) js_client"
  shows "\<exists>c c' p p' cl cl1 cl2.
     Load (cluster_env ''0'') ''a'' 1 = Inr c \<and> Load (cluster_env ''0'') ''b'' 1 = Inr c' \<and>
     cfg_WorkerIndex c' = cfg_WorkerIndex c \<and> cfg_WorkerCount c' = cfg_WorkerCount c \<and>
     cluster_run js timely sample_cluster [Start (cluster_env ''0'') ''a'' 1 plain_driver] cl \<and>
     cl_procs cl (cfg_InstanceID c) = Some p \<and> ps_config p = c \<and> holds_all (cfg_InstanceID c) c (cl_db cl) \<and>
     cluster_run js timely (cl\<lparr>cl_procs := (cl_procs cl)(cfg_InstanceID c := None)\<rparr>) [Pass (16 * second)] cl1 \<and>
     cl_time cl + cfg_PartitionLeaseTTL c \<le> cl_time cl1 \<and>
     cluster_step js (Start (cluster_env ''0'') ''b'' 1 plain_driver) cl1 = Some cl2 \<and> cl_procs cl2 (cfg_InstanceID c') = Some p'"
proof -
  obtain c where c: "Load (cluster_env ''0'') ''a'' 1 = Inr c" "cfg_NATSURL c = ''''" "cfg_Insecure c" "cfg_Addr c = '':8100''"
    "cfg_DatabaseURL c = ''postgres''" "cfg_PartitionLeaseTTL c = 15 * second" "cfg_WorkerCount c = 2" "cfg_WorkerIndex c = 0"
    "cfg_InstanceID c = instanceID ''a'' 1 ''alertsd''"
    using cluster_loads [of "''0''" "''a''" 1] by auto
  obtain c' where c': "Load (cluster_env ''0'') ''b'' 1 = Inr c'" "cfg_NATSURL c' = ''''" "cfg_Insecure c'" "cfg_Addr c' = '':8100''"
    "cfg_DatabaseURL c' = ''postgres''" "cfg_PartitionLeaseTTL c' = 15 * second" "cfg_WorkerCount c' = 2" "cfg_WorkerIndex c' = 0"
    "cfg_InstanceID c' = instanceID ''b'' 1 ''alertsd''"
    using cluster_loads [of "''0''" "''b''" 1] by auto
  have other: "cfg_InstanceID c' \<noteq> cfg_InstanceID c" by (simp add: c c' instanceID_def)
  have parts: "main_partitions c' = main_partitions c" by (simp add: main_partitions_def c c')
  obtain s db where 1: "cluster_step js (Start (cluster_env ''0'') ''a'' 1 plain_driver) sample_cluster =
      Some (set_process (cfg_InstanceID c) (new_process 7 c None s) (sample_cluster\<lparr>cl_db := db\<rparr>))"
    and db: "pg_definitions db = []" "\<forall>q. pg_leases db q = (if q \<in> set (main_partitions c)
      then Some \<lparr>pl_owner_id = cfg_InstanceID c, pl_expires_at = 7 + 15 * second\<rparr> else None)"
    using cluster_starts [OF c(1-5), where js = js and cl = sample_cluster] c(6)
    by (auto simp: sample_cluster_def empty_pg_def available_def)
  let ?cl = "set_process (cfg_InstanceID c) (new_process 7 c None s) (sample_cluster\<lparr>cl_db := db\<rparr>)"
  let ?gone = "?cl\<lparr>cl_procs := (cl_procs ?cl)(cfg_InstanceID c := None)\<rparr>"
  let ?cl1 = "?gone\<lparr>cl_time := cl_time ?gone + 16 * second\<rparr>"
  have pass: "cluster_step js (Pass (16 * second)) ?gone = Some ?cl1" by simp
  obtain s' db' where 2: "cluster_step js (Start (cluster_env ''0'') ''b'' 1 plain_driver) ?cl1 =
      Some (set_process (cfg_InstanceID c') (new_process (cl_time ?cl1) c' None s') (?cl1\<lparr>cl_db := db'\<rparr>))"
    using cluster_starts [OF c'(1-5), where js = js and cl = ?cl1] db parts
    by (auto simp: sample_cluster_def available_def)
  let ?cl2 = "set_process (cfg_InstanceID c') (new_process (cl_time ?cl1) c' None s') (?cl1\<lparr>cl_db := db'\<rparr>)"
  show ?thesis
  proof (rule exI [of _ c], rule exI [of _ c'], rule exI [of _ "new_process 7 c None s"],
      rule exI [of _ "new_process (cl_time ?cl1) c' None s'"], rule exI [of _ ?cl], rule exI [of _ ?cl1], rule exI [of _ ?cl2], intro conjI)
    show "cluster_run js timely sample_cluster [Start (cluster_env ''0'') ''a'' 1 plain_driver] ?cl" by (rule cluster_run_one [OF _ 1]) simp
    show "cluster_run js timely ?gone [Pass (16 * second)] ?cl1" by (rule cluster_run_one [OF _ pass]) simp
    show "holds_all (cfg_InstanceID c) c (cl_db ?cl)" using db(2) by (simp add: holds_all_def owns_lease_def)
    show "cl_time ?cl + cfg_PartitionLeaseTTL c \<le> cl_time ?cl1" by (simp add: c sample_cluster_def)
    show "cluster_step js (Start (cluster_env ''0'') ''b'' 1 plain_driver) ?cl1 = Some ?cl2" by (rule 2)
    show "Load (cluster_env ''0'') ''a'' 1 = Inr c" "Load (cluster_env ''0'') ''b'' 1 = Inr c'" by (rule c c')+
    show "cfg_WorkerIndex c' = cfg_WorkerIndex c" "cfg_WorkerCount c' = cfg_WorkerCount c" by (simp_all only: c c')
    show "ps_config (new_process 7 c None s) = c" by (simp add: new_process_def)
  qed simp_all
qed


theorem takeover_possible_witness:
  "\<forall>js :: (unit, unit) js_client. \<exists>cl cl1 w c.
     cluster_run js timely sample_cluster [Start (cluster_env ''0'') ''a'' 1 plain_driver] cl \<and> cl_procs cl w \<noteq> None \<and>
     cluster_run js timely (cl\<lparr>cl_procs := (cl_procs cl)(w := None)\<rparr>) [Pass (16 * second)] cl1 \<and>
     fst (pg_AcquirePartitions plain_driver (cl_time cl1) (cfg_InstanceID c) (main_partitions c) (cfg_PartitionLeaseTTL c) (cl_db cl1)) = Inr True"
proof
  fix js :: "(unit, unit) js_client"
  obtain c c' p cl cl1 where r: "Load (cluster_env ''0'') ''b'' 1 = Inr c'"
    "cfg_WorkerIndex c' = cfg_WorkerIndex c" "cfg_WorkerCount c' = cfg_WorkerCount c" "ps_config p = c"
    "cluster_run js timely sample_cluster [Start (cluster_env ''0'') ''a'' 1 plain_driver] cl"
    "cl_procs cl (cfg_InstanceID c) = Some p" "holds_all (cfg_InstanceID c) c (cl_db cl)"
    "cluster_run js timely (cl\<lparr>cl_procs := (cl_procs cl)(cfg_InstanceID c := None)\<rparr>) [Pass (16 * second)] cl1"
    "cl_time cl + cfg_PartitionLeaseTTL c \<le> cl_time cl1"
    using takeover_run [of js] by blast
  have "fst (pg_AcquirePartitions plain_driver (cl_time cl1) (cfg_InstanceID c') (main_partitions c') (cfg_PartitionLeaseTTL c') (cl_db cl1)) = Inr True"
    by (rule takeover_possible [OF r(5) sample_cluster_start r(6) _ r(8) _ _ Load_valid [OF r(1)] _ _ plain_no_faults]) (use r in simp_all)
  with r(5,6,8) show "\<exists>cl cl1 w c.
     cluster_run js timely sample_cluster [Start (cluster_env ''0'') ''a'' 1 plain_driver] cl \<and> cl_procs cl w \<noteq> None \<and>
     cluster_run js timely (cl\<lparr>cl_procs := (cl_procs cl)(w := None)\<rparr>) [Pass (16 * second)] cl1 \<and>
     fst (pg_AcquirePartitions plain_driver (cl_time cl1) (cfg_InstanceID c) (main_partitions c) (cfg_PartitionLeaseTTL c) (cl_db cl1)) = Inr True"
    by blast
qed

section \<open>Commits without a fence\<close>

text \<open>A statement, or a transaction, that does not look at the leases.\<close>

definition relet :: "(int \<rightharpoonup> pg_lease_row) \<Rightarrow> pg \<Rightarrow> pg" where
  "relet L s = s\<lparr>pg_leases := L\<rparr>"

definition lease_blind :: "(pg \<Rightarrow> 'a outcome) \<Rightarrow> bool" where
  "lease_blind f \<longleftrightarrow> (\<forall>L s. f (relet L s) = map_sum id (apsnd (relet L)) (f s))"

lemma relet_simps [simp]:
  "pg_definitions (relet L s) = pg_definitions s" "pg_inbox (relet L s) = pg_inbox s" "pg_events (relet L s) = pg_events s"
  "pg_outbox (relet L s) = pg_outbox s" "pg_event_seq (relet L s) = pg_event_seq s" "pg_outbox_seq (relet L s) = pg_outbox_seq s"
  "pg_series (relet L s) = pg_series s" "pg_definition_states (relet L s) = pg_definition_states s"
  by (simp_all add: relet_def)

lemma blind_Inr [intro]: "lease_blind (\<lambda>s. Inr (x, s))"
  by (simp add: lease_blind_def)

lemma blind_fail [intro]: "lease_blind (\<lambda>s. pg_fail e)"
  by (simp add: lease_blind_def pg_fail_def)

lemma blind_exec [intro]: "lease_blind f \<Longrightarrow> lease_blind (\<lambda>s. exec drv st (f s))"
  by (simp add: lease_blind_def exec_def pg_fail_def split: option.splits)

lemma blind_then: "lease_blind f \<Longrightarrow> (\<And>x. lease_blind (k x)) \<Longrightarrow> lease_blind (\<lambda>s. pg_then (f s) k)"
  by (auto simp: lease_blind_def pg_then_def split: sum.splits prod.splits)

lemma blind_if: "lease_blind f \<Longrightarrow> lease_blind g \<Longrightarrow> lease_blind (\<lambda>s. if b then f s else g s)"
  by (simp add: lease_blind_def)

lemma blind_settle: "lease_blind f \<Longrightarrow> settle (relet L s) (f (relet L s)) = apsnd (relet L) (settle s (f s))"
  by (auto simp: lease_blind_def settle_def split: sum.splits prod.splits)

lemma insert_inbox_relet: "insert_inbox now (relet L s) obs = relet L (insert_inbox now s obs)"
  by (simp add: insert_inbox_def relet_def)

lemma insert_inboxes_relet: "foldl (insert_inbox now) (relet L s) os = relet L (foldl (insert_inbox now) s os)"
  by (induction os arbitrary: s) (simp_all add: insert_inbox_relet)

lemma blind_insert_event: "lease_blind (insert_event a)"
  unfolding lease_blind_def
  by (intro allI) (auto simp: insert_event_def pg_fail_def Let_def relet_def split: option.splits)

lemma blind_insert_events: "lease_blind (insert_events as)"
proof (induction as)
  case (Cons a as)
  then show ?case
    using blind_then [OF blind_insert_event blind_then [OF Cons.IH blind_Inr]] by (simp add: case_prod_beta')
qed (simp add: blind_Inr)

lemma blind_insert_outbox: "lease_blind (insert_outbox now a)"
  unfolding lease_blind_def
  by (intro allI) (auto simp: insert_outbox_def pg_fail_def Let_def relet_def)

lemma blind_insert_outboxes: "lease_blind (insert_outboxes now as)"
  by (induction as) (auto simp: blind_Inr intro: blind_then blind_insert_outbox)

lemma blind_if_on:
  "(\<And>L s. P (relet L s) = P s) \<Longrightarrow> lease_blind f \<Longrightarrow> lease_blind g \<Longrightarrow> lease_blind (\<lambda>s. if P s then f s else g s)"
  by (simp add: lease_blind_def)

lemma blind_update: "(\<And>L s. h (relet L s) = relet L (h s)) \<Longrightarrow> lease_blind (\<lambda>s. Inr (x, h s))"
  by (simp add: lease_blind_def)

lemma blind_commit: "lease_blind (commit_tx drv now b)"
proof -
  have "lease_blind (commit_inbox drv now b)"
    unfolding commit_inbox_def
    by (intro blind_if blind_exec blind_Inr blind_fail blind_update insert_inboxes_relet)
  moreover have "lease_blind (commit_series drv b)"
    unfolding commit_series_def by (intro blind_if blind_exec blind_Inr blind_fail blind_update) (simp add: relet_def)
  moreover have "lease_blind (commit_resets drv b)"
    unfolding commit_resets_def by (intro blind_if blind_exec blind_Inr blind_fail blind_update) (simp add: relet_def)
  moreover have "lease_blind (commit_definitions drv b)"
    unfolding commit_definitions_def
    by (intro blind_if blind_if_on blind_exec blind_Inr blind_fail blind_update) (simp_all add: relet_def)
  moreover have "lease_blind (commit_alerts drv now b)"
    unfolding commit_alerts_def Let_def
    by (intro blind_if blind_then blind_exec blind_Inr blind_fail blind_insert_events blind_insert_outboxes)
  ultimately show ?thesis
    unfolding commit_tx_def by (intro blind_then blind_exec blind_Inr)
qed

lemma commit_relet:
  "pg_CommitRuntimeBatch drv now b (relet L s) = apsnd (relet L) (pg_CommitRuntimeBatch drv now b s)"
  unfolding pg_CommitRuntimeBatch_def by (rule blind_settle [OF blind_commit])

lemma evaluate_relet:
  "EvaluateBatch (pg_CommitRuntimeBatch drv now) t pid os e (relet L s) =
     map_option (apsnd (apsnd (relet L))) (EvaluateBatch (pg_CommitRuntimeBatch drv now) t pid os e s)"
  by (auto simp: EvaluateBatch_def Let_def commit_relet split: option.splits prod.splits sum.splits)

text \<open>
  C28. Nothing checks that the worker still owns the partition when it commits: a batch of a worker runs and commits alike
  whatever the leases in the database are, also when another worker has taken its partitions over.
\<close>

theorem commit_not_fenced:
  "IngestBatch (pg_repository drv now) t elapsed pid os (s\<lparr>sv_repo := relet L (sv_repo s)\<rparr>) =
     map_option (\<lambda>(res, s'). (res, s'\<lparr>sv_repo := relet L (sv_repo s')\<rparr>))
       (IngestBatch (pg_repository drv now) t elapsed pid os s)"
  by (auto simp: IngestBatch_def Let_def pg_repository_def evaluate_relet split: option.splits prod.splits sum.splits)

end
