(* ===== verification/Definition_File.thy ===== *)
theory Definition_File
  imports Api Postgres
begin

text \<open>
  \<open>internal/definitionfile/definitionfile.go\<close>: portable manifests of definitions, their export and their import
  through the HTTP interface. The text of a rule (\<open>json.Marshal\<close>) is the parameter \<open>json\<close>, the parser of a manifest
  \<open>parse\<close>. An HTTP exchange is the parameter \<open>transport\<close>, which takes a request and gives the response or the
  text of its error; a request carries the value it encodes, so \<open>serve\<close> with \<open>call_decoders\<close> is one transport.
\<close>

section \<open>Manifests\<close>

definition Schema :: string where "Schema = ''alerts.definitions.v1''"

record portable =
  pt_Name :: string
  pt_Enabled :: "bool option"
  pt_Series :: series
  pt_Rule :: rule
  pt_EvaluationMode :: string
  pt_TriggerMode :: string
  pt_CooldownSeconds :: int

definition pt_enabled :: "portable \<Rightarrow> bool" where
  "pt_enabled d \<longleftrightarrow> pt_Enabled d \<noteq> Some False"

record manifest =
  mf_Schema :: string
  mf_Definitions :: "portable list"

definition portable_of :: "alert_definition \<Rightarrow> portable" where
  "portable_of d = \<lparr>pt_Name = dfn_Name d, pt_Enabled = Some (dfn_Enabled d), pt_Series = dfn_Series d, pt_Rule = dfn_Rule d,
     pt_EvaluationMode = dfn_EvaluationMode d, pt_TriggerMode = dfn_TriggerMode d, pt_CooldownSeconds = dfn_CooldownSeconds d\<rparr>"

definition definitionSortKey :: "(rule \<Rightarrow> string) \<Rightarrow> portable \<Rightarrow> string" where
  "definitionSortKey json d =
     ser_Dataset (pt_Series d) @ [CHR 0x00] @ ser_Symbol (pt_Series d) @ [CHR 0x00] @ ser_Timeframe (pt_Series d) @ [CHR 0x00] @
     pt_Name d @ [CHR 0x00] @ json (pt_Rule d)"

definition manifest_New :: "(rule \<Rightarrow> string) \<Rightarrow> alert_definition list \<Rightarrow> manifest" where
  "manifest_New json ds = \<lparr>mf_Schema = Schema, mf_Definitions = sort_key (definitionSortKey json) (map portable_of ds)\<rparr>"

datatype portable_error =
    FieldsRequired | CooldownNegative | EvaluationModeInvalid | TriggerModeInvalid | RuleInvalid rule_error | IntrabarRequired

datatype manifest_error = SchemaMismatch | Definition_Error int portable_error

definition definition_error :: "portable \<Rightarrow> portable_error option" where
  "definition_error d =
    (if pt_Name d = '''' \<or> ser_Symbol (pt_Series d) = '''' \<or> ser_Timeframe (pt_Series d) = '''' then Some FieldsRequired
     else if pt_CooldownSeconds d < 0 then Some CooldownNegative
     else if pt_EvaluationMode d \<noteq> '''' \<and> pt_EvaluationMode d \<noteq> ''confirmed_close'' \<and> pt_EvaluationMode d \<noteq> ''intrabar''
         \<and> pt_EvaluationMode d \<noteq> ''both'' then Some EvaluationModeInvalid
     else if pt_TriggerMode d \<noteq> '''' \<and> pt_TriggerMode d \<noteq> ''on_occurrence'' \<and> pt_TriggerMode d \<noteq> ''once_per_bar''
         \<and> pt_TriggerMode d \<noteq> ''every_match'' then Some TriggerModeInvalid
     else case Validate (pt_Rule d) of
       Some err \<Rightarrow> Some (RuleInvalid err)
     | None \<Rightarrow> if RequiresIntrabar (pt_Rule d) \<and> (pt_EvaluationMode d = '''' \<or> pt_EvaluationMode d = ''confirmed_close'')
              then Some IntrabarRequired else None)"

definition manifest_error_of :: "manifest \<Rightarrow> manifest_error option" where
  "manifest_error_of m =
    (if mf_Schema m \<noteq> Schema then Some SchemaMismatch
     else first_some (\<lambda>(i, d). map_option (Definition_Error (int i)) (definition_error d)) (List.enumerate 1 (mf_Definitions m)))"

definition manifest_Decode :: "('t \<Rightarrow> string + manifest) \<Rightarrow> 't \<Rightarrow> (string + manifest_error) + manifest" where
  "manifest_Decode parse text =
    (case parse text of
       Inl err \<Rightarrow> Inl (Inl (''decode definition manifest: '' @ err))
     | Inr m \<Rightarrow> (case manifest_error_of m of Some err \<Rightarrow> Inl (Inr err) | None \<Rightarrow> Inr m))"

text \<open>\<open>Encode\<close>: the manifest it writes; the encoder fails on a rule that cannot be marshalled.\<close>

definition manifest_Encode :: "manifest \<Rightarrow> (string + manifest_error) + manifest" where
  "manifest_Encode m =
    (case manifest_error_of m of
       Some err \<Rightarrow> Inl (Inr err)
     | None \<Rightarrow> if list_all (\<lambda>d. rule_marshals (pt_Rule d)) (mf_Definitions m) then Inr m
              else Inl (Inl ''encode definition manifest: json''))"

section \<open>The client\<close>

record client =
  cl_BaseURL :: string
  cl_Token :: string

datatype call = No_Call | Create_Call create_request | Enabled_Call bool

definition call_decoders :: "call decoders" where
  "call_decoders =
    \<lparr>dec_create = (\<lambda>b. case b of Create_Call r \<Rightarrow> Inr r | _ \<Rightarrow> Inl ''json''),
     dec_enabled = (\<lambda>b. case b of Enabled_Call e \<Rightarrow> Inr (Some e) | _ \<Rightarrow> Inl ''json''),
     dec_observation = (\<lambda>b. Inl ''json''), dec_event = (\<lambda>b. Inl ''json'')\<rparr>"

datatype client_error = InvalidURL string | EncodeFailed | RequestFailed string | HTTP_Status int body | ResponseDecode int

type_synonym 'w transport = "string \<Rightarrow> call request \<Rightarrow> 'w \<Rightarrow> (string + response) \<times> 'w"

text \<open>\<open>do\<close>: one call of the API. \<open>url_ok\<close> is the check of the base URL; \<open>read\<close> decodes the body of a success.\<close>

definition call_marshals :: "call \<Rightarrow> bool" where
  "call_marshals b = (case b of Create_Call r \<Rightarrow> rule_marshals (cr_Rule r) | _ \<Rightarrow> True)"

definition base_url :: "client \<Rightarrow> string" where
  "base_url c = rev (dropWhile (\<lambda>x. x = CHR ''/'') (rev (cl_BaseURL c)))"

definition client_request :: "client \<Rightarrow> string \<Rightarrow> string list \<Rightarrow> call \<Rightarrow> call request" where
  "client_request c method path input =
     \<lparr>rq_Method = method, rq_Path = path,
      rq_Authorization = (if cl_Token c \<noteq> '''' then ''Bearer '' @ cl_Token c else ''''),
      rq_After = '''', rq_Limit = '''', rq_Body = input\<rparr>"

definition client_do ::
  "(string \<Rightarrow> bool) \<Rightarrow> 'w transport \<Rightarrow> client \<Rightarrow> string \<Rightarrow> string list \<Rightarrow> call \<Rightarrow> (body \<Rightarrow> 'a option) \<Rightarrow> 'w
     \<Rightarrow> (client_error + int \<times> 'a) \<times> 'w" where
  "client_do url_ok transport c method path input output w =
    (if \<not> url_ok (base_url c) then (Inl (InvalidURL (cl_BaseURL c)), w)
     else if \<not> call_marshals input then (Inl EncodeFailed, w)
     else case transport (base_url c) (client_request c method path input) w of
       (Inl err, w1) \<Rightarrow> (Inl (RequestFailed err), w1)
     | (Inr (status, b), w1) \<Rightarrow>
         if status < 200 \<or> status \<ge> 300 then (Inl (HTTP_Status status b), w1)
         else (case output b of None \<Rightarrow> (Inl (ResponseDecode status), w1) | Some x \<Rightarrow> (Inr (status, x), w1)))"

definition read_definitions :: "body \<Rightarrow> alert_definition list option" where
  "read_definitions b = (case b of Definitions_Body ds \<Rightarrow> Some ds | _ \<Rightarrow> None)"

definition read_definition :: "body \<Rightarrow> alert_definition option" where
  "read_definition b = (case b of Definition_Body d \<Rightarrow> Some d | _ \<Rightarrow> None)"

definition Export ::
  "(string \<Rightarrow> bool) \<Rightarrow> 'w transport \<Rightarrow> (rule \<Rightarrow> string) \<Rightarrow> client \<Rightarrow> 'w \<Rightarrow> (client_error + manifest) \<times> 'w" where
  "Export url_ok transport json c w =
    (case client_do url_ok transport c ''GET'' [''v1'', ''definitions''] No_Call read_definitions w of
       (Inl err, w1) \<Rightarrow> (Inl err, w1)
     | (Inr (_, ds), w1) \<Rightarrow> (Inr (manifest_New json ds), w1))"

section \<open>Import\<close>

record import_result =
  ir_Created :: int
  ir_Existing :: int
  ir_StateUpdated :: int
  ir_NameMismatches :: "(string \<times> string) list"

datatype import_error = Manifest_Invalid manifest_error | Import_Failed int string client_error | State_Failed int string client_error

definition create_call :: "portable \<Rightarrow> call" where
  "create_call d = Create_Call \<lparr>cr_Name = pt_Name d, cr_Series = pt_Series d, cr_Rule = pt_Rule d,
     cr_EvaluationMode = pt_EvaluationMode d, cr_TriggerMode = pt_TriggerMode d, cr_CooldownSeconds = pt_CooldownSeconds d\<rparr>"

definition count_import :: "int \<Rightarrow> portable \<Rightarrow> alert_definition \<Rightarrow> import_result \<Rightarrow> import_result" where
  "count_import status d stored res =
    (let r1 = (if status = 201 then res\<lparr>ir_Created := ir_Created res + 1\<rparr> else res\<lparr>ir_Existing := ir_Existing res + 1\<rparr>)
     in if dfn_Name stored \<noteq> pt_Name d then r1\<lparr>ir_NameMismatches := ir_NameMismatches r1 @ [(pt_Name d, dfn_Name stored)]\<rparr> else r1)"

fun import_loop ::
  "(string \<Rightarrow> bool) \<Rightarrow> 'w transport \<Rightarrow> client \<Rightarrow> int \<Rightarrow> portable list \<Rightarrow> import_result \<Rightarrow> 'w
     \<Rightarrow> (import_result \<times> import_error option) \<times> 'w" where
  "import_loop url_ok transport c n [] res w = ((res, None), w)"
| "import_loop url_ok transport c n (d # ds) res w =
    (case client_do url_ok transport c ''POST'' [''v1'', ''definitions''] (create_call d) read_definition w of
       (Inl err, w1) \<Rightarrow> ((res, Some (Import_Failed n (pt_Name d) err)), w1)
     | (Inr (status, stored), w1) \<Rightarrow>
         let r1 = count_import status d stored res
         in if dfn_Enabled stored = pt_enabled d then import_loop url_ok transport c (n + 1) ds r1 w1
            else case client_do url_ok transport c ''PATCH'' [''v1'', ''definitions'', dfn_ID stored]
                        (Enabled_Call (pt_enabled d)) read_definition w1 of
                   (Inl err, w2) \<Rightarrow> ((r1, Some (State_Failed n (pt_Name d) err)), w2)
                 | (Inr _, w2) \<Rightarrow>
                     import_loop url_ok transport c (n + 1) ds (r1\<lparr>ir_StateUpdated := ir_StateUpdated r1 + 1\<rparr>) w2)"

definition Import ::
  "(string \<Rightarrow> bool) \<Rightarrow> 'w transport \<Rightarrow> client \<Rightarrow> manifest \<Rightarrow> 'w \<Rightarrow> (import_result \<times> import_error option) \<times> 'w" where
  "Import url_ok transport c m w =
    (let zero = \<lparr>ir_Created = 0, ir_Existing = 0, ir_StateUpdated = 0, ir_NameMismatches = []\<rparr>
     in case manifest_error_of m of
          Some err \<Rightarrow> ((zero, Some (Manifest_Invalid err)), w)
        | None \<Rightarrow> import_loop url_ok transport c 1 (mf_Definitions m) zero w)"

end
