(* ===== verification/Definition_File_Laws.thy ===== *)
theory Definition_File_Laws
  imports Definition_File
begin

text \<open>
  What manifests guarantee: the validator of manifests and the service agree on what a definition is, an export can
  always be imported, and importing a service's own export into it changes nothing.
\<close>

section \<open>One notion of a valid definition\<close>

text \<open>The creation request of a portable definition, with the service's defaults.\<close>

definition canonical_of :: "portable \<Rightarrow> canonical" where
  "canonical_of d = \<lparr>cn_Series = pt_Series d, cn_Rule = pt_Rule d,
     cn_EvaluationMode = default_mode ''confirmed_close'' (pt_EvaluationMode d),
     cn_TriggerMode = default_mode ''on_occurrence'' (pt_TriggerMode d), cn_Cooldown = pt_CooldownSeconds d\<rparr>"

text \<open>
  C36. The two validators agree: the check of a definition in a manifest passes exactly when the service accepts the
  request to create it, with the defaults the service fills in; so no valid manifest is refused half-way by
  the validation of the service and no definition the service accepts is unportable.
\<close>

theorem manifest_valid_iff_creatable:
  "definition_error d = None \<longleftrightarrow> create_error (pt_Name d) (canonical_of d) = None"
  by (auto simp: definition_error_def create_error_def canonical_of_def default_mode_def split: option.splits if_splits)

lemma manifest_error_None: "manifest_error_of m = None \<longleftrightarrow> mf_Schema m = Schema \<and> (\<forall>d \<in> set (mf_Definitions m). definition_error d = None)"
proof -
  have "(\<forall>(i, d) \<in> set (List.enumerate n ds). definition_error d = None) \<longleftrightarrow> (\<forall>d \<in> set ds. definition_error d = None)" for n ds
    by (induction ds arbitrary: n) auto
  from this [of 1 "mf_Definitions m"] show ?thesis
    by (auto simp: manifest_error_of_def first_some_None_iff split_beta)
qed

lemma portable_wf: "definition_wf d \<Longrightarrow> definition_error (portable_of d) = None"
  by (auto simp: definition_wf_def definition_error_def portable_of_def)

text \<open>
  What a service exports can be imported: over a service that clients have reached, the manifest built from its
  listed definitions is valid, whatever the definitions and whatever order the text of their rules gives.
\<close>

theorem export_is_valid:
  assumes "service_reachable publish s" and "service_ListDefinitions memory_repository now s = Inr ds"
  shows "manifest_error_of (manifest_New json ds) = None"
proof -
  have "memory_wf (sv_repo s)" using service_reachable_wf [OF assms(1)] by (simp add: service_wf_def)
  with assms(2) have "\<forall>d \<in> set ds. definition_wf d"
    by (auto simp: service_ListDefinitions_def memory_repository_def dest: memory_wf_List)
  then show ?thesis by (auto simp: manifest_error_None manifest_New_def portable_wf)
qed

theorem export_is_valid_witness:
  "\<exists>ds. service_ListDefinitions memory_repository 9 (snd (Create memory_repository (\<lambda>_. ''{}'') 3 ''red'' sample_request
       (NewWithOptions NewMemory sample_options))) = Inr ds \<and> manifest_error_of (manifest_New (\<lambda>_. '''') ds) = None"
proof -
  let ?s = "snd (Create memory_repository (\<lambda>_. ''{}'') 3 ''red'' sample_request (NewWithOptions NewMemory sample_options))"
  obtain ds where ds: "service_ListDefinitions memory_repository 9 ?s = Inr ds"
    by (simp add: service_ListDefinitions_def memory_repository_def)
  from export_is_valid [OF service_reachable.create [OF service_reachable.start] ds] ds show ?thesis by blast
qed
section \<open>Importing an export\<close>

text \<open>The service itself at the other end of the connection; a panic closes the connection.\<close>

definition local_transport ::
  "server_options \<Rightarrow> 'r repository \<Rightarrow> (canonical \<Rightarrow> string) \<Rightarrow> go_time \<Rightarrow> 'r service transport" where
  "local_transport opts ops canonical now base r s =
    (case serve opts ops canonical call_decoders now 0 [] r s of
       None \<Rightarrow> (Inl ''EOF'', s)
     | Some (resp, s') \<Rightarrow> (Inr resp, s'))"

definition admitted :: "server_options \<Rightarrow> client \<Rightarrow> bool" where
  "admitted opts c \<longleftrightarrow> svo_Insecure opts \<or> (cl_Token c = svo_APIToken opts \<and> cl_Token c \<noteq> '''')"

definition form_of :: "alert_definition \<Rightarrow> canonical" where
  "form_of d = \<lparr>cn_Series = dfn_Series d, cn_Rule = dfn_Rule d, cn_EvaluationMode = dfn_EvaluationMode d,
     cn_TriggerMode = dfn_TriggerMode d, cn_Cooldown = dfn_CooldownSeconds d\<rparr>"

text \<open>A store in which every definition is found under the hash of its own form and none is archived.\<close>

definition indexed :: "(canonical \<Rightarrow> string) \<Rightarrow> memory \<Rightarrow> bool" where
  "indexed canonical m \<longleftrightarrow> (\<forall>(i, d) \<in> set (m_definitions m).
     map_of (m_definitions m) i = Some d \<and> m_byHash m (''sha256:'' @ hex (sha256 (canonical (form_of d)))) = Some i \<and>
     \<not> is_archived m i \<and> rule_marshals (dfn_Rule d))"

lemma insort_key_map: "insort_key f (g x) (map g xs) = map g (insort_key (\<lambda>x. f (g x)) x xs)"
  by (induction xs) auto

lemma sort_key_map: "sort_key f (map g xs) = map g (sort_key (f \<circ> g) xs)"
  by (induction xs) (simp_all add: sort_key_def insort_key_map comp_def)

lemma admitted_control: "admitted opts c \<Longrightarrow> control opts (client_request c method path input) = None"
  by (auto simp: admitted_def control_def bearerOK_def client_request_def trim_prefix_def has_prefix_def)

lemma client_request_simps [simp]:
  "rq_Method (client_request c method path input) = method" "rq_Path (client_request c method path input) = path"
  "rq_Body (client_request c method path input) = input"
  by (simp_all add: client_request_def)

lemma recreate:
  assumes "(i, d) \<in> set (m_definitions (sv_repo s))" and "indexed canonical (sv_repo s)" and "service_wf s"
  shows "\<exists>s'. Create memory_repository canonical now (dfn_Name d) (form_of d) s = ((d, False, None), s') \<and>
           sv_repo s' = sv_repo s \<and> service_wf s'"
proof -
  let ?m = "sv_repo s" and ?n = "new_definition canonical now (sv_activationDelay s) (dfn_Name d) (form_of d)"
  have wf: "definition_wf d" using assms(1,3) by (auto simp: service_wf_def memory_wf_def)
  then have form: "form_of d = (form_of d)\<lparr>cn_EvaluationMode := default_mode ''confirmed_close'' (cn_EvaluationMode (form_of d)),
      cn_TriggerMode := default_mode ''on_occurrence'' (cn_TriggerMode (form_of d))\<rparr>"
    by (auto simp: form_of_def default_mode_def definition_wf_def)
  have ok: "create_error (dfn_Name d) (form_of d) = None" using wf by (auto simp: create_error_def form_of_def definition_wf_def)
  have "dfn_DefinitionHash ?n = ''sha256:'' @ hex (sha256 (canonical (form_of d)))" by (simp add: new_definition_def Let_def)
  with assms(1,2) have hit: "mem_CreateDefinition ?n ?m = ((d, False), ?m)"
    by (auto simp: mem_CreateDefinition_def indexed_def)
  from upsert_wf [of s d] assms(3) wf obtain s' where s': "upsert_runtime d s = (None, s')" "service_wf s'"
    by (metis prod.collapse service_wf_def)
  then have "sv_repo s' = ?m" by (auto simp: upsert_runtime_def split: prod.splits)
  with s' hit ok form [symmetric] show ?thesis
    by (simp add: Create_def repo_simps Let_def)
qed

lemma post_again:
  assumes "(i, d) \<in> set (m_definitions (sv_repo s))" and "indexed canonical (sv_repo s)" and "service_wf s"
    and "admitted opts c" and "url_ok (base_url c)"
  shows "\<exists>s'. client_do url_ok (local_transport opts memory_repository canonical now) c ''POST'' [''v1'', ''definitions'']
             (create_call (portable_of d)) read_definition s = (Inr (200, d), s') \<and> sv_repo s' = sv_repo s \<and> service_wf s'"
proof -
  obtain s' where s': "Create memory_repository canonical now (dfn_Name d) (form_of d) s = ((d, False, None), s')"
    "sv_repo s' = sv_repo s" "service_wf s'"
    using recreate [OF assms(1-3)] by blast
  have "rule_marshals (dfn_Rule d)" using assms(1,2) by (auto simp: indexed_def)
  then show ?thesis
    using s' assms(4,5) admitted_control [OF assms(4)]
    by (simp add: client_do_def call_marshals_def create_call_def portable_of_def local_transport_def serve_def mux_def
        path_routes_def guard_of_def handle_def createDefinition_def call_decoders_def form_of_def read_definition_def)
qed

text \<open>A transport over which every stored definition, posted again, is found as it is.\<close>

definition finds_again ::
  "(string \<Rightarrow> bool) \<Rightarrow> memory service transport \<Rightarrow> client \<Rightarrow> (memory service \<Rightarrow> bool) \<Rightarrow> bool" where
  "finds_again url_ok t c ok \<longleftrightarrow> (\<forall>s i d. ok s \<and> (i, d) \<in> set (m_definitions (sv_repo s)) \<longrightarrow>
     (\<exists>s'. client_do url_ok t c ''POST'' [''v1'', ''definitions''] (create_call (portable_of d)) read_definition s = (Inr (200, d), s') \<and>
       sv_repo s' = sv_repo s \<and> ok s'))"

lemma import_again:
  assumes "finds_again url_ok t c ok" and "\<forall>d \<in> set ds. \<exists>i. (i, d) \<in> set (m_definitions (sv_repo s))" and "ok s"
  shows "\<exists>s'. import_loop url_ok t c n (map portable_of ds) res s =
             ((res\<lparr>ir_Existing := ir_Existing res + int (length ds)\<rparr>, None), s') \<and> sv_repo s' = sv_repo s"
  using assms(2,3)
proof (induction ds arbitrary: n res s)
  case Nil
  then show ?case by simp
next
  case (Cons d ds)
  then obtain i where i: "(i, d) \<in> set (m_definitions (sv_repo s))" by auto
  obtain s1 where s1: "client_do url_ok t c ''POST'' [''v1'', ''definitions''] (create_call (portable_of d)) read_definition s =
      (Inr (200, d), s1)" "sv_repo s1 = sv_repo s" "ok s1"
    using assms(1) i Cons.prems(2) unfolding finds_again_def by blast
  have same: "dfn_Enabled d = pt_enabled (portable_of d)" "dfn_Name d = pt_Name (portable_of d)"
    by (simp_all add: pt_enabled_def portable_of_def)
  have "\<exists>s'. import_loop url_ok t c (n + 1) (map portable_of ds) (res\<lparr>ir_Existing := ir_Existing res + 1\<rparr>) s1 =
      (((res\<lparr>ir_Existing := ir_Existing res + 1\<rparr>)\<lparr>ir_Existing := ir_Existing (res\<lparr>ir_Existing := ir_Existing res + 1\<rparr>) + int (length ds)\<rparr>, None), s')
      \<and> sv_repo s' = sv_repo s1"
    by (rule Cons.IH) (use Cons.prems s1 in auto)
  with s1 same show ?case by (simp add: count_import_def Let_def add.assoc)
qed

text \<open>The manifest of a store, whatever transport exported it.\<close>

lemma store_manifest:
  assumes "service_wf s" and "m = manifest_New json (mem_ListDefinitions now (sv_repo s))"
  obtains ds where "mf_Definitions m = map portable_of ds" and "\<forall>d \<in> set ds. \<exists>i. (i, d) \<in> set (m_definitions (sv_repo s))"
    and "manifest_error_of m = None"
proof -
  let ?ds = "mem_ListDefinitions now (sv_repo s)"
  have stored: "\<exists>i. (i, d) \<in> set (m_definitions (sv_repo s))" if "d \<in> set ?ds" for d
    using that by (auto simp: mem_ListDefinitions_def)
  have sorted: "mf_Definitions m = map portable_of (sort_key (definitionSortKey json \<circ> portable_of) ?ds)"
    by (simp add: assms(2) manifest_New_def sort_key_map)
  from stored assms(1) have "\<forall>d \<in> set ?ds. definition_wf d" by (fastforce simp: service_wf_def memory_wf_def)
  then have "manifest_error_of m = None" by (auto simp: assms(2) manifest_error_None manifest_New_def portable_wf)
  with that [OF sorted] stored show thesis by simp
qed

lemma import_own_manifest:
  assumes "finds_again url_ok t c ok" and "ok s" and "service_wf s"
    and "m = manifest_New json (mem_ListDefinitions now (sv_repo s))"
  shows "\<exists>s2. Import url_ok t c m s =
           ((\<lparr>ir_Created = 0, ir_Existing = int (length (mf_Definitions m)), ir_StateUpdated = 0, ir_NameMismatches = []\<rparr>, None), s2) \<and>
         sv_repo s2 = sv_repo s"
proof -
  obtain ds where ds: "mf_Definitions m = map portable_of ds" "\<forall>d \<in> set ds. \<exists>i. (i, d) \<in> set (m_definitions (sv_repo s))"
    and valid: "manifest_error_of m = None"
    using store_manifest [OF assms(3,4)] by blast
  from import_again [where n = 1, OF assms(1) ds(2) assms(2),
      of "\<lparr>ir_Created = 0, ir_Existing = 0, ir_StateUpdated = 0, ir_NameMismatches = []\<rparr>"]
  show ?thesis by (simp add: Import_def valid ds(1))
qed

lemma list_definitions_served:
  assumes "admitted opts c"
  shows "local_transport opts memory_repository canonical now base (client_request c ''GET'' [''v1'', ''definitions''] No_Call) s =
    (Inr (200, Definitions_Body (mem_ListDefinitions now (sv_repo s))), s)"
  using admitted_control [OF assms]
  by (simp add: local_transport_def serve_def mux_def path_routes_def guard_of_def handle_def listDefinitions_def
      service_ListDefinitions_def repo_simps)

text \<open>
  Importing a service's own export changes nothing: over a store in which no definition is archived and each is found
  under the hash of its own form, an admitted client that exports the definitions and imports the manifest
  again finds every definition already there, updates no state and no name, and leaves the store as it is.
\<close>

theorem reimport_changes_nothing:
  assumes "indexed canonical (sv_repo s)" and "service_wf s" and "admitted opts c"
    and "Export url_ok (local_transport opts memory_repository canonical now) json c s = (Inr m, s1)"
  shows "\<exists>s2. Import url_ok (local_transport opts memory_repository canonical now) c m s1 =
           ((\<lparr>ir_Created = 0, ir_Existing = int (length (mf_Definitions m)), ir_StateUpdated = 0, ir_NameMismatches = []\<rparr>, None), s2) \<and>
         sv_repo s2 = sv_repo s"
proof -
  let ?t = "local_transport opts memory_repository canonical now"
  from assms(4) have url: "url_ok (base_url c)"
    by (auto simp: Export_def client_do_def split: if_splits)
  with assms(4) list_definitions_served [OF assms(3)]
  have m: "m = manifest_New json (mem_ListDefinitions now (sv_repo s))" "s1 = s"
    by (auto simp: Export_def client_do_def call_marshals_def read_definitions_def)
  have "finds_again url_ok ?t c (\<lambda>s. indexed canonical (sv_repo s) \<and> service_wf s)"
    unfolding finds_again_def
  proof (intro allI impI)
    fix s :: "memory service" and i d assume "(indexed canonical (sv_repo s) \<and> service_wf s) \<and> (i, d) \<in> set (m_definitions (sv_repo s))"
    then show "\<exists>s'. client_do url_ok ?t c ''POST'' [''v1'', ''definitions''] (create_call (portable_of d)) read_definition s =
        (Inr (200, d), s') \<and> sv_repo s' = sv_repo s \<and> indexed canonical (sv_repo s') \<and> service_wf s'"
      using post_again [of i d s canonical opts c url_ok, OF _ _ _ assms(3) url] by force
  qed
  from import_own_manifest [OF this _ assms(2) m(1)] assms(1,2) show ?thesis by (simp add: m(2))
qed

lemma rule_marshals_color: "rule_marshals (color_rule dir)"
  by (simp add: rule_marshals.simps color_rule_def f_zero_def f_finite_def)

definition stored_red :: alert_definition where
  "stored_red = new_definition (\<lambda>_. ''{}'') 3 (sv_activationDelay (NewWithOptions NewMemory sample_options)) ''red''
     (sample_request\<lparr>cn_EvaluationMode := ''confirmed_close'', cn_TriggerMode := ''on_occurrence''\<rparr>)"

lemma sample_store:
  obtains s :: "memory service" where "m_definitions (sv_repo s) = [(dfn_ID stored_red, stored_red)]" and "service_wf s"
    and "indexed (\<lambda>_. ''{}'') (sv_repo s)"
proof
  let ?c = "sample_request\<lparr>cn_EvaluationMode := ''confirmed_close'', cn_TriggerMode := ''on_occurrence''\<rparr>"
  let ?m = "NewMemory\<lparr>m_definitions := [(dfn_ID stored_red, stored_red)],
    m_byHash := [dfn_DefinitionHash stored_red \<mapsto> dfn_ID stored_red]\<rparr>"
  let ?s = "(NewWithOptions NewMemory sample_options)\<lparr>sv_repo := ?m\<rparr>"
  show "m_definitions (sv_repo ?s) = [(dfn_ID stored_red, stored_red)]" by simp
  have valid: "Validate (color_rule ''red'') = None" using red_rule_compiles by (simp add: Compile_Inr_iff)
  have "\<not> RequiresIntrabar (color_rule ''red'')" by (simp add: RequiresIntrabar.simps color_rule_def)
  then have "create_error ''red'' ?c = None" by (simp add: create_error_def sample_request_def btc_1m_def valid)
  then have wf: "definition_wf stored_red" unfolding stored_red_def by (rule create_error_wf)
  then show "service_wf ?s"
    using service_wf_new [of sample_options] by (simp add: service_wf_def memory_wf_def NewWithOptions_def NewMemory_def)
  show "indexed (\<lambda>_. ''{}'') (sv_repo ?s)"
    using rule_marshals_color [of "''red''"]
    by (simp add: indexed_def NewMemory_def is_archived_def get_or_def new_definition_def stored_red_def sample_request_def Let_def)
qed

theorem reimport_changes_nothing_witness:
  "\<exists>(s :: memory service) m s1 s2. m_definitions (sv_repo s) \<noteq> [] \<and>
     Export (\<lambda>_. True) (local_transport (sample_server\<lparr>svo_Insecure := True\<rparr>) memory_repository (\<lambda>_. ''{}'') 9) (\<lambda>_. '''')
       \<lparr>cl_BaseURL = '''', cl_Token = ''''\<rparr> s = (Inr m, s1) \<and>
     Import (\<lambda>_. True) (local_transport (sample_server\<lparr>svo_Insecure := True\<rparr>) memory_repository (\<lambda>_. ''{}'') 9)
       \<lparr>cl_BaseURL = '''', cl_Token = ''''\<rparr> m s1 =
       ((\<lparr>ir_Created = 0, ir_Existing = int (length (mf_Definitions m)), ir_StateUpdated = 0, ir_NameMismatches = []\<rparr>, None), s2) \<and>
     sv_repo s2 = sv_repo s"
proof -
  let ?opts = "sample_server\<lparr>svo_Insecure := True\<rparr>" and ?client = "\<lparr>cl_BaseURL = '''', cl_Token = ''''\<rparr>"
  obtain s :: "memory service" where s: "m_definitions (sv_repo s) = [(dfn_ID stored_red, stored_red)]" "service_wf s"
    "indexed (\<lambda>_. ''{}'') (sv_repo s)"
    by (rule sample_store)
  have adm: "admitted ?opts ?client" by (simp add: admitted_def)
  obtain m where e: "Export (\<lambda>_. True) (local_transport ?opts memory_repository (\<lambda>_. ''{}'') 9) (\<lambda>_. '''') ?client s = (Inr m, s)"
    using list_definitions_served [OF adm] by (simp add: Export_def client_do_def call_marshals_def read_definitions_def)
  have "m_definitions (sv_repo s) \<noteq> []" by (simp add: s(1))
  with reimport_changes_nothing [OF s(3,2) adm e] e show ?thesis by blast
qed

end
