(* ===== verification/Broker_Laws.thy ===== *)
theory Broker_Laws
  imports Broker
begin

text \<open>
  What the consumer guarantees whatever the broker does. The client of the broker is instantiated by a recorder:
  its world is the log of the calls made so far, with their outcome, and an arbitrary function of the log decides
  which calls fail. The sink is recorded in the same log.
\<close>

section \<open>The recorder\<close>

datatype 'd action =
    Published "'d outgoing"
  | Nakked "'d message" duration
  | Terminated "'d message"
  | Acked "'d message"
  | Ingested int "observation list"

type_synonym 'd log = "('d action \<times> bool) list"
type_synonym 'd faults = "'d action \<Rightarrow> 'd log \<Rightarrow> nats_error option"

definition logged :: "'d faults \<Rightarrow> 'd action \<Rightarrow> 'd log \<Rightarrow> nats_error option \<times> 'd log" where
  "logged fault a l = (fault a l, l @ [(a, fault a l = None)])"

definition recorder :: "'d faults \<Rightarrow> ('d, 'd log) js_client" where
  "recorder fault =
    \<lparr>js_StreamInfo = (\<lambda>name l. (Inl ErrStreamNotFound, l)), js_UpdateStream = (\<lambda>c l. (None, l)),
     js_AddStream = (\<lambda>c l. (None, l)), js_ConsumerInfo = (\<lambda>s c l. (Inl ErrConsumerNotFound, l)),
     js_UpdateConsumer = (\<lambda>s d c l. (None, l)), js_PullSubscribe = (\<lambda>sub l. (None, l)),
     js_Fetch = (\<lambda>sub n l. (([], Some ErrTimeout), l)),
     js_PublishMsg = (\<lambda>m. logged fault (Published m)), js_NakWithDelay = (\<lambda>m d. logged fault (Nakked m d)),
     js_Term = (\<lambda>m. logged fault (Terminated m)), js_AckSync = (\<lambda>m. logged fault (Acked m))\<rparr>"

definition recording_sink :: "(int \<Rightarrow> observation list \<Rightarrow> 'd log \<Rightarrow> string + alert list) \<Rightarrow> 'd log sink" where
  "recording_sink outcome p os l = (outcome p os l, l @ [(Ingested p os, \<not> isl (outcome p os l))])"

lemma recorder_simps [simp]:
  "js_PublishMsg (recorder fault) out = logged fault (Published out)"
  "js_NakWithDelay (recorder fault) m d = logged fault (Nakked m d)"
  "js_Term (recorder fault) m = logged fault (Terminated m)"
  "js_AckSync (recorder fault) m = logged fault (Acked m)"
  by (simp_all add: recorder_def)

section \<open>Delays\<close>

text \<open>The delay doubles from one second with every delivery and stays at five minutes.\<close>

lemma retryDelay_eq: "retryDelay n = min (5 * minute) (second * 2 ^ min 9 (unat n - 1))"
proof (cases "unat n \<le> 9")
  case True
  then have "unat n \<in> {0, 1, 2, 3, 4, 5, 6, 7, 8, 9}" by auto
  then have "word_of_nat (unat n) \<in> (word_of_nat :: nat \<Rightarrow> u64) ` {0, 1, 2, 3, 4, 5, 6, 7, 8, 9}" by blast
  then have "n \<in> {0, 1, 2, 3, 4, 5, 6, 7, 8, 9}" by simp
  then show ?thesis by (auto simp: retryDelay_def duration_mul_def Let_def wrap64_def)
next
  case False
  then have "n \<noteq> 0" by auto
  with False have m: "unat (n - 1) = unat n - 1" by (simp add: unat_sub_if' unat_eq_0)
  with False have "n - 1 > 9 \<or> n - 1 = 9" by (auto simp: word_less_nat_alt word_unat_eq_iff)
  with False \<open>n \<noteq> 0\<close> show ?thesis
    by (auto simp: retryDelay_def duration_mul_def Let_def wrap64_def min_def)
qed

lemma retryDelay_bounds: "second \<le> retryDelay n \<and> retryDelay n \<le> 5 * minute"
  proof -
  have "(1 :: int) \<le> 2 ^ min 9 (unat n - 1)" by simp
  then show ?thesis by (simp add: retryDelay_eq)
qed

section \<open>Justified calls\<close>

text \<open>The messages of a batch that are observations, in order.\<close>

fun readable :: "('d \<Rightarrow> string + event) \<Rightarrow> 'd message list \<Rightarrow> (observation \<times> 'd message) list" where
  "readable decode [] = []"
| "readable decode (m # ms) =
    (case read_message decode m of Inl _ \<Rightarrow> readable decode ms | Inr obs \<Rightarrow> (obs, m) # readable decode ms)"

text \<open>
  A call is justified by the log before it: a message is terminated only after its copy has reached the dead letter
  stream; the acknowledgement goes to the last observation of the batch after the sink has taken all of them; a
  message is only ever given back with a delay between one second and five minutes.
\<close>

definition justified :: "int \<Rightarrow> (observation \<times> 'd message) list \<Rightarrow> 'd log \<Rightarrow> 'd action \<Rightarrow> bool" where
  "justified p valid l a =
    (case a of
       Terminated m \<Rightarrow> \<exists>reason. (Published (dead_letter_message m reason), True) \<in> set l
     | Acked m \<Rightarrow> valid \<noteq> [] \<and> m = snd (last valid) \<and> (Ingested p (map fst valid), True) \<in> set l
     | Nakked m d \<Rightarrow> second \<le> d \<and> d \<le> 5 * minute
     | Ingested q os \<Rightarrow> q = p \<and> os = map fst valid
     | Published out \<Rightarrow> True)"

definition all_justified :: "int \<Rightarrow> (observation \<times> 'd message) list \<Rightarrow> 'd log \<Rightarrow> bool" where
  "all_justified p valid l \<longleftrightarrow> (\<forall>i < length l. justified p valid (take i l) (fst (l ! i)))"

lemma all_justified_snoc [simp]:
  "all_justified p valid (l @ [x]) \<longleftrightarrow> all_justified p valid l \<and> justified p valid l (fst x)"
  by (auto simp: all_justified_def nth_append less_Suc_eq)

lemma all_justified_snoc2 [simp]:
  "all_justified p valid (l @ [x, y]) \<longleftrightarrow>
     all_justified p valid l \<and> justified p valid l (fst x) \<and> justified p valid (l @ [x]) (fst y)"
  using all_justified_snoc [of p valid "l @ [x]" y] by simp

lemma all_justified_Nil [simp]: "all_justified p valid []"
  by (simp add: all_justified_def)

lemma deadLetter_log:
  assumes "deadLetter (recorder fault) m reason l = (err, l')" and "all_justified p valid l"
  shows "all_justified p valid l' \<and> set l \<subseteq> set l' \<and> (err = None \<longrightarrow> (Terminated m, True) \<in> set l')"
  using assms by (auto simp: deadLetter_def logged_def justified_def split: option.splits prod.splits)

lemma collect_log:
  assumes "collect (recorder fault) decode ms valid l = (res, l')" and "all_justified p v l"
  shows "all_justified p v l' \<and> set l \<subseteq> set l' \<and>
    (\<forall>got. res = Inr got \<longrightarrow> got = valid @ readable decode ms \<and>
       (\<forall>m \<in> set ms. isl (read_message decode m) \<longrightarrow> (Terminated m, True) \<in> set l'))"
  using assms
proof (induction ms arbitrary: valid l)
  case Nil
  then show ?case by auto
next
  case (Cons m ms)
  show ?case
  proof (cases "read_message decode m")
    case (Inl reason)
    obtain err l1 where d: "deadLetter (recorder fault) m reason l = (err, l1)" by fastforce
    from deadLetter_log [OF d Cons.prems(2)] have j: "all_justified p v l1" "set l \<subseteq> set l1"
      "err = None \<Longrightarrow> (Terminated m, True) \<in> set l1" by auto
    show ?thesis
    proof (cases err)
      case None
      with Cons.prems(1) Inl d have "collect (recorder fault) decode ms valid l1 = (res, l')" by simp
      from Cons.IH [OF this j(1)] j None Inl show ?thesis by auto
    next
      case (Some e)
      with Cons.prems(1) Inl d j show ?thesis by auto
    qed
  next
    case (Inr obs)
    with Cons.prems(1) have "collect (recorder fault) decode ms (valid @ [(obs, m)]) l = (res, l')" by simp
    from Cons.IH [OF this Cons.prems(2)] Inr show ?thesis by auto
  qed
qed

lemma retry_all_log:
  assumes "retry_all (recorder fault) mx err ms l = (res, l')" and "all_justified p valid l"
  shows "all_justified p valid l' \<and> set l \<subseteq> set l' \<and> res \<noteq> None"
  using assms
proof (induction ms arbitrary: l)
  case Nil
  then show ?case by auto
next
  case (Cons m ms)
  show ?case
  proof (cases "exhausted mx m")
    case True
    obtain e l1 where d: "deadLetter (recorder fault) m (RetriesExhausted err) l = (e, l1)" by fastforce
    from deadLetter_log [OF d Cons.prems(2)] Cons.IH [of l1] Cons.prems(1) d True show ?thesis
      by (cases e) auto
  next
    case False
    have j: "all_justified p valid (l @ [(Nakked m (retryDelay (delivery_of m)), ok)])" for ok
      using Cons.prems(2) retryDelay_bounds [of "delivery_of m"] by (simp add: justified_def)
    let ?a = "Nakked m (retryDelay (delivery_of m))"
    from Cons.prems(1) False j [of "fault ?a l = None"] Cons.IH [of "l @ [(?a, True)]"] show ?thesis
      by (cases "fault ?a l") (auto simp: logged_def)
  qed
qed

lemma readable_Inr: "m \<in> set ms \<Longrightarrow> read_message decode m = Inr obs \<Longrightarrow> (obs, m) \<in> set (readable decode ms)"
  by (induction ms) (auto split: sum.splits)

text \<open>
  C24. No message is lost in a batch, whichever calls to the broker fail: a message is terminated only after its copy
  has reached the dead letter stream; only the last observation is acknowledged, and only after the sink has taken all
  observations of the batch in order; a message given back comes again after one second to five minutes. When the
  batch reports no error, every message that can not be read was terminated and all others went through the sink.
\<close>

theorem consume_loses_nothing:
  assumes "consumeBatch (recorder fault) decode (recording_sink outcome) mx p ms [] = (err, l)"
  shows "all_justified p (readable decode ms) l \<and>
    (err = None \<longrightarrow> (\<forall>m \<in> set ms. case read_message decode m of
        Inl _ \<Rightarrow> (Terminated m, True) \<in> set l
      | Inr obs \<Rightarrow> \<exists>os. obs \<in> set os \<and> (Ingested p os, True) \<in> set l))"
proof -
  let ?v = "readable decode ms"
  obtain res l1 where c: "collect (recorder fault) decode ms [] [] = (res, l1)" by fastforce
  note J = collect_log [OF c all_justified_Nil, of p ?v]
  show ?thesis
  proof (cases res)
    case (Inl e)
    with assms c J show ?thesis by (auto simp: consumeBatch_def)
  next
    case (Inr got)
    with J have got: "got = ?v" and poison: "\<forall>m \<in> set ms. isl (read_message decode m) \<longrightarrow> (Terminated m, True) \<in> set l1"
      by auto
    have read: "obs \<in> set (map fst ?v)" if "m \<in> set ms" "read_message decode m = Inr obs" for m obs
      using readable_Inr [OF that] by force
    show ?thesis
    proof (cases "?v = []")
      case True
      with assms c Inr got have "l = l1" by (simp add: consumeBatch_def)
      with J poison read True show ?thesis by (auto split: sum.splits)
    next
      case False
      let ?l2 = "l1 @ [(Ingested p (map fst ?v), \<not> isl (outcome p (map fst ?v) l1))]"
      have J2: "all_justified p ?v ?l2" using J by (simp add: justified_def)
      show ?thesis
      proof (cases "outcome p (map fst ?v) l1")
        case (Inl e)
        with assms c Inr got False have "retry_all (recorder fault) mx e (map snd ?v) ?l2 = (err, l)"
          by (simp add: consumeBatch_def recording_sink_def)
        from retry_all_log [OF this J2] show ?thesis by auto
      next
        case (Inr alerts)
        let ?a = "Acked (snd (last ?v))"
        from assms c \<open>res = Inr got\<close> got False Inr have l: "l = ?l2 @ [(?a, fault ?a ?l2 = None)]"
          by (auto simp: consumeBatch_def recording_sink_def logged_def split: option.splits)
        have "justified p ?v ?l2 ?a" using False Inr by (simp add: justified_def)
        with J2 l have "all_justified p ?v l" by (metis all_justified_snoc fst_conv)
        moreover have "(Ingested p (map fst ?v), True) \<in> set l" using l Inr by simp
        moreover have "set l1 \<subseteq> set l" using l by auto
        moreover have "case read_message decode m of
            Inl _ \<Rightarrow> (Terminated m, True) \<in> set l
          | Inr obs \<Rightarrow> \<exists>os. obs \<in> set os \<and> (Ingested p os, True) \<in> set l" if "m \<in> set ms" for m
          using that
        proof (cases "read_message decode m")
          case (Inr obs)
          then show ?thesis using read [OF that Inr] \<open>(Ingested p (map fst ?v), True) \<in> set l\<close> by (simp only: sum.case) blast
        qed (use that poison \<open>set l1 \<subseteq> set l\<close> in auto)
        ultimately show ?thesis by blast
      qed
    qed
  qed
qed

text \<open>A message that carries a decoded event, or none.\<close>

definition decode_sample :: "event option \<Rightarrow> string + event" where
  "decode_sample d = (case d of None \<Rightarrow> Inl ''unexpected end of JSON input'' | Some e \<Rightarrow> Inr e)"

definition sample_message :: "u64 \<Rightarrow> event option \<Rightarrow> event option message" where
  "sample_message n d = \<lparr>msg_Subject = ''signals.evaluation.007'', msg_Data = d, msg_ID = ''m'', msg_Metadata = Some (n, 1)\<rparr>"

lemma read_sample:
  "read_message decode_sample (sample_message n None) = Inl (DecodeFailed ''unexpected end of JSON input'')"
  "\<exists>obs. read_message decode_sample (sample_message n (Some sample_event)) = Inr obs"
proof -
  show "read_message decode_sample (sample_message n None) = Inl (DecodeFailed ''unexpected end of JSON input'')"
    by (simp add: read_message_def decode_sample_def sample_message_def)
  have "atoi ''20'' = Some 20" by code_simp
  then show "\<exists>obs. read_message decode_sample (sample_message n (Some sample_event)) = Inr obs"
    by (simp add: read_message_def decode_sample_def sample_message_def Observation_def sample_event_def
        AnalysisEventType_def add_output_def has_prefix_def trim_prefix_def base_observation_def Let_def)
qed

theorem consume_loses_nothing_witness:
  "\<exists>l. (Terminated (sample_message 1 None), True) \<in> set l \<and>
     (\<exists>reason. (Published (dead_letter_message (sample_message 1 None) reason), True) \<in> set l) \<and>
     (\<exists>os. os \<noteq> [] \<and> (Ingested 7 os, True) \<in> set l)"
proof -
  let ?ms = "[sample_message 1 None, sample_message 2 (Some sample_event)]"
  let ?js = "recorder (\<lambda>a l. None) :: (event option, event option log) js_client"
  let ?sink = "recording_sink (\<lambda>p os l. Inr []) :: event option log sink"
  obtain err l where c: "consumeBatch ?js decode_sample ?sink 20 7 ?ms [] = (err, l)" by fastforce
  obtain obs where obs: "read_message decode_sample (sample_message 2 (Some sample_event)) = Inr obs"
    using read_sample by blast
  from c obs have "err = None"
    by (simp add: consumeBatch_def read_sample deadLetter_def logged_def recording_sink_def)
  with consume_loses_nothing [OF c] obs have poison: "(Terminated (sample_message 1 None), True) \<in> set l"
    and "\<exists>os. obs \<in> set os \<and> (Ingested 7 os, True) \<in> set l" and j: "all_justified 7 (readable decode_sample ?ms) l"
    by (auto simp: read_sample)
  moreover from poison obtain i where "i < length l" "l ! i = (Terminated (sample_message 1 None), True)"
    by (auto simp: in_set_conv_nth)
  with j have "\<exists>reason. (Published (dead_letter_message (sample_message 1 None) reason), True) \<in> set (take i l)"
    by (auto simp: all_justified_def justified_def)
  ultimately show ?thesis by (metis empty_iff in_set_takeD list.set(1))
qed

section \<open>Acknowledging everything before\<close>

text \<open>
  The consumers are created with the policy that an acknowledgement settles every message up to its stream sequence
  (\<open>AckAll\<close>, the only policy \<open>shardSubscription\<close> accepts). \<open>settled\<close> reads a log under this policy: a message is settled
  when it was terminated, or when it or a later one was acknowledged; the broker never delivers it again.
\<close>

definition sequence :: "'d message \<Rightarrow> u64" where
  "sequence m = (case msg_Metadata m of None \<Rightarrow> 0 | Some (n, _) \<Rightarrow> n)"

definition settled :: "'d log \<Rightarrow> 'd message \<Rightarrow> bool" where
  "settled l m \<longleftrightarrow> (Terminated m, True) \<in> set l \<or> (\<exists>m'. (Acked m', True) \<in> set l \<and> sequence m \<le> sequence m')"

lemma retry_all_naks:
  assumes "\<forall>m \<in> set ms. \<not> exhausted mx m" and "\<And>a l. fault a l = None"
  shows "retry_all (recorder fault) mx err ms l =
    (Some (RetryScheduled err), l @ map (\<lambda>m. (Nakked m (retryDelay (delivery_of m)), True)) ms)"
  using assms(1) by (induction ms arbitrary: l) (simp_all add: logged_def assms(2))

lemma collect_readable:
  assumes "\<forall>m \<in> set ms. \<not> isl (read_message decode m)"
  shows "collect js decode ms valid w = (Inr (valid @ readable decode ms), w) \<and> map snd (readable decode ms) = ms"
  using assms by (induction ms arbitrary: valid) (auto split: sum.splits)

text \<open>
  C29. A batch that failed can be lost for good: when the evaluation of a batch fails and its messages are given back
  for another delivery, and a later batch of the same shard is evaluated before they come again, the acknowledgement of
  the later batch settles them, although none of their observations was ever evaluated and no copy went to the dead
  letter stream.
\<close>

theorem later_ack_drops_failed_batch:
  assumes "\<And>a l. fault a l = None" and "\<forall>m \<in> set (failed @ later). \<not> isl (read_message decode m)"
    and "\<forall>m \<in> set failed. \<not> exhausted mx m \<and> sequence m \<le> sequence (last later)" and "failed \<noteq> []" and "later \<noteq> []"
    and "outcome p (map fst (readable decode failed)) [] = Inl err"
    and "outcome p (map fst (readable decode later)) l1 = Inr alerts"
    and "consumeBatch (recorder fault) decode (recording_sink outcome) mx p failed [] = (e1, l1)"
    and "consumeBatch (recorder fault) decode (recording_sink outcome) mx p later l1 = (e2, l2)"
  shows "(\<forall>m \<in> set failed. settled l2 m) \<and>
    l2 = [(Ingested p (map fst (readable decode failed)), False)] @
      map (\<lambda>m. (Nakked m (retryDelay (delivery_of m)), True)) failed @
      [(Ingested p (map fst (readable decode later)), True), (Acked (last later), True)]"
proof -
  from assms(2) have "\<forall>m \<in> set failed. \<not> isl (read_message decode m)" "\<forall>m \<in> set later. \<not> isl (read_message decode m)"
    by simp_all
  note c = this [THEN collect_readable]
  have r: "collect (recorder fault) decode failed [] w = (Inr (readable decode failed), w)" "map snd (readable decode failed) = failed"
    "collect (recorder fault) decode later [] w = (Inr (readable decode later), w)" "map snd (readable decode later) = later" for w
    using c(1) [of "recorder fault" "[]" w] c(2) [of "recorder fault" "[]" w] by simp_all
  have ne: "readable decode failed \<noteq> []" "readable decode later \<noteq> []" using r(2,4) assms(4,5) by auto
  have l1: "l1 = (Ingested p (map fst (readable decode failed)), False) # map (\<lambda>m. (Nakked m (retryDelay (delivery_of m)), True)) failed"
    using assms(3,6,8) r(1,2) ne(1) retry_all_naks [of failed mx fault, OF _ assms(1)]
    by (auto simp: consumeBatch_def recording_sink_def)
  have "snd (last (readable decode later)) = last later" using r(4) ne(2) by (metis last_map)
  then have l2: "l2 = l1 @ [(Ingested p (map fst (readable decode later)), True), (Acked (last later), True)]"
    using assms(7,9) r(3) ne(2) by (auto simp: consumeBatch_def recording_sink_def logged_def assms(1))
  then have "settled l2 m" if "m \<in> set failed" for m
    using that assms(3) unfolding settled_def by (intro disjI2 exI [of _ "last later"]) auto
  with l1 l2 show ?thesis by simp
qed

theorem later_ack_drops_failed_batch_witness:
  "\<exists>sink l1 l2. snd (consumeBatch (recorder (\<lambda>a l. None)) decode_sample sink 20 7 [sample_message 1 (Some sample_event)] []) = l1 \<and>
     snd (consumeBatch (recorder (\<lambda>a l. None)) decode_sample sink 20 7 [sample_message 2 (Some sample_event)] l1) = l2 \<and>
     settled l2 (sample_message 1 (Some sample_event))"
proof -
  let ?m = "\<lambda>n. sample_message n (Some sample_event)"
  let ?js = "recorder (\<lambda>a l. None) :: (event option, event option log) js_client"
  let ?out = "(\<lambda>p os l. if l = [] then Inl ''compiled definition cache is stale'' else Inr [])
    :: int \<Rightarrow> observation list \<Rightarrow> event option log \<Rightarrow> string + alert list"
  obtain e1 l1 where 1: "consumeBatch ?js decode_sample (recording_sink ?out) 20 7 [?m 1] [] = (e1, l1)" by fastforce
  obtain e2 l2 where 2: "consumeBatch ?js decode_sample (recording_sink ?out) 20 7 [?m 2] l1 = (e2, l2)" by fastforce
  obtain obs1 obs2 where obs: "read_message decode_sample (?m 1) = Inr obs1" "read_message decode_sample (?m 2) = Inr obs2"
    using read_sample by blast
  from 1 obs(1) have "l1 \<noteq> []"
    by (auto simp: consumeBatch_def recording_sink_def logged_def exhausted_def sample_message_def)
  have m: "\<not> exhausted 20 (?m 1)" "sequence (?m n) = n" for n by (simp_all add: exhausted_def sequence_def sample_message_def)
  from \<open>l1 \<noteq> []\<close> have out: "?out 7 os l1 = Inr []" for os by simp
  have "settled l2 (?m 1)"
    by (rule later_ack_drops_failed_batch [where failed = "[?m 1]" and later = "[?m 2]", OF _ _ _ _ _ _ out 1 2,
          THEN conjunct1, THEN bspec]) (simp_all add: obs m)
  then show ?thesis
    by (intro exI [of _ "recording_sink ?out"] exI [of _ l1] exI [of _ l2]) (simp only: 1 2 snd_conv simp_thms)
qed

end
