(* ===== verification/Commands.thy ===== *)
theory Commands
  imports Definition_File_Laws Broker_Laws Config
begin

text \<open>
  The client commands. \<open>cmd/alertdefs/main.go\<close>: export to and import from manifest files; \<open>flags\<close> is the parsing of
  the command line by package flag (the values of the flags over their defaults and the positional arguments),
  \<open>transport\<close> the HTTP client, and the file system is a map from paths to contents whose operations may fail.
  \<open>cmd/testclient/main.go\<close>: the registration of five test definitions and the loop that receives alerts. What the
  commands print is left out, except the numbers and warnings an import reports.
\<close>

section \<open>alertdefs\<close>

datatype dispatch = Run_Export "string list" | Run_Import "string list" | Help | Command_Expected | Unknown_Command string

definition alertdefs_run :: "string list \<Rightarrow> dispatch" where
  "alertdefs_run args =
    (case args of
       [] \<Rightarrow> Command_Expected
     | a # rest \<Rightarrow>
        if a = ''export'' then Run_Export rest
        else if a = ''import'' then Run_Import rest
        else if a = ''help'' \<or> a = ''-h'' \<or> a = ''--help'' then Help
        else Unknown_Command a)"

subsection \<open>Writing a manifest\<close>

datatype contents = Complete manifest | Partial | Other string

type_synonym files = "string \<rightharpoonup> contents"

datatype file_step = Step_Create | Step_Chmod | Step_Write | Step_Sync | Step_Close | Step_Rename

text \<open>The steps in the order in which \<open>writeManifest\<close> takes them.\<close>

primrec step_rank :: "file_step \<Rightarrow> nat" where
  "step_rank Step_Create = 0"
| "step_rank Step_Chmod = 1"
| "step_rank Step_Write = 2"
| "step_rank Step_Sync = 3"
| "step_rank Step_Close = 4"
| "step_rank Step_Rename = 5"

lemma step_rank_eq: "step_rank a = step_rank b \<longleftrightarrow> a = b"
  by (cases a; cases b) simp_all

instantiation file_step :: linorder
begin

definition less_eq_file_step :: "file_step \<Rightarrow> file_step \<Rightarrow> bool" where
  "less_eq_file_step a b \<longleftrightarrow> step_rank a \<le> step_rank b"

definition less_file_step :: "file_step \<Rightarrow> file_step \<Rightarrow> bool" where
  "less_file_step a b \<longleftrightarrow> step_rank a < step_rank b"

instance
  by standard (auto simp: less_eq_file_step_def less_file_step_def step_rank_eq)

end

text \<open>What the operating system decides: which steps fail, whether a removal succeeds, and the name of the temporary file.\<close>

record file_system =
  sys_fault :: "file_step \<Rightarrow> string option"
  sys_remove :: bool
  sys_temp :: string

datatype write_error = Write_Failed file_step string | Encode_Failed "string + manifest_error"

text \<open>The deferred function of \<open>writeManifest\<close>: the temporary file goes when the function returns an error.\<close>

definition abandon :: "file_system \<Rightarrow> files \<Rightarrow> files" where
  "abandon sys fs = (if sys_remove sys then fs(sys_temp sys := None) else fs)"

definition writeManifest :: "file_system \<Rightarrow> string \<Rightarrow> manifest \<Rightarrow> files \<Rightarrow> write_error option \<times> files" where
  "writeManifest sys path m fs =
    (let tmp = sys_temp sys;
         fail = (\<lambda>st e fs. (Some (Write_Failed st e), abandon sys fs))
     in case sys_fault sys Step_Create of
          Some e \<Rightarrow> (Some (Write_Failed Step_Create e), fs)
        | None \<Rightarrow> let f1 = fs(tmp \<mapsto> Partial) in
       (case sys_fault sys Step_Chmod of Some e \<Rightarrow> fail Step_Chmod e f1
        | None \<Rightarrow>
       (case manifest_Encode m of Inl e \<Rightarrow> (Some (Encode_Failed e), abandon sys f1)
        | Inr _ \<Rightarrow>
       (case sys_fault sys Step_Write of Some e \<Rightarrow> fail Step_Write e f1
        | None \<Rightarrow> let f2 = f1(tmp \<mapsto> Complete m) in
       (case sys_fault sys Step_Sync of Some e \<Rightarrow> fail Step_Sync e f2
        | None \<Rightarrow>
       (case sys_fault sys Step_Close of Some e \<Rightarrow> fail Step_Close e f2
        | None \<Rightarrow>
       (case sys_fault sys Step_Rename of Some e \<Rightarrow> fail Step_Rename e f2
        | None \<Rightarrow> (None, f2(path \<mapsto> Complete m, tmp := None)))))))))"

text \<open>The step reported is the first that fails: every step before it was taken.\<close>

lemma writeManifest_first_failure:
  assumes "writeManifest sys path m fs = (Some (Write_Failed st e), fs')"
  shows "sys_fault sys st = Some e \<and> (\<forall>st' < st. sys_fault sys st' = None)"
proof -
  have "sys_fault sys st' = None" if "step_rank st' < step_rank st" for st'
    using assms that by (cases st') (auto simp: writeManifest_def Let_def split: option.splits sum.splits)
  moreover have "sys_fault sys st = Some e"
    using assms by (auto simp: writeManifest_def Let_def split: option.splits sum.splits)
  ultimately show ?thesis by (simp add: less_file_step_def)
qed

text \<open>
  C40. An export never damages the file it replaces: whichever step of \<open>writeManifest\<close> fails, the path holds what it
  held before, and only on success the complete manifest; no other file changes, and the temporary file is gone on
  success, and after a failure as well when it can be removed.
\<close>

theorem export_replaces_atomically:
  assumes "writeManifest sys path m fs = (err, fs')" and "fs (sys_temp sys) = None" and "sys_temp sys \<noteq> path"
  shows "(\<forall>p. p \<noteq> sys_temp sys \<longrightarrow> fs' p = (if p = path \<and> err = None then Some (Complete m) else fs p)) \<and>
         (err = None \<or> sys_remove sys \<longrightarrow> fs' (sys_temp sys) = None)"
  using assms by (auto simp: writeManifest_def abandon_def Let_def split: option.splits sum.splits)

definition full_disk :: file_system where
  "full_disk = \<lparr>sys_fault = (\<lambda>st. if st = Step_Sync then Some ''no space'' else None), sys_remove = True, sys_temp = ''.m.tmp-1''\<rparr>"

theorem export_replaces_atomically_witness:
  "\<exists>err fs'. writeManifest full_disk ''m'' \<lparr>mf_Schema = Schema, mf_Definitions = []\<rparr> [''m'' \<mapsto> Other ''old''] = (Some err, fs') \<and>
     fs' ''m'' = Some (Other ''old'') \<and> fs' ''.m.tmp-1'' = None"
proof -
  let ?m = "\<lparr>mf_Schema = Schema, mf_Definitions = []\<rparr>"
  obtain err fs' where w: "writeManifest full_disk ''m'' ?m [''m'' \<mapsto> Other ''old''] = (Some err, fs')"
    by (simp add: writeManifest_def full_disk_def manifest_Encode_def manifest_error_of_def Let_def)
  from export_replaces_atomically [OF w] w show ?thesis by (auto simp: full_disk_def)
qed

subsection \<open>Export and import\<close>

type_synonym flag_parser = "(string \<times> string) list \<Rightarrow> string list \<Rightarrow> string + (string \<rightharpoonup> string) \<times> string list"

datatype command_error =
    Flag_Error string | Positional_Arguments | Client_Failed client_error | Output_Failed write_error
  | Stdout_Failed "string + manifest_error" | Open_Failed string | Manifest_Unreadable "string + manifest_error"
  | Import_Stopped import_error

definition flag_value :: "(string \<rightharpoonup> string) \<Rightarrow> string \<Rightarrow> string" where
  "flag_value values name = get_or '''' values name"

definition api_flags :: "(string \<Rightarrow> string) \<Rightarrow> (string \<times> string) list" where
  "api_flags getenv =
     [(''api-url'', env getenv ''ALERTS_API_URL'' ''http://127.0.0.1:8100''), (''api-token'', getenv ''ALERTS_API_TOKEN'')]"

definition flag_client :: "(string \<rightharpoonup> string) \<Rightarrow> client" where
  "flag_client values = \<lparr>cl_BaseURL = flag_value values ''api-url'', cl_Token = flag_value values ''api-token''\<rparr>"

text \<open>\<open>runExport\<close>: \<open>Inr\<close> is the manifest, printed when the output is \<open>-\<close> and written to its file otherwise.\<close>

definition runExport ::
  "flag_parser \<Rightarrow> (string \<Rightarrow> string) \<Rightarrow> (string \<Rightarrow> bool) \<Rightarrow> 'w transport \<Rightarrow> (rule \<Rightarrow> string) \<Rightarrow> file_system \<Rightarrow> string list
     \<Rightarrow> 'w \<times> files \<Rightarrow> (command_error + manifest) \<times> 'w \<times> files" where
  "runExport flags getenv url_ok transport json sys args st =
    (case flags (api_flags getenv @ [(''out'', ''-'')]) args of
       Inl e \<Rightarrow> (Inl (Flag_Error e), st)
     | Inr (values, positional) \<Rightarrow>
        if positional \<noteq> [] then (Inl Positional_Arguments, st)
        else case Export url_ok transport json (flag_client values) (fst st) of
          (Inl e, w1) \<Rightarrow> (Inl (Client_Failed e), w1, snd st)
        | (Inr m, w1) \<Rightarrow>
            if flag_value values ''out'' = ''-'' then
              (case manifest_Encode m of Inl e \<Rightarrow> (Inl (Stdout_Failed e), w1, snd st) | Inr m \<Rightarrow> (Inr m, w1, snd st))
            else (case writeManifest sys (flag_value values ''out'') m (snd st) of
                    (Some e, fs1) \<Rightarrow> (Inl (Output_Failed e), w1, fs1)
                  | (None, fs1) \<Rightarrow> (Inr m, w1, fs1)))"

text \<open>The manifest in a file; contents that are no manifest are for the parser to refuse.\<close>

definition readManifest :: "(contents \<Rightarrow> string + manifest) \<Rightarrow> contents \<Rightarrow> string \<Rightarrow> files \<Rightarrow> command_error + manifest" where
  "readManifest parse stdin path fs =
    (let decode = (\<lambda>text. case manifest_Decode parse text of Inl e \<Rightarrow> Inl (Manifest_Unreadable e) | Inr m \<Rightarrow> Inr m)
     in if path = ''-'' then decode stdin
        else case fs path of None \<Rightarrow> Inl (Open_Failed path) | Some text \<Rightarrow> decode text)"

definition runImport ::
  "flag_parser \<Rightarrow> (string \<Rightarrow> string) \<Rightarrow> (string \<Rightarrow> bool) \<Rightarrow> 'w transport \<Rightarrow> (contents \<Rightarrow> string + manifest) \<Rightarrow> contents \<Rightarrow> files
     \<Rightarrow> string list \<Rightarrow> 'w \<Rightarrow> (command_error + int \<times> import_result) \<times> 'w" where
  "runImport flags getenv url_ok transport parse stdin fs args w =
    (case flags (api_flags getenv @ [(''file'', ''-'')]) args of
       Inl e \<Rightarrow> (Inl (Flag_Error e), w)
     | Inr (values, positional) \<Rightarrow>
        if positional \<noteq> [] then (Inl Positional_Arguments, w)
        else case readManifest parse stdin (flag_value values ''file'') fs of
          Inl e \<Rightarrow> (Inl e, w)
        | Inr m \<Rightarrow>
           (case Import url_ok transport (flag_client values) m w of
              ((res, Some e), w1) \<Rightarrow> (Inl (Import_Stopped e), w1)
            | ((res, None), w1) \<Rightarrow> (Inr (int (length (mf_Definitions m)), res), w1)))"

section \<open>testclient\<close>

record test_options =
  to_apiURL :: string
  to_apiToken :: string
  to_natsURL :: string
  to_natsToken :: string
  to_dataset :: string
  to_symbol :: string
  to_timeframe :: string
  to_durable :: string
  to_maxEvents :: int
  to_timeout :: duration
  to_jsonOutput :: bool

text \<open>\<open>env\<close> of this command: a value of blanks counts as missing; \<open>trim\<close> is \<open>strings.TrimSpace\<close>.\<close>

definition test_env :: "(string \<Rightarrow> string) \<Rightarrow> (string \<Rightarrow> string) \<Rightarrow> string \<Rightarrow> string \<Rightarrow> string" where
  "test_env trim getenv name fallback = (if trim (getenv name) \<noteq> '''' then trim (getenv name) else fallback)"

text \<open>The options before the command line is applied; \<open>DefaultURL\<close> is the constant of the broker's client.\<close>

definition default_test_options :: "(string \<Rightarrow> string) \<Rightarrow> (string \<Rightarrow> string) \<Rightarrow> string \<Rightarrow> test_options" where
  "default_test_options trim getenv DefaultURL =
     \<lparr>to_apiURL = test_env trim getenv ''ALERTS_API_URL'' ''http://127.0.0.1:8100'', to_apiToken = getenv ''ALERTS_API_TOKEN'',
      to_natsURL = test_env trim getenv ''ALERTS_NATS_URL'' DefaultURL, to_natsToken = getenv ''ALERTS_NATS_TOKEN'',
      to_dataset = test_env trim getenv ''ALERTS_TEST_DATASET'' ''live'',
      to_symbol = test_env trim getenv ''ALERTS_TEST_SYMBOL'' ''BTCUSDT'',
      to_timeframe = test_env trim getenv ''ALERTS_TEST_TIMEFRAME'' ''1m'',
      to_durable = test_env trim getenv ''ALERTS_TEST_DURABLE'' ''ALERTS_TEST_CLIENT_V1'',
      to_maxEvents = 0, to_timeout = 0, to_jsonOutput = False\<rparr>"

definition test_options_missing :: "test_options \<Rightarrow> bool" where
  "test_options_missing opts \<longleftrightarrow> to_apiURL opts = '''' \<or> to_natsURL opts = '''' \<or> to_symbol opts = '''' \<or>
     to_timeframe opts = '''' \<or> to_durable opts = ''''"

text \<open>The five requests; \<open>upper\<close> is \<open>strings.ToUpper\<close>.\<close>

definition test_rule :: "string \<Rightarrow> string \<Rightarrow> int \<Rightarrow> f64 \<Rightarrow> rule" where
  "test_rule t direction n elapsed = Rule t [] None '''' '''' '''' '''' 0 direction n f_zero elapsed"

definition test_requests :: "(string \<Rightarrow> string) \<Rightarrow> test_options \<Rightarrow> create_request list" where
  "test_requests upper opts =
    (let series = \<lparr>ser_Dataset = to_dataset opts, ser_Symbol = upper (to_symbol opts), ser_Timeframe = to_timeframe opts\<rparr>;
         request = (\<lambda>name r evaluation trigger.
           \<lparr>cr_Name = name, cr_Series = series, cr_Rule = r, cr_EvaluationMode = evaluation, cr_TriggerMode = trigger, cr_CooldownSeconds = 0\<rparr>)
     in [request ''Test: green candle'' (test_rule ''candle_color'' ''green'' 0 f_zero) ''confirmed_close'' ''once_per_bar'',
         request ''Test: red candle'' (test_rule ''candle_color'' ''red'' 0 f_zero) ''confirmed_close'' ''once_per_bar'',
         request ''Test: two consecutive red candles'' (test_rule ''candle_streak'' ''red'' 2 f_zero) ''confirmed_close'' ''on_occurrence'',
         request ''Test: two consecutive green candles'' (test_rule ''candle_streak'' ''green'' 2 f_zero) ''confirmed_close'' ''on_occurrence'',
         request ''Test: candle flips after 50%'' (test_rule ''candle_color_flip'' ''either'' 0 (f_of_int 50)) ''intrabar'' ''once_per_bar''])"

text \<open>\<open>register\<close>: one definition is created, or found.\<close>

definition test_register ::
  "'w transport \<Rightarrow> test_options \<Rightarrow> create_request \<Rightarrow> 'w \<Rightarrow> (client_error + alert_definition) \<times> 'w" where
  "test_register transport opts req w =
    (let c = \<lparr>cl_BaseURL = to_apiURL opts, cl_Token = to_apiToken opts\<rparr>
     in if \<not> rule_marshals (cr_Rule req) then (Inl EncodeFailed, w)
        else case transport (base_url c) (client_request c ''POST'' [''v1'', ''definitions''] (Create_Call req)) w of
          (Inl err, w1) \<Rightarrow> (Inl (RequestFailed err), w1)
        | (Inr (status, b), w1) \<Rightarrow>
            if status \<noteq> 201 \<and> status \<noteq> 200 then (Inl (HTTP_Status status b), w1)
            else (case read_definition b of None \<Rightarrow> (Inl (ResponseDecode status), w1) | Some d \<Rightarrow> (Inr d, w1)))"

fun register_all ::
  "'w transport \<Rightarrow> test_options \<Rightarrow> create_request list \<Rightarrow> alert_definition list \<Rightarrow> 'w \<Rightarrow> (string \<times> client_error + alert_definition list) \<times> 'w" where
  "register_all transport opts [] ds w = (Inr ds, w)"
| "register_all transport opts (req # reqs) ds w =
    (case test_register transport opts req w of
       (Inl err, w1) \<Rightarrow> (Inl (cr_Name req, err), w1)
     | (Inr d, w1) \<Rightarrow> register_all transport opts reqs (ds @ [d]) w1)"

definition registerDefinitions ::
  "'w transport \<Rightarrow> (string \<Rightarrow> string) \<Rightarrow> test_options \<Rightarrow> 'w \<Rightarrow> (string \<times> client_error + alert_definition list) \<times> 'w" where
  "registerDefinitions transport upper opts w = register_all transport opts (test_requests upper opts) [] w"

subsection \<open>Receiving\<close>

datatype test_subscribe_error = Test_Incompatible | Test_Subscribe nats_error | Test_Inspect nats_error | Test_Bind nats_error

definition test_subscribe ::
  "('d, 'w) js_client \<Rightarrow> string \<Rightarrow> 'w \<Rightarrow> (test_subscribe_error + subscription) \<times> 'w" where
  "test_subscribe js durable w =
    (let sub = (\<lambda>create. \<lparr>sub_Stream = AlertStream, sub_Subject = AlertSubjects, sub_Durable = durable, sub_Create = create\<rparr>)
     in case js_ConsumerInfo js AlertStream durable w of
          (Inl ErrConsumerNotFound, w1) \<Rightarrow>
            (let s = sub (Some \<lparr>cc_FilterSubject = AlertSubjects, cc_AckPolicy = AckExplicitPolicy, cc_AckWait = 30 * second,
                                 cc_MaxDeliver = 20, cc_MaxAckPending = 0\<rparr>)
             in case js_PullSubscribe js s w1 of (Some e, w2) \<Rightarrow> (Inl (Test_Subscribe e), w2) | (None, w2) \<Rightarrow> (Inr s, w2))
        | (Inl e, w1) \<Rightarrow> (Inl (Test_Inspect e), w1)
        | (Inr config, w1) \<Rightarrow>
            if cc_FilterSubject config \<noteq> AlertSubjects \<or> cc_AckPolicy config \<noteq> AckExplicitPolicy then (Inl Test_Incompatible, w1)
            else (case js_PullSubscribe js (sub None) w1 of
                    (Some e, w2) \<Rightarrow> (Inl (Test_Bind e), w2) | (None, w2) \<Rightarrow> (Inr (sub None), w2)))"

datatype receive_error = Ack_Failed nats_error | Fetch_Failed nats_error | Stopped int

text \<open>
  The messages of one fetch: \<open>Inl\<close> ends the command, \<open>None\<close> being success; \<open>Inr\<close> is the number of alerts so far and the
  alerts printed.
\<close>

fun receive_messages ::
  "('d, 'w) js_client \<Rightarrow> ('d \<Rightarrow> string + alert) \<Rightarrow> int \<Rightarrow> 'd message list \<Rightarrow> int \<times> alert list \<Rightarrow> 'w
     \<Rightarrow> (receive_error option \<times> alert list + int \<times> alert list) \<times> 'w" where
  "receive_messages js decode maxEvents [] st w = (Inr st, w)"
| "receive_messages js decode maxEvents (m # ms) st w =
    (case decode (msg_Data m) of
       Inl _ \<Rightarrow> receive_messages js decode maxEvents ms st (snd (js_Term js m w))
     | Inr a \<Rightarrow>
        (case js_AckSync js m w of
           (Some e, w1) \<Rightarrow> (Inl (Some (Ack_Failed e), snd st), w1)
         | (None, w1) \<Rightarrow>
             let st1 = (fst st + 1, snd st @ [a])
             in if maxEvents > 0 \<and> fst st1 \<ge> maxEvents then (Inl (None, snd st1), w1)
                else receive_messages js decode maxEvents ms st1 w1))"

text \<open>The loop of \<open>run\<close>, for a number of rounds after which the context is cancelled.\<close>

fun receive_rounds ::
  "('d, 'w) js_client \<Rightarrow> ('d \<Rightarrow> string + alert) \<Rightarrow> int \<Rightarrow> subscription \<Rightarrow> nat \<Rightarrow> int \<times> alert list \<Rightarrow> 'w
     \<Rightarrow> (receive_error option \<times> alert list) \<times> 'w" where
  "receive_rounds js decode maxEvents sub 0 st w = ((Some (Stopped (fst st)), snd st), w)"
| "receive_rounds js decode maxEvents sub (Suc n) st w =
    (case js_Fetch js sub 1 w of
       ((messages, err), w1) \<Rightarrow>
         if err \<noteq> None \<and> err \<noteq> Some ErrTimeout then ((map_option Fetch_Failed err, snd st), w1)
         else (case receive_messages js decode maxEvents messages st w1 of
                 (Inl res, w2) \<Rightarrow> (res, w2)
               | (Inr st1, w2) \<Rightarrow> receive_rounds js decode maxEvents sub n st1 w2))"

datatype test_error =
    Options_Required | Test_Subscription test_subscribe_error | Test_Registration "string \<times> client_error" | Test_Receive receive_error

definition testclient_run ::
  "('d, 'w) js_client \<Rightarrow> 'w transport \<Rightarrow> ('d \<Rightarrow> string + alert) \<Rightarrow> (string \<Rightarrow> string) \<Rightarrow> nat \<Rightarrow> test_options \<Rightarrow> 'w
     \<Rightarrow> test_error option \<times> 'w" where
  "testclient_run js transport decode upper n opts w =
    (if test_options_missing opts then (Some Options_Required, w)
     else case test_subscribe js (to_durable opts) w of
       (Inl e, w1) \<Rightarrow> (Some (Test_Subscription e), w1)
     | (Inr sub, w1) \<Rightarrow>
        (case registerDefinitions transport upper opts w1 of
           (Inl e, w2) \<Rightarrow> (Some (Test_Registration e), w2)
         | (Inr _, w2) \<Rightarrow>
            (case receive_rounds js decode (to_maxEvents opts) sub n (0, []) w2 of
               ((e, _), w3) \<Rightarrow> (map_option Test_Receive e, w3))))"

subsection \<open>What the test client does\<close>

definition request_canonical :: "create_request \<Rightarrow> canonical" where
  "request_canonical r = \<lparr>cn_Series = cr_Series r, cn_Rule = cr_Rule r, cn_EvaluationMode = cr_EvaluationMode r,
     cn_TriggerMode = cr_TriggerMode r, cn_Cooldown = cr_CooldownSeconds r\<rparr>"

lemma test_floats: "f_of_int 50 = F_Fin False 50" "f_of_int 100 = F_Fin False 100"
  by (simp_all add: f_of_int_def f_of_rat_def f_round_def ilog2_def bit_len.simps pow2_def Let_def round_half_even_def)

text \<open>The service accepts every definition the test client registers, once the options it demands are there.\<close>

lemma test_definitions_accepted:
  assumes "upper (to_symbol opts) \<noteq> ''''" and "\<not> test_options_missing opts"
  shows "\<forall>r \<in> set (test_requests upper opts). create_error (cr_Name r) (request_canonical r) = None"
  using assms
  by (simp add: test_requests_def test_options_missing_def create_error_def request_canonical_def test_rule_def Validate_def
      validate.simps maxDepth_def RequiresIntrabar.simps test_floats f_le_def f_zero_def f_signed_def Let_def)

lemma receive_messages_count:
  assumes "receive_messages js decode maxEvents ms st w = (res, w')" and "0 < maxEvents" and "fst st < maxEvents"
    and "fst st = int (length (snd st))"
  shows "case res of Inl (err, printed) \<Rightarrow> err = None \<longrightarrow> int (length printed) = maxEvents
         | Inr st' \<Rightarrow> fst st' < maxEvents \<and> fst st' = int (length (snd st'))"
  using assms
proof (induction ms arbitrary: st w)
  case (Cons m ms)
  show ?case
  proof (cases "decode (msg_Data m)")
    case (Inl e)
    with Cons show ?thesis by simp
  next
    case (Inr a)
    obtain err w1 where "js_AckSync js m w = (err, w1)" by fastforce
    with Inr Cons.prems Cons.IH [of "(fst st + 1, snd st @ [a])" w1] show ?thesis
      by (auto simp: Let_def not_le split: option.splits if_splits)
  qed
qed auto

text \<open>
  The test client succeeds on exactly the number of alerts it was asked for: when its loop ends without an error,
  with a positive number of events asked for, exactly that many alerts were received, each printed after its acknowledgement, however they
  were spread over the fetches and however many malformed messages came between them.
\<close>

theorem testclient_receives_exactly:
  assumes "receive_rounds js decode maxEvents sub n (0, []) w = ((None, printed), w')" and "0 < maxEvents"
  shows "int (length printed) = maxEvents"
proof -
  have "int (length printed) = maxEvents"
    if "receive_rounds js decode maxEvents sub n st w = ((None, printed), w')" and "fst st < maxEvents" and "fst st = int (length (snd st))"
    for st w
    using that
  proof (induction n arbitrary: st w)
    case (Suc n)
    obtain messages err w1 where f: "js_Fetch js sub 1 w = ((messages, err), w1)" by (metis prod.exhaust)
    obtain res w2 where r: "receive_messages js decode maxEvents messages st w1 = (res, w2)" by fastforce
    from receive_messages_count [OF r assms(2) Suc.prems(2,3)] f r Suc.prems Suc.IH show ?case
      by (auto split: if_splits sum.splits option.splits)
  qed simp
  with assms show ?thesis by simp
qed


theorem testclient_receives_exactly_witness:
  "\<exists>printed l. receive_rounds ((recorder (\<lambda>a l. None))\<lparr>js_Fetch := \<lambda>sub n l. (([sample_message 1 None], None), l)\<rparr>) (\<lambda>d. Inr sample_alert) 2
     \<lparr>sub_Stream = AlertStream, sub_Subject = AlertSubjects, sub_Durable = ''t'', sub_Create = None\<rparr> 5 (0, []) [] =
     ((None, printed), l) \<and> length printed = 2"
proof -
  let ?js = "(recorder (\<lambda>a l. None))\<lparr>js_Fetch := \<lambda>sub n l. (([sample_message 1 None], None), l)\<rparr>"
  let ?sub = "\<lparr>sub_Stream = AlertStream, sub_Subject = AlertSubjects, sub_Durable = ''t'', sub_Create = None\<rparr>"
  obtain printed l where r: "receive_rounds ?js (\<lambda>d. Inr sample_alert) 2 ?sub 5 (0, []) [] = ((None, printed), l)"
    by (simp add: numeral_eq_Suc recorder_def logged_def Let_def)
  from testclient_receives_exactly [OF r] have "length printed = 2" by simp
  with r show ?thesis by blast
qed

end
