(* ===== verification/Json_Model.thy ===== *)
theory Json_Model
  imports Json
begin

text \<open>
  The JSON of the structs of \<open>internal/model/model.go\<close>: every struct with the tags of its fields, what of it can be
  printed, and what is read back. \<open>_keeps\<close> holds of the values that come back as they are: floats and integers that the
  machine has, texts in UTF-8, and no negative zero. Rules nest, so their codec is a pair of recursive functions.
\<close>

section \<open>The structs\<close>

definition series_fields :: "series json_field list" where
  "series_fields =
    [tagged ''dataset'' always ser_Dataset ser_Dataset_update string_codec,
     tagged ''symbol'' always ser_Symbol ser_Symbol_update string_codec,
     tagged ''timeframe'' always ser_Timeframe ser_Timeframe_update string_codec]"

definition series_codec :: "series codec" where
  "series_codec = struct_codec series_fields"

definition series_keeps :: "series \<Rightarrow> bool" where
  "series_keeps x \<longleftrightarrow> utf8_ok (ser_Dataset x) \<and> utf8_ok (ser_Symbol x) \<and> utf8_ok (ser_Timeframe x)"

definition candle_fields :: "candle json_field list" where
  "candle_fields =
    [tagged ''open_time'' always cnd_OpenTime cnd_OpenTime_update time_codec,
     tagged ''open'' always cnd_Open cnd_Open_update float_codec,
     tagged ''high'' always cnd_High cnd_High_update float_codec,
     tagged ''low'' always cnd_Low cnd_Low_update float_codec,
     tagged ''close'' always cnd_Close cnd_Close_update float_codec,
     tagged ''volume'' float_empty cnd_Volume cnd_Volume_update float_codec,
     tagged ''trades'' (\<lambda>w. w = 0) cnd_Trades cnd_Trades_update u64_codec]"

definition candle_codec :: "candle codec" where
  "candle_codec = struct_codec candle_fields"

definition candle_keeps :: "candle \<Rightarrow> bool" where
  "candle_keeps x \<longleftrightarrow> float_kept (cnd_Open x) \<and> float_kept (cnd_High x) \<and> float_kept (cnd_Low x) \<and> float_kept (cnd_Close x) \<and>
     float_kept (cnd_Volume x)"

definition algorithm_fields :: "algorithm_ref json_field list" where
  "algorithm_fields =
    [tagged ''name'' always alg_Name alg_Name_update string_codec,
     tagged ''version'' always alg_Version alg_Version_update string_codec,
     tagged ''config_hash'' always alg_ConfigHash alg_ConfigHash_update string_codec]"

definition algorithm_codec :: "algorithm_ref codec" where
  "algorithm_codec = struct_codec algorithm_fields"

definition algorithm_keeps :: "algorithm_ref \<Rightarrow> bool" where
  "algorithm_keeps x \<longleftrightarrow> utf8_ok (alg_Name x) \<and> utf8_ok (alg_Version x) \<and> utf8_ok (alg_ConfigHash x)"

definition zero_fact :: fact_reference where
  "zero_fact = \<lparr>fact_Kind = '''', fact_ID = '''', fact_Side = '''', fact_Name = '''', fact_Value = f_zero\<rparr>"

definition fact_fields :: "fact_reference json_field list" where
  "fact_fields =
    [tagged ''kind'' always fact_Kind fact_Kind_update string_codec,
     tagged ''id'' no_text fact_ID fact_ID_update string_codec,
     tagged ''side'' no_text fact_Side fact_Side_update string_codec,
     tagged ''name'' no_text fact_Name fact_Name_update string_codec,
     tagged ''value'' float_empty fact_Value fact_Value_update float_codec]"

definition fact_codec :: "fact_reference codec" where
  "fact_codec = struct_codec fact_fields"

definition fact_keeps :: "fact_reference \<Rightarrow> bool" where
  "fact_keeps x \<longleftrightarrow> utf8_ok (fact_Kind x) \<and> utf8_ok (fact_ID x) \<and> utf8_ok (fact_Side x) \<and> utf8_ok (fact_Name x) \<and>
     float_kept (fact_Value x)"

definition zero_indicator :: indicator where
  "zero_indicator = \<lparr>ind_Name = '''', ind_Period = 0, ind_Value = f_zero, ind_Ready = False\<rparr>"

definition indicator_fields :: "indicator json_field list" where
  "indicator_fields =
    [tagged ''name'' always ind_Name ind_Name_update string_codec,
     tagged ''period'' (\<lambda>i. i = 0) ind_Period ind_Period_update int_codec,
     tagged ''value'' always ind_Value ind_Value_update float_codec,
     tagged ''ready'' always ind_Ready ind_Ready_update bool_codec]"

definition indicator_codec :: "indicator codec" where
  "indicator_codec = struct_codec indicator_fields"

definition indicator_keeps :: "indicator \<Rightarrow> bool" where
  "indicator_keeps x \<longleftrightarrow> utf8_ok (ind_Name x) \<and> int_kept (ind_Period x) \<and> float_kept (ind_Value x)"

definition zero_transition :: zone_transition where
  "zero_transition = \<lparr>zt_ID = '''', zt_Kind = '''', zt_Side = '''', zt_Transition = '''', zt_Upper = f_zero, zt_Lower = f_zero\<rparr>"

definition transition_fields :: "zone_transition json_field list" where
  "transition_fields =
    [tagged ''id'' always zt_ID zt_ID_update string_codec,
     tagged ''kind'' always zt_Kind zt_Kind_update string_codec,
     tagged ''side'' no_text zt_Side zt_Side_update string_codec,
     tagged ''transition'' always zt_Transition zt_Transition_update string_codec,
     tagged ''upper'' always zt_Upper zt_Upper_update float_codec,
     tagged ''lower'' always zt_Lower zt_Lower_update float_codec]"

definition transition_codec :: "zone_transition codec" where
  "transition_codec = struct_codec transition_fields"

definition transition_keeps :: "zone_transition \<Rightarrow> bool" where
  "transition_keeps x \<longleftrightarrow> utf8_ok (zt_ID x) \<and> utf8_ok (zt_Kind x) \<and> utf8_ok (zt_Side x) \<and> utf8_ok (zt_Transition x) \<and>
     float_kept (zt_Upper x) \<and> float_kept (zt_Lower x)"

definition zero_zone :: zone where
  "zero_zone = \<lparr>zn_ID = '''', zn_Kind = '''', zn_Side = '''', zn_State = '''', zn_Upper = f_zero, zn_Lower = f_zero\<rparr>"

definition zone_fields :: "zone json_field list" where
  "zone_fields =
    [tagged ''id'' always zn_ID zn_ID_update string_codec,
     tagged ''kind'' always zn_Kind zn_Kind_update string_codec,
     tagged ''side'' no_text zn_Side zn_Side_update string_codec,
     tagged ''state'' always zn_State zn_State_update string_codec,
     tagged ''upper'' always zn_Upper zn_Upper_update float_codec,
     tagged ''lower'' always zn_Lower zn_Lower_update float_codec]"

definition zone_codec :: "zone codec" where
  "zone_codec = struct_codec zone_fields"

definition zone_keeps :: "zone \<Rightarrow> bool" where
  "zone_keeps x \<longleftrightarrow> utf8_ok (zn_ID x) \<and> utf8_ok (zn_Kind x) \<and> utf8_ok (zn_Side x) \<and> utf8_ok (zn_State x) \<and>
     float_kept (zn_Upper x) \<and> float_kept (zn_Lower x)"

definition zero_pattern :: pattern where
  "zero_pattern = \<lparr>pat_Kind = '''', pat_Side = ''''\<rparr>"

definition pattern_fields :: "pattern json_field list" where
  "pattern_fields =
    [tagged ''kind'' always pat_Kind pat_Kind_update string_codec,
     tagged ''side'' no_text pat_Side pat_Side_update string_codec]"

definition pattern_codec :: "pattern codec" where
  "pattern_codec = struct_codec pattern_fields"

definition pattern_keeps :: "pattern \<Rightarrow> bool" where
  "pattern_keeps x \<longleftrightarrow> utf8_ok (pat_Kind x) \<and> utf8_ok (pat_Side x)"

definition observation_fields :: "observation json_field list" where
  "observation_fields =
    [tagged ''schema'' always obs_Schema obs_Schema_update string_codec,
     tagged ''source_event_id'' always obs_SourceEventID obs_SourceEventID_update string_codec,
     tagged ''correlation_id'' always obs_CorrelationID obs_CorrelationID_update string_codec,
     tagged ''occurred_at'' always obs_OccurredAt obs_OccurredAt_update time_codec,
     tagged ''status'' always obs_Status obs_Status_update string_codec,
     tagged ''revision'' always obs_Revision obs_Revision_update u64_codec,
     tagged ''reset'' Not obs_Reset obs_Reset_update bool_codec,
     tagged ''history'' no_elements obs_History obs_History_update (list_codec candle_codec zero_candle),
     tagged ''series'' always obs_Series obs_Series_update series_codec,
     tagged ''candle'' always obs_Candle obs_Candle_update candle_codec,
     tagged ''indicators'' no_elements obs_Indicators obs_Indicators_update (list_codec indicator_codec zero_indicator),
     tagged ''active_zones'' no_elements obs_ActiveZones obs_ActiveZones_update (list_codec zone_codec zero_zone),
     tagged ''zone_transitions'' no_elements obs_ZoneTransitions obs_ZoneTransitions_update (list_codec transition_codec zero_transition),
     tagged ''patterns'' no_elements obs_Patterns obs_Patterns_update (list_codec pattern_codec zero_pattern),
     tagged ''feature_algorithm'' always obs_FeatureAlgorithm obs_FeatureAlgorithm_update algorithm_codec]"

definition observation_codec :: "observation codec" where
  "observation_codec = struct_codec observation_fields"

definition observation_keeps :: "observation \<Rightarrow> bool" where
  "observation_keeps x \<longleftrightarrow> utf8_ok (obs_Schema x) \<and> utf8_ok (obs_SourceEventID x) \<and> utf8_ok (obs_CorrelationID x) \<and>
     utf8_ok (obs_Status x) \<and> list_all candle_keeps (obs_History x) \<and> series_keeps (obs_Series x) \<and>
     candle_keeps (obs_Candle x) \<and> list_all indicator_keeps (obs_Indicators x) \<and>
     list_all zone_keeps (obs_ActiveZones x) \<and> list_all transition_keeps (obs_ZoneTransitions x) \<and>
     list_all pattern_keeps (obs_Patterns x) \<and> algorithm_keeps (obs_FeatureAlgorithm x)"

definition definition_state_fields :: "definition_evaluation_state json_field list" where
  "definition_state_fields =
    [tagged ''last_truth_confirmed'' always ds_LastTruthConfirmed ds_LastTruthConfirmed_update bool_codec,
     tagged ''last_truth_intrabar'' always ds_LastTruthIntrabar ds_LastTruthIntrabar_update bool_codec,
     tagged ''last_trigger_at'' always ds_LastTriggerAt ds_LastTriggerAt_update time_codec,
     tagged ''last_alert_bar'' always ds_LastAlertBar ds_LastAlertBar_update time_codec]"

definition definition_state_codec :: "definition_evaluation_state codec" where
  "definition_state_codec = struct_codec definition_state_fields"


section \<open>What is printed and read back\<close>

lemmas plain_name = fold_name_plain plain_char_def is_upper_def byte_def

lemma series_reads_back: "series_keeps x \<Longrightarrow> reads_back series_codec zero_series x x"
  unfolding series_codec_def
  by (rule struct_reads_back, unfold series_fields_def, cases x)
    (intro builds_kept builds_done; simp add: series_keeps_def zero_series_def plain_name json_keeps)

lemma series_put: "cd_put series_codec x = None \<longleftrightarrow> False"
  by (auto simp: series_codec_def series_fields_def json_marshals)

interpretation series_json: json_codec series_codec zero_series "\<lambda>_. True" series_keeps "\<lambda>x. x"
  by unfold_locales (simp_all add: series_put series_reads_back)

lemma candle_reads_back: "candle_keeps x \<Longrightarrow> reads_back candle_codec zero_candle x x"
  unfolding candle_codec_def
  by (rule struct_reads_back, unfold candle_fields_def, cases x)
    (intro builds_kept builds_done; simp add: candle_keeps_def zero_candle_def plain_name json_keeps float_empty_kept)

lemma candle_put: "cd_put candle_codec x = None \<longleftrightarrow> \<not> json_candle_ok x"
  by (auto simp: candle_codec_def candle_fields_def json_candle_ok_def json_marshals float_empty_finite)

interpretation candle_json: json_codec candle_codec zero_candle json_candle_ok candle_keeps "\<lambda>x. x"
  by unfold_locales (simp_all add: candle_put candle_reads_back)

lemma algorithm_reads_back: "algorithm_keeps x \<Longrightarrow> reads_back algorithm_codec zero_algorithm x x"
  unfolding algorithm_codec_def
  by (rule struct_reads_back, unfold algorithm_fields_def, cases x)
    (intro builds_kept builds_done; simp add: algorithm_keeps_def zero_algorithm_def plain_name json_keeps)

lemma algorithm_put: "cd_put algorithm_codec x = None \<longleftrightarrow> False"
  by (auto simp: algorithm_codec_def algorithm_fields_def json_marshals)

interpretation algorithm_json: json_codec algorithm_codec zero_algorithm "\<lambda>_. True" algorithm_keeps "\<lambda>x. x"
  by unfold_locales (simp_all add: algorithm_put algorithm_reads_back)

lemma fact_reads_back: "fact_keeps x \<Longrightarrow> reads_back fact_codec zero_fact x x"
  unfolding fact_codec_def
  by (rule struct_reads_back, unfold fact_fields_def, cases x)
    (intro builds_kept builds_done; simp add: fact_keeps_def zero_fact_def plain_name json_keeps float_empty_kept)

lemma fact_put: "cd_put fact_codec x = None \<longleftrightarrow> \<not> f_finite (fact_Value x)"
  by (auto simp: fact_codec_def fact_fields_def json_marshals float_empty_finite)

interpretation fact_json: json_codec fact_codec zero_fact "\<lambda>x. f_finite (fact_Value x)" fact_keeps "\<lambda>x. x"
  by unfold_locales (simp_all add: fact_put fact_reads_back)

lemma indicator_reads_back: "indicator_keeps x \<Longrightarrow> reads_back indicator_codec zero_indicator x x"
  unfolding indicator_codec_def
  by (rule struct_reads_back, unfold indicator_fields_def, cases x)
    (intro builds_kept builds_done; simp add: indicator_keeps_def zero_indicator_def plain_name json_keeps)

lemma indicator_put: "cd_put indicator_codec x = None \<longleftrightarrow> \<not> f_finite (ind_Value x)"
  by (auto simp: indicator_codec_def indicator_fields_def json_marshals)

interpretation indicator_json: json_codec indicator_codec zero_indicator "\<lambda>x. f_finite (ind_Value x)" indicator_keeps "\<lambda>x. x"
  by unfold_locales (simp_all add: indicator_put indicator_reads_back)

lemma transition_reads_back: "transition_keeps x \<Longrightarrow> reads_back transition_codec zero_transition x x"
  unfolding transition_codec_def
  by (rule struct_reads_back, unfold transition_fields_def, cases x)
    (intro builds_kept builds_done; simp add: transition_keeps_def zero_transition_def plain_name json_keeps)

lemma transition_put: "cd_put transition_codec x = None \<longleftrightarrow> \<not> (f_finite (zt_Upper x) \<and> f_finite (zt_Lower x))"
  by (auto simp: transition_codec_def transition_fields_def json_marshals)

interpretation transition_json: json_codec transition_codec zero_transition "\<lambda>x. f_finite (zt_Upper x) \<and> f_finite (zt_Lower x)" transition_keeps "\<lambda>x. x"
  by unfold_locales (simp_all add: transition_put transition_reads_back)

lemma zone_reads_back: "zone_keeps x \<Longrightarrow> reads_back zone_codec zero_zone x x"
  unfolding zone_codec_def
  by (rule struct_reads_back, unfold zone_fields_def, cases x)
    (intro builds_kept builds_done; simp add: zone_keeps_def zero_zone_def plain_name json_keeps)

lemma zone_put: "cd_put zone_codec x = None \<longleftrightarrow> \<not> (f_finite (zn_Upper x) \<and> f_finite (zn_Lower x))"
  by (auto simp: zone_codec_def zone_fields_def json_marshals)

interpretation zone_json: json_codec zone_codec zero_zone "\<lambda>x. f_finite (zn_Upper x) \<and> f_finite (zn_Lower x)" zone_keeps "\<lambda>x. x"
  by unfold_locales (simp_all add: zone_put zone_reads_back)

lemma pattern_reads_back: "pattern_keeps x \<Longrightarrow> reads_back pattern_codec zero_pattern x x"
  unfolding pattern_codec_def
  by (rule struct_reads_back, unfold pattern_fields_def, cases x)
    (intro builds_kept builds_done; simp add: pattern_keeps_def zero_pattern_def plain_name json_keeps)

lemma pattern_put: "cd_put pattern_codec x = None \<longleftrightarrow> False"
  by (auto simp: pattern_codec_def pattern_fields_def json_marshals)

interpretation pattern_json: json_codec pattern_codec zero_pattern "\<lambda>_. True" pattern_keeps "\<lambda>x. x"
  by unfold_locales (simp_all add: pattern_put pattern_reads_back)

text \<open>The slices of these structs.\<close>

lemma slices_read_back [json_keeps]:
  "list_all candle_keeps cs \<Longrightarrow> reads_back (list_codec candle_codec zero_candle) [] cs cs"
  "list_all indicator_keeps is \<Longrightarrow> reads_back (list_codec indicator_codec zero_indicator) [] is is"
  "list_all zone_keeps zs \<Longrightarrow> reads_back (list_codec zone_codec zero_zone) [] zs zs"
  "list_all transition_keeps ts \<Longrightarrow> reads_back (list_codec transition_codec zero_transition) [] ts ts"
  "list_all pattern_keeps ps \<Longrightarrow> reads_back (list_codec pattern_codec zero_pattern) [] ps ps"
  "list_all fact_keeps fs \<Longrightarrow> reads_back (list_codec fact_codec zero_fact) [] fs fs"
  "list_all utf8_ok ss \<Longrightarrow> reads_back (list_codec string_codec '''') [] ss ss"
  by (rule list_reads_kept, simp add: list_all_iff candle_reads_back indicator_reads_back zone_reads_back
      transition_reads_back pattern_reads_back fact_reads_back string_json.get_put)+

lemmas [json_keeps] = series_reads_back candle_reads_back algorithm_reads_back

lemmas [json_marshals] = series_put candle_put algorithm_put fact_put indicator_put transition_put zone_put pattern_put

lemma observation_reads_back: "observation_keeps x \<Longrightarrow> reads_back observation_codec zero_observation x x"
  unfolding observation_codec_def
  by (rule struct_reads_back, unfold observation_fields_def, cases x)
    (intro builds_kept builds_done; simp add: observation_keeps_def zero_observation_def plain_name json_keeps)

lemma observation_put: "cd_put observation_codec x = None \<longleftrightarrow> marshal_observation x = None"
  by (auto simp: observation_codec_def observation_fields_def marshal_observation_def json_marshals list_all_iff)

interpretation observation_json:
  json_codec observation_codec zero_observation "\<lambda>x. marshal_observation x \<noteq> None" observation_keeps "\<lambda>x. x"
  by unfold_locales (simp_all add: observation_put observation_reads_back)

section \<open>Rules\<close>

text \<open>The updates of the fields of a rule, which is a datatype and no record.\<close>

primrec upd_Type :: "(string \<Rightarrow> string) \<Rightarrow> rule \<Rightarrow> rule" where
  "upd_Type f (Rule t rs c k s tr n p d m b e) = Rule (f t) rs c k s tr n p d m b e"

primrec upd_Rules :: "(rule list \<Rightarrow> rule list) \<Rightarrow> rule \<Rightarrow> rule" where
  "upd_Rules f (Rule t rs c k s tr n p d m b e) = Rule t (f rs) c k s tr n p d m b e"

primrec upd_Rule :: "(rule option \<Rightarrow> rule option) \<Rightarrow> rule \<Rightarrow> rule" where
  "upd_Rule f (Rule t rs c k s tr n p d m b e) = Rule t rs (f c) k s tr n p d m b e"

primrec upd_Kind :: "(string \<Rightarrow> string) \<Rightarrow> rule \<Rightarrow> rule" where
  "upd_Kind f (Rule t rs c k s tr n p d m b e) = Rule t rs c (f k) s tr n p d m b e"

primrec upd_Side :: "(string \<Rightarrow> string) \<Rightarrow> rule \<Rightarrow> rule" where
  "upd_Side f (Rule t rs c k s tr n p d m b e) = Rule t rs c k (f s) tr n p d m b e"

primrec upd_Transition :: "(string \<Rightarrow> string) \<Rightarrow> rule \<Rightarrow> rule" where
  "upd_Transition f (Rule t rs c k s tr n p d m b e) = Rule t rs c k s (f tr) n p d m b e"

primrec upd_Name :: "(string \<Rightarrow> string) \<Rightarrow> rule \<Rightarrow> rule" where
  "upd_Name f (Rule t rs c k s tr n p d m b e) = Rule t rs c k s tr (f n) p d m b e"

primrec upd_Period :: "(int \<Rightarrow> int) \<Rightarrow> rule \<Rightarrow> rule" where
  "upd_Period f (Rule t rs c k s tr n p d m b e) = Rule t rs c k s tr n (f p) d m b e"

primrec upd_Direction :: "(string \<Rightarrow> string) \<Rightarrow> rule \<Rightarrow> rule" where
  "upd_Direction f (Rule t rs c k s tr n p d m b e) = Rule t rs c k s tr n p (f d) m b e"

primrec upd_Count :: "(int \<Rightarrow> int) \<Rightarrow> rule \<Rightarrow> rule" where
  "upd_Count f (Rule t rs c k s tr n p d m b e) = Rule t rs c k s tr n p d (f m) b e"

primrec upd_DistanceBps :: "(f64 \<Rightarrow> f64) \<Rightarrow> rule \<Rightarrow> rule" where
  "upd_DistanceBps f (Rule t rs c k s tr n p d m b e) = Rule t rs c k s tr n p d m (f b) e"

primrec upd_MinElapsedPercent :: "(f64 \<Rightarrow> f64) \<Rightarrow> rule \<Rightarrow> rule" where
  "upd_MinElapsedPercent f (Rule t rs c k s tr n p d m b e) = Rule t rs c k s tr n p d m b (f e)"

definition rule_fields :: "rule list codec \<Rightarrow> rule option codec \<Rightarrow> rule json_field list" where
  "rule_fields rules child =
    [tagged ''type'' always r_Type upd_Type string_codec,
     tagged ''rules'' no_elements r_Rules upd_Rules rules,
     tagged ''rule'' no_target r_Rule upd_Rule child,
     tagged ''kind'' no_text r_Kind upd_Kind string_codec,
     tagged ''side'' no_text r_Side upd_Side string_codec,
     tagged ''transition'' no_text r_Transition upd_Transition string_codec,
     tagged ''name'' no_text r_Name upd_Name string_codec,
     tagged ''period'' (\<lambda>i. i = 0) r_Period upd_Period int_codec,
     tagged ''direction'' no_text r_Direction upd_Direction string_codec,
     tagged ''count'' (\<lambda>i. i = 0) r_Count upd_Count int_codec,
     tagged ''distance_bps'' float_empty r_DistanceBps upd_DistanceBps float_codec,
     tagged ''min_elapsed_percent'' float_empty r_MinElapsedPercent upd_MinElapsedPercent float_codec]"

text \<open>Printing descends into the children of the rule, reading into the members of the object.\<close>

definition put_only :: "('v \<Rightarrow> json option) \<Rightarrow> 'v codec" where
  "put_only put = \<lparr>cd_put = put, cd_get = (\<lambda>_ _ _. None)\<rparr>"

definition get_only :: "(json \<Rightarrow> 'v \<Rightarrow> 'v option) \<Rightarrow> 'v codec" where
  "get_only get = \<lparr>cd_put = (\<lambda>_. None), cd_get = (\<lambda>_. get)\<rparr>"

definition put_rule_with :: "(rule list \<Rightarrow> json option) \<Rightarrow> (rule option \<Rightarrow> json option) \<Rightarrow> rule \<Rightarrow> json option" where
  "put_rule_with rules child r = cd_put (struct_codec (rule_fields (put_only rules) (put_only child))) r"

definition get_rule_with ::
  "(json \<Rightarrow> rule list \<Rightarrow> rule list option) \<Rightarrow> (json \<Rightarrow> rule option \<Rightarrow> rule option option) \<Rightarrow> bool \<Rightarrow> json \<Rightarrow> rule \<Rightarrow> rule option" where
  "get_rule_with rules child strict j r = cd_get (struct_codec (rule_fields (get_only rules) (get_only child))) strict j r"

lemma put_fields_cong:
  "list_all2 (\<lambda>f g. jf_name f = jf_name g \<and> jf_put f x = jf_put g x) fs gs \<Longrightarrow> put_fields fs x = put_fields gs x"
  by (induction rule: list_all2_induct) (auto split: option.splits)

lemma put_rule_with_cong [fundef_cong]:
  "r = r' \<Longrightarrow> P (r_Rules r') = P' (r_Rules r') \<Longrightarrow> Q (r_Rule r') = Q' (r_Rule r') \<Longrightarrow> put_rule_with P Q r = put_rule_with P' Q' r'"
  unfolding put_rule_with_def struct_codec_def
  by (simp, rule arg_cong [where f = "map_option J_Obj"], rule put_fields_cong) (simp add: rule_fields_def tagged_def put_only_def)

lemma get_member_with:
  assumes "\<And>old. G (snd kv) old = G' (snd kv) old" and "\<And>old. H (snd kv) old = H' (snd kv) old"
  shows "get_member (rule_fields (get_only G) (get_only H)) strict kv r = get_member (rule_fields (get_only G') (get_only H')) strict kv r"
  using assms by (simp add: get_member_def rule_fields_def tagged_def get_only_def)

lemma fold_opt_cong: "(\<And>x s. x \<in> set xs \<Longrightarrow> f x s = g x s) \<Longrightarrow> fold_opt f xs s = fold_opt g xs s"
  by (induction xs arbitrary: s) (auto split: option.splits)

lemma get_rule_with_cong [fundef_cong]:
  assumes "strict = strict'" and "j = j'" and "r = r'"
    and "\<And>kvs kv old. j' = J_Obj kvs \<Longrightarrow> kv \<in> set kvs \<Longrightarrow> G (snd kv) old = G' (snd kv) old"
    and "\<And>kvs kv old. j' = J_Obj kvs \<Longrightarrow> kv \<in> set kvs \<Longrightarrow> H (snd kv) old = H' (snd kv) old"
  shows "get_rule_with G H strict j r = get_rule_with G' H' strict' j' r'"
  using assms
  by (auto simp: get_rule_with_def struct_codec_def split: json.splits intro!: fold_opt_cong get_member_with)

lemma get_elements_cong:
  "(\<And>j old. j \<in> set js \<Longrightarrow> f j old = g j old) \<Longrightarrow> get_elements f zero js old = get_elements g zero js old"
  by (induction js arbitrary: old) (auto split: option.splits)

lemma get_slice_cong [fundef_cong]:
  assumes "zero = zero'" and "j = j'" and "old = old'"
    and "\<And>js e v. j' = J_Arr js \<Longrightarrow> e \<in> set js \<Longrightarrow> f e v = g e v"
  shows "get_slice f zero j old = get_slice g zero' j' old'"
  using assms by (auto simp: get_slice_def split: json.splits intro!: get_elements_cong)

lemma json_member_size: "(k, v) \<in> set kvs \<Longrightarrow> size v < size (J_Obj kvs)"
  by (induction kvs) (auto simp: less_Suc_eq_le)

lemma json_element_size: "j \<in> set js \<Longrightarrow> size j < size (J_Arr js)"
  by (simp add: less_Suc_eq_le size_list_estimation')

function put_rule :: "rule \<Rightarrow> json option" where
  "put_rule r =
    put_rule_with (\<lambda>rs. map_option J_Arr (those (map put_rule rs))) (\<lambda>p. case p of None \<Rightarrow> Some J_Null | Some c \<Rightarrow> put_rule c) r"
  by pat_completeness auto
termination by (relation "measure size") auto

function get_rule :: "bool \<Rightarrow> json \<Rightarrow> rule \<Rightarrow> rule option" where
  "get_rule strict j r =
    get_rule_with (\<lambda>j old. get_slice (\<lambda>j old. get_rule strict j old) zero_rule j old)
      (\<lambda>j old. case j of
         J_Null \<Rightarrow> Some None
       | _ \<Rightarrow> map_option Some (get_rule strict j (case old of None \<Rightarrow> zero_rule | Some v \<Rightarrow> v))) strict j r"
  by pat_completeness auto
termination
proof (relation "measure (\<lambda>(strict, j, r). size j)")
  show "((strict, e, v), (strict, j, r)) \<in> measure (\<lambda>(strict, j, r). size j)"
    if "j = J_Obj kvs" "kv \<in> set kvs" "snd kv = J_Arr js" "e \<in> set js" for strict j r kvs kv js e v
    using json_member_size [of "fst kv" "J_Arr js" kvs] json_element_size [of e js] that by (cases kv) auto
qed (auto dest: json_member_size)

declare put_rule.simps [simp del] get_rule.simps [simp del]

definition rule_codec :: "rule codec" where
  "rule_codec = \<lparr>cd_put = put_rule, cd_get = get_rule\<rparr>"

text \<open>The codec of rules is that of the struct with the fields of a rule.\<close>

abbreviation children_codec :: "rule list codec" where
  "children_codec \<equiv> list_codec rule_codec zero_rule"

abbreviation child_codec :: "rule option codec" where
  "child_codec \<equiv> ptr_codec rule_codec zero_rule"

lemma put_rule_struct: "put_rule r = cd_put (struct_codec (rule_fields children_codec child_codec)) r"
  unfolding put_rule.simps [of r] put_rule_with_def struct_codec_def
  by (simp, rule arg_cong [where f = "map_option J_Obj"], rule put_fields_cong)
    (simp add: rule_fields_def tagged_def put_only_def list_codec_def ptr_codec_def rule_codec_def)

lemma get_rule_struct: "get_rule strict j r = cd_get (struct_codec (rule_fields children_codec child_codec)) strict j r"
proof -
  have "get_member (rule_fields (get_only G) (get_only H)) strict kv r = get_member (rule_fields A B) strict kv r"
    if "\<And>j old. cd_get A strict j old = G j old" "\<And>j old. cd_get B strict j old = H j old" for G H A B kv r
    using that by (simp add: get_member_def rule_fields_def tagged_def get_only_def)
  then show ?thesis
    unfolding get_rule.simps [of strict j r] get_rule_with_def struct_codec_def
    by (auto simp: list_codec_def ptr_codec_def rule_codec_def split: json.splits intro!: fold_opt_cong)
qed

lemma rule_codec_struct: "rule_codec = struct_codec (rule_fields children_codec child_codec)"
proof (rule codec.equality)
  show "cd_put rule_codec = cd_put (struct_codec (rule_fields children_codec child_codec))"
    by (rule ext) (simp only: put_rule_struct [symmetric], simp add: rule_codec_def)
  show "cd_get rule_codec = cd_get (struct_codec (rule_fields children_codec child_codec))"
    by (intro ext) (simp only: get_rule_struct [symmetric], simp add: rule_codec_def)
qed simp

lemma rule_not_null: "cd_put rule_codec r \<noteq> Some J_Null"
  by (subst rule_codec_struct) (rule struct_not_null)

function rule_keeps :: "rule \<Rightarrow> bool" where
  "rule_keeps r \<longleftrightarrow> utf8_ok (r_Type r) \<and> utf8_ok (r_Kind r) \<and> utf8_ok (r_Side r) \<and> utf8_ok (r_Transition r) \<and>
     utf8_ok (r_Name r) \<and> utf8_ok (r_Direction r) \<and> int_kept (r_Period r) \<and> int_kept (r_Count r) \<and>
     float_kept (r_DistanceBps r) \<and> float_kept (r_MinElapsedPercent r) \<and> list_all rule_keeps (r_Rules r) \<and>
     (case r_Rule r of None \<Rightarrow> True | Some c \<Rightarrow> rule_keeps c)"
  by pat_completeness auto
termination by (relation "measure size") auto

declare rule_keeps.simps [simp del]

lemma rule_reads_back: "rule_keeps r \<Longrightarrow> reads_back rule_codec zero_rule r r"
proof (induction r rule: measure_induct_rule [of size])
  case (less r)
  note keeps = less.prems [unfolded rule_keeps.simps [of r]]
  have rules: "reads_back children_codec [] (r_Rules r) (r_Rules r)"
    using keeps by (intro list_reads_kept less.IH) (simp_all add: list_all_iff)
  have child: "reads_back child_codec None (r_Rule r) (r_Rule r)"
    using keeps by (intro ptr_reads_kept conjI less.IH) (simp_all add: rule_not_null)
  obtain t rs c k s tr n p d m b e where r: "r = Rule t rs c k s tr n p d m b e" by (cases r)
  have "reads_back (struct_codec (rule_fields children_codec child_codec)) zero_rule r r"
    by (rule struct_reads_back, unfold rule_fields_def r, (rule builds_kept | rule builds_done)+)
      (use rules child keeps in \<open>simp_all add: r zero_rule_def plain_name json_keeps float_empty_kept\<close>)
  then show ?case by (simp only: rule_codec_struct [symmetric])
qed

end
