(* ===== verification/Json_Store.thy ===== *)
theory Json_Store
  imports Json_Model Postgres
begin

text \<open>
  The JSON the repository over PostgreSQL stores: the states of series and definitions of \<open>CommitRuntimeBatch\<close>, the state
  of the older path, rules and alerts. \<open>Postgres\<close> stores values; here is what justifies it: a state is refused exactly
  when \<open>json.Marshal\<close> fails on it, and what is read back of one that is stored is what \<open>Postgres\<close> says.
\<close>

section \<open>States\<close>

definition feature_fields :: "feature_state json_field list" where
  "feature_fields =
    [tagged ''last_close'' no_target fs_LastClose fs_LastClose_update (ptr_codec float_codec f_zero),
     tagged ''indicators'' no_entries fs_Indicators fs_Indicators_update (map_codec float_codec f_zero),
     tagged ''candles'' no_elements fs_Candles fs_Candles_update (list_codec candle_codec zero_candle),
     tagged ''candle_colors'' no_elements fs_CandleColors fs_CandleColors_update (list_codec string_codec ''''),
     tagged ''forming_bar'' always fs_FormingBar fs_FormingBar_update time_codec,
     tagged ''forming_color'' no_text fs_FormingColor fs_FormingColor_update string_codec]"

definition feature_codec :: "feature_state codec" where
  "feature_codec = struct_codec feature_fields"

definition series_state_fields :: "series_evaluation_state json_field list" where
  "series_state_fields =
    [tagged ''last_open_time'' always ss_LastOpenTime ss_LastOpenTime_update time_codec,
     tagged ''last_revision'' (\<lambda>w. w = 0) ss_LastRevision ss_LastRevision_update u64_codec,
     tagged ''last_status'' no_text ss_LastStatus ss_LastStatus_update string_codec,
     tagged ''last_reset_id'' no_text ss_LastResetID ss_LastResetID_update string_codec,
     tagged ''last_reset_at'' always ss_LastResetAt ss_LastResetAt_update time_codec,
     tagged ''confirmed'' always ss_Confirmed ss_Confirmed_update feature_codec,
     tagged ''intrabar'' always ss_Intrabar ss_Intrabar_update feature_codec,
     tagged ''active_zones'' no_elements ss_ActiveZones ss_ActiveZones_update (list_codec zone_codec zero_zone)]"

definition series_state_codec :: "series_evaluation_state codec" where
  "series_state_codec = struct_codec series_state_fields"

definition evaluation_fields :: "evaluation_state json_field list" where
  "evaluation_fields =
    [tagged ''last_truth'' always es_LastTruth es_LastTruth_update bool_codec,
     tagged ''last_trigger_at'' always es_LastTriggerAt es_LastTriggerAt_update time_codec,
     tagged ''last_close'' no_target es_LastClose es_LastClose_update (ptr_codec float_codec f_zero),
     tagged ''indicators'' no_entries es_Indicators es_Indicators_update (map_codec float_codec f_zero),
     tagged ''candle_colors'' no_elements es_CandleColors es_CandleColors_update (list_codec string_codec ''''),
     tagged ''last_open_time'' always es_LastOpenTime es_LastOpenTime_update time_codec,
     tagged ''last_revision'' (\<lambda>w. w = 0) es_LastRevision es_LastRevision_update u64_codec,
     tagged ''last_status'' no_text es_LastStatus es_LastStatus_update string_codec,
     tagged ''last_alert_bar'' always es_LastAlertBar es_LastAlertBar_update time_codec,
     tagged ''forming_bar'' always es_FormingBar es_FormingBar_update time_codec,
     tagged ''forming_color'' no_text es_FormingColor es_FormingColor_update string_codec]"

definition evaluation_codec :: "evaluation_state codec" where
  "evaluation_codec = struct_codec evaluation_fields"

text \<open>The values that come back as they are, up to an empty map.\<close>

definition indicators_keep :: "(string \<rightharpoonup> f64) option \<Rightarrow> bool" where
  "indicators_keep m \<longleftrightarrow>
     (case m of None \<Rightarrow> True | Some f \<Rightarrow> finite (dom f) \<and> (\<forall>k \<in> dom f. utf8_ok k) \<and> (\<forall>v \<in> ran f. float_kept v))"

definition feature_keeps :: "feature_state \<Rightarrow> bool" where
  "feature_keeps x \<longleftrightarrow> pred_option float_kept (fs_LastClose x) \<and> indicators_keep (fs_Indicators x) \<and>
     list_all candle_keeps (fs_Candles x) \<and> list_all utf8_ok (fs_CandleColors x) \<and> utf8_ok (fs_FormingColor x)"

definition series_state_keeps :: "series_evaluation_state \<Rightarrow> bool" where
  "series_state_keeps x \<longleftrightarrow> utf8_ok (ss_LastStatus x) \<and> utf8_ok (ss_LastResetID x) \<and> feature_keeps (ss_Confirmed x) \<and>
     feature_keeps (ss_Intrabar x) \<and> list_all zone_keeps (ss_ActiveZones x)"

definition evaluation_keeps :: "evaluation_state \<Rightarrow> bool" where
  "evaluation_keeps x \<longleftrightarrow> pred_option float_kept (es_LastClose x) \<and> indicators_keep (es_Indicators x) \<and>
     list_all utf8_ok (es_CandleColors x) \<and> utf8_ok (es_LastStatus x) \<and> utf8_ok (es_FormingColor x)"

text \<open>The field of a map that is omitted when it has no entry.\<close>

lemma builds_entries:
  assumes "builds all fs x (upd (\<lambda>_. stored_indicators (sel x)) a) b"
    and "find (\<lambda>f. jf_name f = fold_name name) all = Some (tagged name no_entries sel upd c)"
    and "reads_back c (sel a) (sel x) (sel x)" and "upd (\<lambda>_. None) a = a"
  shows "builds all (tagged name no_entries sel upd c # fs) x a b"
proof (rule builds_field [OF assms(1,2)])
  have "reads_back c (sel a) (sel x) (stored_indicators (sel x)) \<or> no_entries (sel x)"
    using assms(3) by (auto simp: stored_indicators_def)
  show "no_entries (sel x) \<Longrightarrow> upd (\<lambda>_. stored_indicators (sel x)) a = a"
    using assms(4) by (auto simp: stored_indicators_def)
  show "reads_back c (sel a) (sel x) (stored_indicators (sel x))" if "\<not> no_entries (sel x)"
    using assms(3) that by (simp add: stored_indicators_def)
qed

lemma pointer_read_back [json_keeps]:
  "pred_option float_kept p \<Longrightarrow> reads_back (ptr_codec float_codec f_zero) None p p"
  by (rule ptr_reads_kept) (simp add: float_json.get_put float_not_null)

lemma indicators_read_back [json_keeps]:
  "indicators_keep m \<Longrightarrow> reads_back (map_codec float_codec f_zero) None m m"
proof (cases m)
  case None
  then show ?thesis by (simp add: reads_back_def map_codec_def)
next
  case (Some f)
  assume "indicators_keep m"
  then show ?thesis
    unfolding Some by (intro map_reads_back) (auto simp: indicators_keep_def Some ran_def intro: float_json.get_put)
qed

lemma feature_reads_back:
  "feature_keeps x \<Longrightarrow> reads_back feature_codec zero_feature x (x\<lparr>fs_Indicators := stored_indicators (fs_Indicators x)\<rparr>)"
  unfolding feature_codec_def
  by (rule struct_reads_back, unfold feature_fields_def, cases x, hypsubst, (rule builds_entries | rule builds_kept | rule builds_done)+)
    (simp_all add: feature_keeps_def zero_feature_def plain_name json_keeps)

lemma feature_kept: "x\<lparr>fs_Indicators := stored_indicators (fs_Indicators x)\<rparr> = stored_feature x"
  by (simp add: stored_feature_def)

lemma builds_feature:
  assumes "builds all fs x (upd (\<lambda>_. stored_feature (sel x)) a) b"
    and "find (\<lambda>f. jf_name f = fold_name name) all = Some (tagged name always sel upd feature_codec)"
    and "feature_keeps (sel x)" and "sel a = zero_feature"
  shows "builds all (tagged name always sel upd feature_codec # fs) x a b"
  using assms feature_reads_back [OF assms(3)]
  by (intro builds_field [OF assms(1,2)]) (simp_all add: feature_kept)

lemma series_state_reads_back:
  "series_state_keeps x \<Longrightarrow> reads_back series_state_codec zero_series_state x (stored_series x)"
  unfolding series_state_codec_def
  by (rule struct_reads_back, unfold series_state_fields_def, cases x, hypsubst, (rule builds_feature | rule builds_kept | rule builds_done)+)
    (simp_all add: series_state_keeps_def zero_series_state_def stored_series_def plain_name json_keeps)

lemma definition_state_reads_back: "reads_back definition_state_codec zero_definition_state x x"
  unfolding definition_state_codec_def
  by (rule struct_reads_back, unfold definition_state_fields_def, cases x, hypsubst, (rule builds_kept | rule builds_done)+)
    (simp_all add: zero_definition_state_def plain_name json_keeps)

lemma evaluation_reads_back:
  "evaluation_keeps x \<Longrightarrow> reads_back evaluation_codec zero_evaluation_state x (stored_evaluation x)"
  unfolding evaluation_codec_def
  by (rule struct_reads_back, unfold evaluation_fields_def, cases x, hypsubst, (rule builds_entries | rule builds_kept | rule builds_done)+)
    (simp_all add: evaluation_keeps_def zero_evaluation_state_def stored_evaluation_def plain_name json_keeps)

text \<open>What is refused.\<close>

definition indicators_finite :: "(string \<rightharpoonup> f64) option \<Rightarrow> bool" where
  "indicators_finite m \<longleftrightarrow> (case m of None \<Rightarrow> True | Some f \<Rightarrow> finite (dom f))"

lemma indicators_put:
  "indicators_finite m \<Longrightarrow> cd_put (map_codec float_codec f_zero) m = None \<longleftrightarrow>
     \<not> (case m of None \<Rightarrow> True | Some f \<Rightarrow> \<forall>v \<in> ran f. f_finite v)"
  by (cases m) (auto simp: indicators_finite_def map_put_None float_json.put_None)

lemma entries_put:
  "indicators_finite m \<Longrightarrow> \<not> no_entries m \<and> cd_put (map_codec float_codec f_zero) m = None \<longleftrightarrow>
     \<not> (case m of None \<Rightarrow> True | Some f \<Rightarrow> \<forall>v \<in> ran f. f_finite v)"
  using indicators_put [of m] by (auto split: option.splits)

lemma feature_put:
  "indicators_finite (fs_Indicators x) \<Longrightarrow> cd_put feature_codec x = None \<longleftrightarrow> \<not> feature_marshals x"
  using entries_put [of "fs_Indicators x"]
  by (auto simp: feature_codec_def feature_fields_def feature_marshals_def json_marshals list_all_iff split: option.splits)

definition series_state_finite :: "series_evaluation_state \<Rightarrow> bool" where
  "series_state_finite x \<longleftrightarrow> indicators_finite (fs_Indicators (ss_Confirmed x)) \<and> indicators_finite (fs_Indicators (ss_Intrabar x))"

lemma series_state_put:
  "series_state_finite x \<Longrightarrow> cd_put series_state_codec x = None \<longleftrightarrow> \<not> series_marshals x"
  by (auto simp: series_state_codec_def series_state_fields_def series_marshals_def series_state_finite_def json_marshals feature_put list_all_iff)

lemma definition_state_put: "cd_put definition_state_codec x = None \<longleftrightarrow> \<not> definition_state_marshals x"
  by (auto simp: definition_state_codec_def definition_state_fields_def definition_state_marshals_def json_marshals)

interpretation definition_state_json:
  json_codec definition_state_codec zero_definition_state definition_state_marshals "\<lambda>_. True" "\<lambda>x. x"
  by unfold_locales (simp_all add: definition_state_put definition_state_reads_back)

section \<open>Rules and alerts\<close>

lemma rule_put: "put_rule r = None \<longleftrightarrow> \<not> rule_marshals r"
proof (induction r rule: measure_induct_rule [of size])
  case (less r)
  have "cd_put children_codec (r_Rules r) = None \<longleftrightarrow> \<not> list_all rule_marshals (r_Rules r)"
    using less.IH by (auto simp: list_put_None list_all_iff rule_codec_def)
  moreover have "cd_put child_codec (r_Rule r) = None \<longleftrightarrow> \<not> (case r_Rule r of None \<Rightarrow> True | Some c \<Rightarrow> rule_marshals c)"
    using less.IH by (auto simp: ptr_put_None rule_codec_def split: option.splits)
  ultimately show ?case
    by (auto simp: put_rule_struct rule_fields_def rule_marshals.simps [of r] json_marshals float_empty_finite
        simp del: list_put_None ptr_put_None)
qed

interpretation rule_json: json_codec rule_codec zero_rule rule_marshals rule_keeps "\<lambda>r. r"
  by unfold_locales (simp_all add: rule_put rule_reads_back, simp add: rule_codec_def rule_put)

definition zero_definition :: alert_definition where
  "zero_definition = \<lparr>dfn_ID = '''', dfn_Version = 0, dfn_DefinitionHash = '''', dfn_Name = '''', dfn_Enabled = False,
     dfn_Series = zero_series, dfn_Rule = zero_rule, dfn_EvaluationMode = '''', dfn_TriggerMode = '''', dfn_CooldownSeconds = 0,
     dfn_CreatedAt = 0, dfn_UpdatedAt = 0, dfn_EffectiveAt = 0\<rparr>"

definition definition_fields :: "alert_definition json_field list" where
  "definition_fields =
    [tagged ''id'' always dfn_ID dfn_ID_update string_codec,
     tagged ''version'' always dfn_Version dfn_Version_update int_codec,
     tagged ''definition_hash'' always dfn_DefinitionHash dfn_DefinitionHash_update string_codec,
     tagged ''name'' always dfn_Name dfn_Name_update string_codec,
     tagged ''enabled'' always dfn_Enabled dfn_Enabled_update bool_codec,
     tagged ''series'' always dfn_Series dfn_Series_update series_codec,
     tagged ''rule'' always dfn_Rule dfn_Rule_update rule_codec,
     tagged ''evaluation_mode'' always dfn_EvaluationMode dfn_EvaluationMode_update string_codec,
     tagged ''trigger_mode'' always dfn_TriggerMode dfn_TriggerMode_update string_codec,
     tagged ''cooldown_seconds'' always dfn_CooldownSeconds dfn_CooldownSeconds_update int_codec,
     tagged ''created_at'' always dfn_CreatedAt dfn_CreatedAt_update time_codec,
     tagged ''updated_at'' always dfn_UpdatedAt dfn_UpdatedAt_update time_codec,
     tagged ''effective_at'' always dfn_EffectiveAt dfn_EffectiveAt_update time_codec]"

definition definition_codec :: "alert_definition codec" where
  "definition_codec = struct_codec definition_fields"

definition definition_keeps :: "alert_definition \<Rightarrow> bool" where
  "definition_keeps x \<longleftrightarrow> utf8_ok (dfn_ID x) \<and> int_kept (dfn_Version x) \<and> utf8_ok (dfn_DefinitionHash x) \<and> utf8_ok (dfn_Name x) \<and>
     series_keeps (dfn_Series x) \<and> rule_keeps (dfn_Rule x) \<and> utf8_ok (dfn_EvaluationMode x) \<and> utf8_ok (dfn_TriggerMode x) \<and>
     int_kept (dfn_CooldownSeconds x)"

definition definition_marshals :: "alert_definition \<Rightarrow> bool" where
  "definition_marshals x \<longleftrightarrow> rule_marshals (dfn_Rule x) \<and> json_time_ok (dfn_CreatedAt x) \<and> json_time_ok (dfn_UpdatedAt x) \<and>
     json_time_ok (dfn_EffectiveAt x)"

lemmas [json_keeps] = rule_reads_back
lemmas [json_marshals] = rule_json.put_None

lemma definition_reads_back: "definition_keeps x \<Longrightarrow> reads_back definition_codec zero_definition x x"
  unfolding definition_codec_def
  by (rule struct_reads_back, unfold definition_fields_def, cases x, hypsubst, (rule builds_kept | rule builds_done)+)
    (simp_all add: definition_keeps_def zero_definition_def plain_name json_keeps)

lemma definition_put: "cd_put definition_codec x = None \<longleftrightarrow> \<not> definition_marshals x"
  by (auto simp: definition_codec_def definition_fields_def definition_marshals_def json_marshals)

interpretation definition_json: json_codec definition_codec zero_definition definition_marshals definition_keeps "\<lambda>x. x"
  by unfold_locales (simp_all add: definition_put definition_reads_back)

text \<open>An alert carries its observation as raw JSON, which was printed before.\<close>

definition zero_alert :: alert where
  "zero_alert = \<lparr>alr_Schema = '''', alr_ID = '''', alr_DefinitionID = '''', alr_DefinitionVersion = 0, alr_DefinitionHash = '''',
     alr_DefinitionName = '''', alr_SourceEventID = '''', alr_SourceCandleID = '''', alr_Series = zero_series, alr_TriggeredAt = 0,
     alr_EvaluatedAt = 0, alr_Reasons = [], alr_FactsUsed = [], alr_FeatureAlgorithm = zero_algorithm, alr_SourceRevision = 0,
     alr_SourceStatus = '''', alr_Observation = None, alr_PublishStatus = '''', alr_Cursor = 0\<rparr>"

definition alert_fields :: "alert json_field list" where
  "alert_fields =
    [tagged ''schema'' always alr_Schema alr_Schema_update string_codec,
     tagged ''id'' always alr_ID alr_ID_update string_codec,
     tagged ''definition_id'' always alr_DefinitionID alr_DefinitionID_update string_codec,
     tagged ''definition_version'' always alr_DefinitionVersion alr_DefinitionVersion_update int_codec,
     tagged ''definition_hash'' always alr_DefinitionHash alr_DefinitionHash_update string_codec,
     tagged ''definition_name'' always alr_DefinitionName alr_DefinitionName_update string_codec,
     tagged ''source_event_id'' always alr_SourceEventID alr_SourceEventID_update string_codec,
     tagged ''source_candle_id'' always alr_SourceCandleID alr_SourceCandleID_update string_codec,
     tagged ''series'' always alr_Series alr_Series_update series_codec,
     tagged ''triggered_at'' always alr_TriggeredAt alr_TriggeredAt_update time_codec,
     tagged ''evaluated_at'' always alr_EvaluatedAt alr_EvaluatedAt_update time_codec,
     tagged ''reasons'' always alr_Reasons alr_Reasons_update (list_codec string_codec ''''),
     tagged ''facts_used'' no_elements alr_FactsUsed alr_FactsUsed_update (list_codec fact_codec zero_fact),
     tagged ''feature_algorithm'' always alr_FeatureAlgorithm alr_FeatureAlgorithm_update algorithm_codec,
     tagged ''source_revision'' always alr_SourceRevision alr_SourceRevision_update u64_codec,
     tagged ''source_status'' always alr_SourceStatus alr_SourceStatus_update string_codec,
     tagged ''observation'' always alr_Observation alr_Observation_update (ptr_codec observation_codec zero_observation),
     tagged ''publish_status'' no_text alr_PublishStatus alr_PublishStatus_update string_codec,
     tagged ''cursor'' (\<lambda>i. i = 0) alr_Cursor alr_Cursor_update int_codec]"

definition alert_codec :: "alert codec" where
  "alert_codec = struct_codec alert_fields"

definition alert_keeps :: "alert \<Rightarrow> bool" where
  "alert_keeps x \<longleftrightarrow> utf8_ok (alr_Schema x) \<and> utf8_ok (alr_ID x) \<and> utf8_ok (alr_DefinitionID x) \<and> int_kept (alr_DefinitionVersion x) \<and>
     utf8_ok (alr_DefinitionHash x) \<and> utf8_ok (alr_DefinitionName x) \<and> utf8_ok (alr_SourceEventID x) \<and>
     utf8_ok (alr_SourceCandleID x) \<and> series_keeps (alr_Series x) \<and> list_all utf8_ok (alr_Reasons x) \<and>
     list_all fact_keeps (alr_FactsUsed x) \<and> algorithm_keeps (alr_FeatureAlgorithm x) \<and> utf8_ok (alr_SourceStatus x) \<and>
     pred_option observation_keeps (alr_Observation x) \<and> utf8_ok (alr_PublishStatus x) \<and> int_kept (alr_Cursor x)"

lemma raw_read_back [json_keeps]:
  "pred_option observation_keeps p \<Longrightarrow> reads_back (ptr_codec observation_codec zero_observation) None p p"
  by (rule ptr_reads_kept) (simp add: observation_reads_back, simp add: observation_codec_def struct_not_null)

lemma alert_reads_back: "alert_keeps x \<Longrightarrow> reads_back alert_codec zero_alert x x"
  unfolding alert_codec_def
  by (rule struct_reads_back, unfold alert_fields_def, cases x, hypsubst, (rule builds_kept | rule builds_done)+)
    (simp_all add: alert_keeps_def zero_alert_def plain_name json_keeps)

lemma alert_put:
  "pred_option (\<lambda>obs. marshal_observation obs \<noteq> None) (alr_Observation x) \<Longrightarrow> cd_put alert_codec x = None \<longleftrightarrow> \<not> alert_marshals x"
  by (auto simp: alert_codec_def alert_fields_def alert_marshals_def json_marshals observation_put list_all_iff)

section \<open>What is stored comes back\<close>

text \<open>The value a row of JSON is read back as, \<open>None\<close> when it cannot be written.\<close>

definition read_stored :: "'v codec \<Rightarrow> 'v \<Rightarrow> 'v \<Rightarrow> 'v option" where
  "read_stored c zero v = Option.bind (cd_put c v) (\<lambda>j. cd_get c False j zero)"

lemma read_stored_back:
  "reads_back c zero v w \<Longrightarrow> (cd_put c v = None \<longleftrightarrow> \<not> m) \<Longrightarrow> read_stored c zero v = (if m then Some w else None)"
  by (auto simp: read_stored_def reads_back_def)

lemma definition_state_stored:
  "read_stored definition_state_codec zero_definition_state d = (if definition_state_marshals d then Some d else None)"
  by (rule read_stored_back [OF definition_state_reads_back definition_state_put])

lemma evaluation_stored:
  assumes "evaluation_keeps x" and "cd_put evaluation_codec x \<noteq> None"
  shows "read_stored evaluation_codec zero_evaluation_state x = Some (stored_evaluation x)"
  using assms read_stored_back [OF evaluation_reads_back, of x True] by simp

text \<open>
  C37. The JSON of a series state: \<open>json.Marshal\<close> fails exactly on the states that \<open>CommitRuntimeBatch\<close> refuses, and what
  \<open>LoadRuntimeStates\<close> decodes of a state that was written is the state itself, except that an empty map of indicators is
  nil. The floats are those a \<open>float64\<close> can have, without the negative zero, and the texts are UTF-8.
\<close>

theorem stored_state_roundtrip:
  assumes "series_state_finite st" and "series_state_keeps st"
  shows "read_stored series_state_codec zero_series_state st = (if series_marshals st then Some (stored_series st) else None)"
  by (rule read_stored_back [OF series_state_reads_back [OF assms(2)] series_state_put [OF assms(1)]])

definition stored_sample :: series_evaluation_state where
  "stored_sample = zero_series_state\<lparr>ss_LastStatus := ''confirmed'', ss_LastOpenTime := 5 * minute, ss_LastRevision := 3,
     ss_Confirmed := zero_feature\<lparr>fs_LastClose := Some (f_of_int 2), fs_Indicators := Some [''ema/20'' \<mapsto> f_of_int 3],
       fs_Candles := [zero_candle\<lparr>cnd_Close := f_of_int 2\<rparr>], fs_CandleColors := [''green'']\<rparr>,
     ss_Intrabar := zero_feature\<lparr>fs_Indicators := Some Map.empty\<rparr>\<rparr>"

lemmas small_floats = f_of_int_def f_of_rat_def f_round_def ilog2_def bit_len.simps pow2_def Let_def round_half_even_def

lemma stored_sample_ok: "series_state_finite stored_sample" "series_state_keeps stored_sample" "series_marshals stored_sample"
  by (auto simp: stored_sample_def zero_series_state_def zero_feature_def zero_candle_def series_state_finite_def
      series_state_keeps_def feature_keeps_def indicators_keep_def indicators_finite_def candle_keeps_def float_kept_def f_zero_def
      series_marshals_def feature_marshals_def json_time_ok_def json_candle_ok_def f_finite_def small_floats utf8_ascii byte_def)

theorem stored_state_roundtrip_witness:
  "read_stored series_state_codec zero_series_state stored_sample =
     Some (stored_sample\<lparr>ss_Intrabar := zero_feature\<rparr>) \<and> stored_sample \<noteq> stored_sample\<lparr>ss_Intrabar := zero_feature\<rparr>"
proof
  have "stored_series stored_sample = stored_sample\<lparr>ss_Intrabar := zero_feature\<rparr>"
    by (simp add: stored_sample_def stored_series_def stored_feature_def stored_indicators_def zero_feature_def)
  then show "read_stored series_state_codec zero_series_state stored_sample = Some (stored_sample\<lparr>ss_Intrabar := zero_feature\<rparr>)"
    using stored_state_roundtrip [OF stored_sample_ok(1,2)] stored_sample_ok(3) by simp
  have "fs_Indicators (ss_Intrabar stored_sample) \<noteq> fs_Indicators (ss_Intrabar (stored_sample\<lparr>ss_Intrabar := zero_feature\<rparr>))"
    by (simp add: stored_sample_def zero_feature_def)
  then show "stored_sample \<noteq> stored_sample\<lparr>ss_Intrabar := zero_feature\<rparr>" by metis
qed

end
