(* ===== verification/Json_Api.thy ===== *)
theory Json_Api
  imports Json_Store Definition_File_Laws
begin

text \<open>
  The JSON that crosses the process: the bodies of the HTTP interface, the events of the broker and the manifest files.
  \<open>Api\<close>, \<open>Broker\<close> and \<open>Definition_File\<close> take decoders as parameters; here they are given, over bodies as the decoder of
  a stream sees them, and what the client prints is shown to be what the server reads.
\<close>

section \<open>Bodies\<close>

text \<open>
  A body is the sequence of its values; \<open>Inl\<close> is where its text stops being JSON, be it for the limit of a megabyte.
  \<open>decode\<close> takes one value and wants the end after it.
\<close>

type_synonym json_body = "(string + json) list"

definition decode_body :: "bool \<Rightarrow> 'v codec \<Rightarrow> 'v \<Rightarrow> json_body \<Rightarrow> string + 'v" where
  "decode_body strict c zero items =
    (case items of
       [] \<Rightarrow> Inl ''EOF''
     | Inl e # _ \<Rightarrow> Inl e
     | Inr j # rest \<Rightarrow>
        (case cd_get c strict j zero of
           None \<Rightarrow> Inl ''json''
         | Some v \<Rightarrow> if rest = [] then Inr v else Inl ''request must contain one JSON value''))"

section \<open>Requests\<close>

definition zero_create :: create_request where
  "zero_create = \<lparr>cr_Name = '''', cr_Series = zero_series, cr_Rule = zero_rule, cr_EvaluationMode = '''', cr_TriggerMode = '''',
     cr_CooldownSeconds = 0\<rparr>"

definition create_fields :: "create_request json_field list" where
  "create_fields =
    [tagged ''name'' always cr_Name cr_Name_update string_codec,
     tagged ''series'' always cr_Series cr_Series_update series_codec,
     tagged ''rule'' always cr_Rule cr_Rule_update rule_codec,
     tagged ''evaluation_mode'' no_text cr_EvaluationMode cr_EvaluationMode_update string_codec,
     tagged ''trigger_mode'' no_text cr_TriggerMode cr_TriggerMode_update string_codec,
     tagged ''cooldown_seconds'' always cr_CooldownSeconds cr_CooldownSeconds_update int_codec]"

definition create_codec :: "create_request codec" where
  "create_codec = struct_codec create_fields"

definition create_keeps :: "create_request \<Rightarrow> bool" where
  "create_keeps x \<longleftrightarrow> utf8_ok (cr_Name x) \<and> series_keeps (cr_Series x) \<and> rule_keeps (cr_Rule x) \<and>
     utf8_ok (cr_EvaluationMode x) \<and> utf8_ok (cr_TriggerMode x) \<and> int_kept (cr_CooldownSeconds x)"

text \<open>The body of a switch, a struct with the one field \<open>enabled\<close>.\<close>

definition enabled_fields :: "bool option json_field list" where
  "enabled_fields = [tagged ''enabled'' always (\<lambda>p. p) (\<lambda>f. f) (ptr_codec bool_codec False)]"

definition enabled_codec :: "bool option codec" where
  "enabled_codec = struct_codec enabled_fields"

section \<open>Events\<close>

text \<open>The structs inside \<open>data\<close> are flat in the model, so their fields are fields of the event or of its bar.\<close>

definition zero_bar :: signal_bar where
  "zero_bar = \<lparr>bar_OpenTime = 0, bar_Revision = 0, bar_Status = '''', bar_SourceID = '''', bar_Open = f_zero, bar_High = f_zero,
     bar_Low = f_zero, bar_Close = f_zero, bar_Volume = f_zero, bar_Trades = 0\<rparr>"

definition bar_codec :: "signal_bar codec" where
  "bar_codec = struct_codec
    [tagged ''open_time'' always bar_OpenTime bar_OpenTime_update time_codec,
     tagged ''revision'' always bar_Revision bar_Revision_update u64_codec,
     tagged ''status'' always bar_Status bar_Status_update string_codec,
     tagged ''source_id'' always bar_SourceID bar_SourceID_update string_codec,
     tagged ''open'' always bar_Open bar_Open_update float_codec,
     tagged ''high'' always bar_High bar_High_update float_codec,
     tagged ''low'' always bar_Low bar_Low_update float_codec,
     tagged ''close'' always bar_Close bar_Close_update float_codec,
     tagged ''volume'' always bar_Volume bar_Volume_update float_codec,
     tagged ''trades'' always bar_Trades bar_Trades_update u64_codec]"

text \<open>A \<open>RawMessage\<close> keeps what it is given, \<open>null\<close> included.\<close>

definition raw_codec :: "json option codec" where
  "raw_codec = \<lparr>cd_put = (\<lambda>v. Some (case v of None \<Rightarrow> J_Null | Some j \<Rightarrow> j)), cd_get = (\<lambda>_ j old. Some (Some j))\<rparr>"

definition output_codec :: "signal_output codec" where
  "output_codec = struct_codec
    [tagged ''name'' always out_Name out_Name_update string_codec,
     tagged ''value'' always out_Value out_Value_update raw_codec]"

definition zero_event :: event where
  "zero_event = \<lparr>ev_ID = '''', ev_Type = '''', ev_Time = 0, ev_CorrelationID = '''', ev_Series = zero_series, ev_Bar = zero_bar,
     ev_AnalysisName = '''', ev_AnalysisRevision = 0, ev_Reset = False, ev_History = [], ev_Engine = '''', ev_EngineVersion = '''',
     ev_AlgorithmVersion = '''', ev_ConfigHash = '''', ev_Outputs = []\<rparr>"

text \<open>A struct that is part of the event itself.\<close>

definition part :: "string \<Rightarrow> event json_field list \<Rightarrow> event json_field" where
  "part name fs = tagged name always (\<lambda>e. e) (\<lambda>f. f) (struct_codec fs)"

definition event_codec :: "event codec" where
  "event_codec = struct_codec
    [tagged ''id'' always ev_ID ev_ID_update string_codec,
     tagged ''type'' always ev_Type ev_Type_update string_codec,
     tagged ''time'' always ev_Time ev_Time_update time_codec,
     tagged ''correlationid'' always ev_CorrelationID ev_CorrelationID_update string_codec,
     part ''data''
      [tagged ''series'' always ev_Series ev_Series_update series_codec,
       tagged ''bar'' always ev_Bar ev_Bar_update bar_codec,
       part ''analysis'' [tagged ''name'' always ev_AnalysisName ev_AnalysisName_update string_codec],
       tagged ''analysis_revision'' always ev_AnalysisRevision ev_AnalysisRevision_update u64_codec,
       tagged ''reset'' Not ev_Reset ev_Reset_update bool_codec,
       tagged ''history'' no_elements ev_History ev_History_update (list_codec candle_codec zero_candle),
       part ''implementation''
        [tagged ''engine'' always ev_Engine ev_Engine_update string_codec,
         tagged ''engine_version'' always ev_EngineVersion ev_EngineVersion_update string_codec,
         tagged ''algorithm_version'' always ev_AlgorithmVersion ev_AlgorithmVersion_update string_codec,
         tagged ''config_hash'' always ev_ConfigHash ev_ConfigHash_update string_codec],
       tagged ''outputs'' always ev_Outputs ev_Outputs_update
         (list_codec output_codec \<lparr>out_Name = '''', out_Value = None\<rparr>)]]"

text \<open>The data of a message of the broker: \<open>Unmarshal\<close> wants one value.\<close>

definition decode_event :: "string + json \<Rightarrow> string + event" where
  "decode_event d =
    (case d of Inl e \<Rightarrow> Inl e | Inr j \<Rightarrow> (case cd_get event_codec False j zero_event of None \<Rightarrow> Inl ''json'' | Some ev \<Rightarrow> Inr ev))"

section \<open>The decoders of the interface\<close>

definition json_decoders :: "json_body decoders" where
  "json_decoders =
    \<lparr>dec_create = decode_body True create_codec zero_create,
     dec_enabled = decode_body True enabled_codec None,
     dec_observation = decode_body True observation_codec zero_observation,
     dec_event = decode_body False event_codec zero_event\<rparr>"

text \<open>The body the client prints for a call.\<close>

definition call_body :: "call \<Rightarrow> json_body" where
  "call_body b =
    (let put = (case b of No_Call \<Rightarrow> None | Create_Call r \<Rightarrow> cd_put create_codec r | Enabled_Call e \<Rightarrow> cd_put enabled_codec (Some e))
     in case put of None \<Rightarrow> [] | Some j \<Rightarrow> [Inr j])"

definition call_keeps :: "call \<Rightarrow> bool" where
  "call_keeps b \<longleftrightarrow> (case b of Create_Call r \<Rightarrow> create_keeps r | _ \<Rightarrow> True)"

lemma create_reads_back: "create_keeps x \<Longrightarrow> reads_back create_codec zero_create x x"
  unfolding create_codec_def
  by (rule struct_reads_back, unfold create_fields_def, cases x, hypsubst, (rule builds_kept | rule builds_done)+)
    (simp_all add: create_keeps_def zero_create_def plain_name json_keeps)

lemma create_put: "cd_put create_codec x = None \<longleftrightarrow> \<not> rule_marshals (cr_Rule x)"
  by (auto simp: create_codec_def create_fields_def json_marshals)

interpretation create_json: json_codec create_codec zero_create "\<lambda>x. rule_marshals (cr_Rule x)" create_keeps "\<lambda>x. x"
  by unfold_locales (simp_all add: create_put create_reads_back)

lemma enabled_reads_back: "reads_back enabled_codec None x x"
  unfolding enabled_codec_def
  by (rule struct_reads_back, unfold enabled_fields_def, (rule builds_kept | rule builds_done)+)
    (simp_all add: plain_name ptr_reads_kept bool_json.get_put bool_not_null)

lemma enabled_put: "cd_put enabled_codec x = None \<longleftrightarrow> False"
  by (auto simp: enabled_codec_def enabled_fields_def json_marshals)

interpretation enabled_json: json_codec enabled_codec None "\<lambda>_. True" "\<lambda>_. True" "\<lambda>x. x"
  by unfold_locales (simp_all add: enabled_put enabled_reads_back)

section \<open>Responses\<close>

definition definitions_codec :: "alert_definition list codec" where
  "definitions_codec = struct_codec [tagged ''data'' always (\<lambda>ds. ds) (\<lambda>f. f) (list_codec definition_codec zero_definition)]"

text \<open>
  A body as the client reads it: what cannot be printed leaves the body empty after the status.
\<close>

definition wire_body :: "body \<Rightarrow> body" where
  "wire_body b =
    (case b of
       Definition_Body d \<Rightarrow>
        (case read_stored definition_codec zero_definition d of None \<Rightarrow> No_Body | Some d' \<Rightarrow> Definition_Body d')
     | Definitions_Body ds \<Rightarrow>
        (case read_stored definitions_codec [] ds of None \<Rightarrow> No_Body | Some ds' \<Rightarrow> Definitions_Body ds')
     | _ \<Rightarrow> b)"

definition wire_ok :: "alert_definition \<Rightarrow> bool" where
  "wire_ok d \<longleftrightarrow> definition_marshals d \<and> definition_keeps d"

definition body_wire_ok :: "body \<Rightarrow> bool" where
  "body_wire_ok b \<longleftrightarrow> (case b of Definition_Body d \<Rightarrow> wire_ok d | Definitions_Body ds \<Rightarrow> list_all wire_ok ds | _ \<Rightarrow> True)"

lemma definitions_reads_back: "list_all definition_keeps ds \<Longrightarrow> reads_back definitions_codec [] ds ds"
  unfolding definitions_codec_def
  by (rule struct_reads_back, (rule builds_kept | rule builds_done)+)
    (simp_all add: plain_name list_reads_kept list_all_iff definition_reads_back)

lemma definitions_put: "cd_put definitions_codec ds = None \<longleftrightarrow> \<not> list_all definition_marshals ds"
  by (auto simp: definitions_codec_def json_marshals definition_put list_all_iff)

lemma wire_body_same: "body_wire_ok b \<Longrightarrow> wire_body b = b"
  using read_stored_back [OF definition_reads_back definition_put] read_stored_back [OF definitions_reads_back definitions_put]
  by (auto simp: wire_body_def body_wire_ok_def wire_ok_def list_all_iff split: body.splits)

section \<open>An exchange over JSON\<close>

definition with_body :: "'c \<Rightarrow> 'b request \<Rightarrow> 'c request" where
  "with_body b r =
    \<lparr>rq_Method = rq_Method r, rq_Path = rq_Path r, rq_Authorization = rq_Authorization r, rq_After = rq_After r,
     rq_Limit = rq_Limit r, rq_Body = b\<rparr>"

definition json_transport ::
  "server_options \<Rightarrow> 'r repository \<Rightarrow> (canonical \<Rightarrow> string) \<Rightarrow> go_time \<Rightarrow> 'r service transport" where
  "json_transport opts ops canonical now base r s =
    (case serve opts ops canonical json_decoders now 0 [] (with_body (call_body (rq_Body r)) r) s of
       None \<Rightarrow> (Inl ''EOF'', s)
     | Some ((status, b), s') \<Rightarrow> (Inr (status, wire_body b), s'))"

text \<open>The call that belongs to an endpoint; the ingestion endpoints are not for this client.\<close>

definition call_for :: "endpoint \<Rightarrow> call \<Rightarrow> bool" where
  "call_for e b \<longleftrightarrow>
     (case e of
        Create_Definition \<Rightarrow> (case b of Create_Call _ \<Rightarrow> True | _ \<Rightarrow> False)
      | Update_Definition _ \<Rightarrow> (case b of Enabled_Call _ \<Rightarrow> True | _ \<Rightarrow> False)
      | Post_Observation \<Rightarrow> False
      | Post_Signal_Event \<Rightarrow> False
      | _ \<Rightarrow> True)"

lemma decode_body_back:
  "reads_back c zero v w \<Longrightarrow> cd_put c v = Some j \<Longrightarrow> decode_body strict c zero [Inr j] = Inr w"
  by (simp add: decode_body_def reads_back_def)

lemma create_body_read:
  "create_keeps x \<Longrightarrow> rule_marshals (cr_Rule x) \<Longrightarrow> dec_create json_decoders (call_body (Create_Call x)) = Inr x"
  using create_put [of x] decode_body_back [OF create_reads_back [of x]]
  by (auto simp: json_decoders_def call_body_def split: option.splits)

lemma enabled_body_read: "dec_enabled json_decoders (call_body (Enabled_Call b)) = Inr (Some b)"
  using enabled_put [of "Some b"] decode_body_back [OF enabled_reads_back [of "Some b"]]
  by (auto simp: json_decoders_def call_body_def split: option.splits)

lemma with_body_simps [simp]:
  "rq_Method (with_body b r) = rq_Method r" "rq_Path (with_body b r) = rq_Path r"
  "rq_Authorization (with_body b r) = rq_Authorization r" "rq_After (with_body b r) = rq_After r"
  "rq_Limit (with_body b r) = rq_Limit r" "rq_Body (with_body b r) = b"
  by (simp_all add: with_body_def)

lemma guard_with_body: "guard_of opts e (with_body b r) = guard_of opts e r"
  by (cases e) (simp_all add: guard_of_def control_def ingest_def bearerOK_def)

text \<open>The server reads from the client's JSON what the client meant.\<close>

lemma call_served:
  assumes "mux (rq_Method r) (rq_Path r) = Inr e" and "call_for e (rq_Body r)"
    and "call_marshals (rq_Body r)" and "call_keeps (rq_Body r)"
  shows "serve opts ops canonical json_decoders now elapsed readiness (with_body (call_body (rq_Body r)) r) s =
    serve opts ops canonical call_decoders now elapsed readiness r s"
proof -
  have "handle ops canonical json_decoders now elapsed readiness e (with_body (call_body (rq_Body r)) r) s =
      handle ops canonical call_decoders now elapsed readiness e r s"
  proof (cases e)
    case Create_Definition
    with assms(2-4) show ?thesis
      by (cases "rq_Body r")
        (simp_all add: call_for_def call_marshals_def call_keeps_def handle_def createDefinition_def create_body_read call_decoders_def)
  next
    case (Update_Definition i)
    with assms(2) show ?thesis
      by (cases "rq_Body r") (simp_all add: call_for_def handle_def updateDefinition_def enabled_body_read call_decoders_def)
  qed (use assms(2) in \<open>simp_all add: call_for_def handle_def listAlerts_def split: option.splits\<close>)
  then show ?thesis by (simp add: serve_def assms(1) guard_with_body split: option.splits)
qed

lemma json_transport_same:
  assumes "mux (rq_Method r) (rq_Path r) = Inr e" and "call_for e (rq_Body r)"
    and "call_marshals (rq_Body r)" and "call_keeps (rq_Body r)"
    and "local_transport opts ops canonical now base r s = (Inr (status, b), s')" and "body_wire_ok b"
  shows "json_transport opts ops canonical now base r s = (Inr (status, b), s')"
  using assms(5) wire_body_same [OF assms(6)] call_served [OF assms(1-4), of opts ops canonical now 0 "[]" s]
  by (auto simp: json_transport_def local_transport_def split: option.splits prod.splits)

section \<open>Manifest files\<close>

definition zero_portable :: portable where
  "zero_portable = \<lparr>pt_Name = '''', pt_Enabled = None, pt_Series = zero_series, pt_Rule = zero_rule, pt_EvaluationMode = '''',
     pt_TriggerMode = '''', pt_CooldownSeconds = 0\<rparr>"

definition portable_fields :: "portable json_field list" where
  "portable_fields =
    [tagged ''name'' always pt_Name pt_Name_update string_codec,
     tagged ''enabled'' no_target pt_Enabled pt_Enabled_update (ptr_codec bool_codec False),
     tagged ''series'' always pt_Series pt_Series_update series_codec,
     tagged ''rule'' always pt_Rule pt_Rule_update rule_codec,
     tagged ''evaluation_mode'' no_text pt_EvaluationMode pt_EvaluationMode_update string_codec,
     tagged ''trigger_mode'' no_text pt_TriggerMode pt_TriggerMode_update string_codec,
     tagged ''cooldown_seconds'' always pt_CooldownSeconds pt_CooldownSeconds_update int_codec]"

definition portable_codec :: "portable codec" where
  "portable_codec = struct_codec portable_fields"

definition manifest_fields :: "manifest json_field list" where
  "manifest_fields =
    [tagged ''schema'' always mf_Schema mf_Schema_update string_codec,
     tagged ''definitions'' always mf_Definitions mf_Definitions_update (list_codec portable_codec zero_portable)]"

definition manifest_codec :: "manifest codec" where
  "manifest_codec = struct_codec manifest_fields"

definition zero_manifest :: manifest where
  "zero_manifest = \<lparr>mf_Schema = '''', mf_Definitions = []\<rparr>"

definition portable_keeps :: "portable \<Rightarrow> bool" where
  "portable_keeps x \<longleftrightarrow> utf8_ok (pt_Name x) \<and> series_keeps (pt_Series x) \<and> rule_keeps (pt_Rule x) \<and>
     utf8_ok (pt_EvaluationMode x) \<and> utf8_ok (pt_TriggerMode x) \<and> int_kept (pt_CooldownSeconds x)"

definition manifest_keeps :: "manifest \<Rightarrow> bool" where
  "manifest_keeps m \<longleftrightarrow> utf8_ok (mf_Schema m) \<and> list_all portable_keeps (mf_Definitions m)"

text \<open>The parser of a manifest, over the values of the file. What follows the manifest is decoded into an empty struct.\<close>

definition parse_manifest :: "json_body \<Rightarrow> string + manifest" where
  "parse_manifest items =
    (case items of
       [] \<Rightarrow> Inl ''EOF''
     | Inl e # _ \<Rightarrow> Inl e
     | Inr j # rest \<Rightarrow>
        (case cd_get manifest_codec True j zero_manifest of
           None \<Rightarrow> Inl ''json''
         | Some m \<Rightarrow>
            (case rest of
               [] \<Rightarrow> Inr m
             | Inl e # _ \<Rightarrow> Inl e
             | Inr j' # _ \<Rightarrow>
                (case cd_get (struct_codec ([] :: unit json_field list)) True j' () of
                   None \<Rightarrow> Inl ''json''
                 | Some _ \<Rightarrow> Inl ''multiple JSON values''))))"

text \<open>The file \<open>Encode\<close> writes.\<close>

definition manifest_file :: "manifest \<Rightarrow> (string + manifest_error) + json_body" where
  "manifest_file m =
    (case manifest_Encode m of
       Inl err \<Rightarrow> Inl err
     | Inr m' \<Rightarrow> (case cd_put manifest_codec m' of None \<Rightarrow> Inl (Inl ''encode definition manifest: json'') | Some j \<Rightarrow> Inr [Inr j]))"

lemma enabled_pointer_back: "reads_back (ptr_codec bool_codec False) None p p"
  by (rule ptr_reads_kept) (simp add: bool_json.get_put bool_not_null)

lemma portable_reads_back: "portable_keeps x \<Longrightarrow> reads_back portable_codec zero_portable x x"
  unfolding portable_codec_def
  by (rule struct_reads_back, unfold portable_fields_def, cases x, hypsubst, (rule builds_kept | rule builds_done)+)
    (simp_all add: portable_keeps_def zero_portable_def plain_name json_keeps enabled_pointer_back)

lemma portable_put: "cd_put portable_codec x = None \<longleftrightarrow> \<not> rule_marshals (pt_Rule x)"
  by (auto simp: portable_codec_def portable_fields_def json_marshals)

lemma manifest_reads_back: "manifest_keeps m \<Longrightarrow> reads_back manifest_codec zero_manifest m m"
  unfolding manifest_codec_def
  by (rule struct_reads_back, unfold manifest_fields_def, cases m, hypsubst, (rule builds_kept | rule builds_done)+)
    (simp_all add: manifest_keeps_def zero_manifest_def plain_name json_keeps list_reads_kept list_all_iff portable_reads_back)

lemma manifest_put: "cd_put manifest_codec m = None \<longleftrightarrow> \<not> list_all (\<lambda>d. rule_marshals (pt_Rule d)) (mf_Definitions m)"
  by (auto simp: manifest_codec_def manifest_fields_def json_marshals portable_put list_all_iff)

interpretation manifest_json:
  json_codec manifest_codec zero_manifest "\<lambda>m. list_all (\<lambda>d. rule_marshals (pt_Rule d)) (mf_Definitions m)" manifest_keeps "\<lambda>m. m"
  by unfold_locales (simp_all add: manifest_put manifest_reads_back)

text \<open>A manifest that is written is read again, and the encoder fails where the model of \<open>Encode\<close> says.\<close>

lemma manifest_file_read:
  assumes "manifest_Encode m = Inr m'" and "manifest_keeps m"
  obtains items where "manifest_file m = Inr items" and "manifest_Decode parse_manifest items = Inr m"
proof -
  have valid: "manifest_error_of m = None" and m': "m' = m" and "list_all (\<lambda>d. rule_marshals (pt_Rule d)) (mf_Definitions m)"
    using assms(1) by (auto simp: manifest_Encode_def split: option.splits if_splits)
  then obtain j where j: "cd_put manifest_codec m = Some j" using manifest_put [of m] by (cases "cd_put manifest_codec m") auto
  have "parse_manifest [Inr j] = Inr m"
    using manifest_reads_back [OF assms(2)] j by (simp add: parse_manifest_def reads_back_def)
  then show thesis
    using j assms(1) valid by (intro that [of "[Inr j]"]) (simp_all add: manifest_file_def m' manifest_Decode_def)
qed

section \<open>An export and its import over JSON\<close>

lemma client_do_transport:
  assumes "client_do url_ok t c method path b read_definition w = (Inr (status, d), w')"
  shows "t (base_url c) (client_request c method path b) w = (Inr (status, Definition_Body d), w')"
  using assms
  by (auto simp: client_do_def read_definition_def split: if_splits prod.splits sum.splits option.splits body.splits)

lemma client_do_same:
  assumes "client_do url_ok t c method path b output w = (Inr x, w')"
    and "t' (base_url c) (client_request c method path b) w = t (base_url c) (client_request c method path b) w"
  shows "client_do url_ok t' c method path b output w = (Inr x, w')"
  using assms by (auto simp: client_do_def split: if_splits)

lemma json_finds_again:
  assumes "admitted opts c" and "url_ok (base_url c)"
  shows "finds_again url_ok (json_transport opts memory_repository canonical now) c
    (\<lambda>s. indexed canonical (sv_repo s) \<and> service_wf s \<and> (\<forall>(i, d) \<in> set (m_definitions (sv_repo s)). wire_ok d))"
  unfolding finds_again_def
proof (intro allI impI, elim conjE)
  let ?local = "local_transport opts memory_repository canonical now" and ?json = "json_transport opts memory_repository canonical now"
  fix s :: "memory service" and i d
  assume s: "indexed canonical (sv_repo s)" "service_wf s" "\<forall>(i, d) \<in> set (m_definitions (sv_repo s)). wire_ok d"
    and d: "(i, d) \<in> set (m_definitions (sv_repo s))"
  let ?r = "client_request c ''POST'' [''v1'', ''definitions''] (create_call (portable_of d))"
  obtain s' where s': "client_do url_ok ?local c ''POST'' [''v1'', ''definitions''] (create_call (portable_of d)) read_definition s =
      (Inr (200, d), s')" "sv_repo s' = sv_repo s" "service_wf s'"
    using post_again [of i d s canonical opts c url_ok, OF d s(1,2) assms] by blast
  note local = client_do_transport [OF s'(1)]
  have wire: "wire_ok d" using s(3) d by auto
  have "?json (base_url c) ?r s = (Inr (200, Definition_Body d), s')"
  proof (rule json_transport_same [OF _ _ _ _ local])
    show "mux (rq_Method ?r) (rq_Path ?r) = Inr Create_Definition" by (simp add: mux_def path_routes_def)
    show "call_for Create_Definition (rq_Body ?r)" by (simp add: call_for_def create_call_def)
    show "call_marshals (rq_Body ?r)" "call_keeps (rq_Body ?r)" "body_wire_ok (Definition_Body d)"
      using wire by (simp_all add: call_marshals_def call_keeps_def create_call_def portable_of_def wire_ok_def definition_marshals_def
          definition_keeps_def create_keeps_def body_wire_ok_def)
  qed
  with s' local s show "\<exists>s'. client_do url_ok ?json c ''POST'' [''v1'', ''definitions''] (create_call (portable_of d)) read_definition s =
      (Inr (200, d), s') \<and> sv_repo s' = sv_repo s \<and> indexed canonical (sv_repo s') \<and> service_wf s' \<and>
      (\<forall>(i, d) \<in> set (m_definitions (sv_repo s')). wire_ok d)"
    using client_do_same [OF s'(1), of ?json] by auto
qed


lemma utf8_hex: "utf8_ok (a @ hex bs)" if "list_all (\<lambda>c. byte c < 128) a"
proof -
  have "byte c < 128" if "c \<in> set ''0123456789abcdef''" for c using that by (auto simp: byte_def)
  with set_hex [of bs] have "list_all (\<lambda>c. byte c < 128) (hex bs)" unfolding list_all_iff by blast
  with that show ?thesis by (intro utf8_ascii) simp
qed

lemma utf8_uuid: "utf8_ok (uuidFrom bs)"
proof -
  have "set (uuidFrom bs) \<subseteq> insert CHR ''-'' (set ''0123456789abcdef'')"
    using uuid_layout_chars [of "hex bs"] set_hex [of bs] unfolding uuidFrom_def by blast
  moreover have "byte c < 128" if "c \<in> insert CHR ''-'' (set ''0123456789abcdef'')" for c
    using that by (auto simp: byte_def)
  ultimately show ?thesis by (intro utf8_ascii) (auto simp: list_all_iff)
qed

lemma stored_red_wire: "wire_ok stored_red"
  using rule_marshals_color [of "''red''"] utf8_uuid utf8_hex [of "''sha256:''"]
  by (auto simp: wire_ok_def stored_red_def new_definition_def sample_request_def Let_def definition_marshals_def definition_keeps_def
      json_time_ok_def time_add_def sample_options_def NewWithOptions_def btc_1m_def series_keeps_def color_rule_def
      rule_keeps.simps float_kept_def f_zero_def f_round_def int_kept_def utf8_ascii byte_def)


section \<open>Unknown fields\<close>

definition body_keys :: "endpoint \<Rightarrow> string list option" where
  "body_keys e =
    (case e of
       Create_Definition \<Rightarrow> Some (map jf_name create_fields)
     | Update_Definition _ \<Rightarrow> Some (map jf_name enabled_fields)
     | Post_Observation \<Rightarrow> Some (map jf_name observation_fields)
     | _ \<Rightarrow> None)"

lemma strict_body_refused:
  assumes "items = Inr (J_Obj kvs) # rest" and "(k, v) \<in> set kvs" and "fold_name k \<notin> set (map jf_name fs)"
  shows "decode_body True (struct_codec fs) zero items = Inl ''json''"
  using struct_strict [of fs kvs zero _ "(k, v)"] assms
  by (cases "cd_get (struct_codec fs) True (J_Obj kvs) zero") (auto simp: decode_body_def)

text \<open>
  C39. A request with a field it does not have is refused: where a definition is created or switched and where an
  observation is posted, a body whose object has a key that is no field, up to the case of its letters, is answered 400,
  whatever else it holds, and the service stays as it is.
\<close>

theorem unknown_field_refused:
  assumes "body_keys e = Some ks" and "rq_Body r = Inr (J_Obj kvs) # rest" and "(k, v) \<in> set kvs" and "fold_name k \<notin> set ks"
  shows "handle ops canonical json_decoders now elapsed readiness e r s = Some (problem 400 ''invalid_json'' (Text ''json''), s)"
  using assms(1,4)
  by (cases e) (auto simp: strict_body_refused [OF assms(2,3)] body_keys_def handle_def createDefinition_def updateDefinition_def post_observation_def json_decoders_def
      create_codec_def enabled_codec_def observation_codec_def simp del: set_map)

theorem unknown_field_refused_witness:
  "handle memory_repository (\<lambda>_. ''{}'') json_decoders 3 1 [] Create_Definition
     (with_body [Inr (J_Obj [(''name'', J_Str ''red''), (''owner'', J_Null)])] (sample_get [''v1'', ''definitions''] ''api''))
     (NewWithOptions NewMemory sample_options) =
   Some (problem 400 ''invalid_json'' (Text ''json''), NewWithOptions NewMemory sample_options)"
  by (rule unknown_field_refused [where ks = "map jf_name create_fields" and k = "''owner''" and v = J_Null and kvs = "[(''name'', J_Str ''red''), (''owner'', J_Null)]"])
    (simp_all add: body_keys_def create_fields_def plain_name)

end
