(* ===== verification/Spec2Isabelle.thy ===== *)
theory Spec2Isabelle
  imports Postgres_Log Cluster_Laws Commands Json_Api
begin

text \<open>
  \<^bold>\<open>A verification of alertsd.\<close>

  \<open>alertsd\<close> evaluates user-defined alert rules over market observations. Upstream analysis events arrive through NATS
  JetStream (or the HTTP interface), become observations, and are evaluated per partition by one of several workers; the
  alerts a batch raises are committed, together with the evaluation state, in one transaction, and are published from an
  outbox. Definitions are managed over HTTP, become effective after a delay, and every worker refreshes its copy of them.

  \<^bold>\<open>Components and theories.\<close> Each component has a theory with its data and operations, named as in the source, and the
  larger ones further theories with their properties.

  \<^item> \<open>Prelude\<close>, \<open>GoFloat\<close>, \<open>GoStd\<close>, \<open>GoHash\<close>: the parts of the Go language and library the program uses: 64-bit wrap-around,
    binary64 with rounding, instants and durations, \<open>strconv\<close>, \<open>strings\<close>, FNV and SHA-256. \<open>GoTime\<close>: the calendar and the
    RFC 3339 form of instants. \<open>Json\<close>: \<open>encoding/json\<close> as a library of codecs for Go types.
  \<^item> \<open>Model\<close> (\<open>internal/model\<close>): every struct as a record or datatype.
  \<^item> \<open>Rules\<close>, \<open>Rule_Semantics\<close> (\<open>internal/rules\<close>): \<open>Validate\<close>, \<open>Compile\<close>, \<open>Evaluate\<close>, \<open>Advance\<close>; a declarative
    three-valued semantics of rules, which the evaluator refines.
  \<^item> \<open>Store\<close>, \<open>Cursor\<close>, \<open>Legacy\<close>, \<open>Memory\<close>, \<open>Postgres\<close> (\<open>internal/store\<close>): the repository interface as a record of
    methods (\<open>repository\<close>), the older evaluation path, and the two implementations. A PostgreSQL method is the
    transaction it runs on the tables of the migrations (\<open>pg\<close>); \<open>drv_fault\<close> decides which statements fail.
    Properties: \<open>Postgres_Laws\<close>, \<open>Postgres_Leases\<close>, \<open>Postgres_Log\<close>.
  \<^item> \<open>Engine\<close> (\<open>internal/runtime\<close>): routing table, partitions, ownership, \<open>Initialize\<close> and \<open>EvaluateBatch\<close>. Properties:
    \<open>Engine_Routing\<close> (index and partition function), \<open>Engine_Batch\<close> (one batch), \<open>Engine_Trigger\<close> (cooldown, bar and edge
    discipline as an automaton), \<open>Engine_Restart\<close> (memory against checkpoint).
  \<^item> \<open>Service\<close>, \<open>Outbox\<close>, \<open>Service_Laws\<close> (\<open>internal/service\<close>): the life cycle of definitions, ingestion, maintenance, the
    publisher.
  \<^item> \<open>Signals\<close> (\<open>internal/signals\<close>), \<open>Broker\<close>, \<open>Broker_Laws\<close> (\<open>internal/broker\<close>): the mapping of events, streams and
    consumers, the disposition of every message.
  \<^item> \<open>Api\<close> (\<open>internal/api\<close>), \<open>Config\<close> (\<open>internal/config\<close>), \<open>Definition_File\<close>, \<open>Definition_File_Laws\<close>
    (\<open>internal/definitionfile\<close>), \<open>Commands\<close> (\<open>cmd/alertdefs\<close>, \<open>cmd/testclient\<close>).
  \<^item> \<open>Json_Model\<close>, \<open>Json_Store\<close>, \<open>Json_Api\<close>: the JSON of every struct of the model by its tags, of the columns of the
    database, and of the bodies, events and manifest files; the decoders that \<open>Api\<close>, \<open>Broker\<close> and \<open>Definition_File\<close> take.
  \<^item> \<open>Alertsd\<close>, \<open>Alertsd_Laws\<close>, \<open>Cluster\<close>, \<open>Cluster_Leases\<close>, \<open>Cluster_Laws\<close> (\<open>cmd/alertsd\<close>): a worker from its configuration
    to its end, and several workers over one database as a step relation whose steps are the transactions of their
    goroutines in any order.

  \<^bold>\<open>How the code is modelled.\<close> A method with a pointer receiver takes the record and returns it updated. A pair of value
  and error is a sum with the error left, an error that may be nil an option. A panic is \<open>None\<close>: of the evaluator on a
  malformed rule, and of everything above it. Maps are \<open>\<rightharpoonup>\<close> where their order cannot be observed and
  association lists where the program iterates over them. \<open>sort.Slice\<close> is a stable sort. A \<open>json.RawMessage\<close> is the value it
  encodes. Locks are not modelled: what runs under one lock, or in one transaction, is one function.

  \<^bold>\<open>Interfaces.\<close> \<open>revision_cursor\<close> (\<open>Cursor\<close>) is the staleness contract, met by the live and the older path.
  \<open>checkpoint_store\<close> and \<open>lease_store\<close> (\<open>Store\<close>) are what engine and worker rely on in a repository, met by the memory
  store and by PostgreSQL; \<open>restart_store\<close> (\<open>Engine_Restart\<close>) extends the former by what a load returns, and carries the
  theorem that memory follows the checkpoint; \<open>lease_clock\<close> (\<open>Postgres_Leases\<close>) gives \<open>lease_store\<close> at every instant.
  \<open>json_codec\<close> (\<open>Json\<close>) is what a codec promises: which values it refuses to print, and that every other one is read back as a
  given value; it is met by the codec of every basic type and of the structs that are printed and read.

  \<^bold>\<open>Groups of properties.\<close>

  \<^item> Rules: the evaluator computes the reference semantics; a valid rule never panics; bounded history is enough.
  \<^item> One engine: totality, failed batches, redelivery, resets, routing, partitions, and the trigger discipline.
  \<^item> Restart and takeover: what \<open>Initialize\<close> loads is what the last worker held, for one worker and in a cluster; leases
    keep workers apart and run out; but a commit is not fenced by the lease.
  \<^item> Definitions: the service keeps them sound, a switch takes effect everywhere at once, files carry them over.
  \<^item> Delivery: every message is acknowledged, dead-lettered or left; each alert is committed once; the publisher empties the
    outbox over PostgreSQL and may spin over the memory store; retention spares what is not published.
  \<^item> JSON: a stored state comes back as the checkpoint says, an export is imported again without a change with JSON
    between client and server and in the file, and unknown fields are refused.
  \<^item> Interface and configuration: authorisation, totality of the handlers, bounds of an accepted configuration.

  \<^bold>\<open>Bounds and fuel.\<close> \<open>drain\<close> takes fuel and returns \<open>None\<close> without any: over the memory store it returns when the fuel
  exceeds the pages of the outbox, over PostgreSQL for every publisher. \<open>shard_rounds\<close> and \<open>receive_rounds\<close> take the
  number of rounds, since their loops run until they are cancelled. \<open>GoFloat\<close> rounds every operation once and computes with rationals.

  \<^bold>\<open>Not modelled.\<close>

  \<^item> The text of JSON: printing and lexing, and the texts of its errors. JSON is exchanged as values; the text a definition is
    hashed by and the text of a rule in the order of a manifest are parameters. PostgreSQL keeps no negative zero in
    \<open>jsonb\<close> and refuses the character 0; the model keeps both.
  \<^item> The client libraries: \<open>net/http\<close>, \<open>nats.go\<close> (a record of its calls, which may fail), \<open>pgx\<close> with its pool and the
    text of statements, flag parsing, logging.
  \<^item> Scheduling inside a transaction, and between the two halves of a definition change (database, then routing table of
    the same worker); the routing table is constant during a batch. All clocks of a cluster show the same time.
  \<^item> The aliasing of the map \<open>Indicators\<close>, which the clone of a state does not share.
\<close>

end
